(* ===== verification/Prelude.thy ===== *)
theory Prelude
  imports Main "HOL-Library.Word" "HOL-Library.AList" "HOL-Library.Sublist"
begin

text \<open>
  The vocabulary every component of the development shares: the gRPC status codes that the
  Go handlers return (\<open>google.golang.org/grpc/codes\<close>), results that are an error or a value,
  the machine integers, and the few string functions of Go's standard library the code calls
  (\<open>strings.IndexByte\<close>, \<open>strings.ReplaceAll\<close> on one byte, hexadecimal encoding), with the
  lemmas about them the component theories use. A Go string is a list of bytes, which is what
  an Isabelle \<open>string\<close> is. Error messages are not modelled: an error is its status code.
\<close>

section \<open>Collections of rewrite rules\<close>

text \<open>
  \<open>go_string\<close> collects the equations of the string functions, \<open>fence_simps\<close> the selector
  equations of the durable fencing state and \<open>pub_simps\<close> those of the controller's records.
\<close>

named_theorems go_string \<open>equations of the Go string functions\<close>
named_theorems fence_simps \<open>behaviour of the fencing operations\<close>
named_theorems pub_simps \<open>behaviour of the controller's status updates\<close>
named_theorems auth_simps \<open>behaviour of the recovery verification functions\<close>

section \<open>Status codes and results\<close>

datatype grpc_code =
    Canceled | UnknownCode | InvalidArgument | DeadlineExceeded | NotFound | AlreadyExists
  | PermissionDenied | ResourceExhausted | FailedPrecondition | Aborted | OutOfRange
  | Unimplemented | InternalError | Unavailable | DataLoss | Unauthenticated

type_synonym 'a result = "grpc_code + 'a"

text \<open>A Go function that returns only an \<open>error\<close> returns \<open>None\<close> for \<open>nil\<close>.\<close>

type_synonym err = "grpc_code option"

type_synonym uint64 = "64 word"
type_synonym int64 = "64 word"

definition ok :: "'e + 'a \<Rightarrow> bool" where
  "ok r \<longleftrightarrow> (case r of Inl _ \<Rightarrow> False | Inr _ \<Rightarrow> True)"

lemma ok_simps [simp]: "\<not> ok (Inl e)" "ok (Inr a)"
  by (simp_all add: ok_def)

text \<open>The first check that fails decides the result, as a chain of \<open>if err != nil { return err }\<close>.\<close>

definition orElse :: "'e option \<Rightarrow> 'e option \<Rightarrow> 'e option" where
  "orElse a b = (case a of Some e \<Rightarrow> Some e | None \<Rightarrow> b)"

lemma orElse_simps [simp]: "orElse (Some e) b = Some e" "orElse None b = b"
  by (simp_all add: orElse_def)

lemma orElse_None_iff [simp]: "orElse a b = None \<longleftrightarrow> a = None \<and> b = None"
  by (cases a) simp_all

lemma Some_eq_exists [intro]: "Some c = x \<Longrightarrow> \<exists>y. x = Some y"
  by auto

section \<open>Go string functions\<close>

text \<open>\<open>strings.IndexByte\<close>: the position of the first occurrence, \<open>None\<close> for -1.\<close>

fun indexByte :: "string \<Rightarrow> char \<Rightarrow> nat option" where
  "indexByte [] c = None"
| "indexByte (x # xs) c = (if x = c then Some 0 else map_option Suc (indexByte xs c))"

lemma indexByte_append:
  "c \<notin> set xs \<Longrightarrow> indexByte (xs @ c # ys) c = Some (length xs)"
  by (induction xs) auto

lemma indexByte_Some:
  "indexByte s c = Some i \<Longrightarrow> i < length s \<and> s ! i = c \<and> c \<notin> set (take i s)"
  by (induction s arbitrary: i) (auto split: if_splits)

lemma indexByte_None: "indexByte s c = None \<longleftrightarrow> c \<notin> set s"
  by (induction s) auto

text \<open>\<open>strings.ReplaceAll(s, a, b)\<close> for strings \<open>a\<close>, \<open>b\<close> of one byte.\<close>

definition replaceAll :: "string \<Rightarrow> char \<Rightarrow> char \<Rightarrow> string" where
  "replaceAll s a b = map (\<lambda>x. if x = a then b else x) s"

lemma replaceAll_append [simp]: "replaceAll (s @ t) a b = replaceAll s a b @ replaceAll t a b"
  by (simp add: replaceAll_def)

lemma replaceAll_id: "a \<notin> set s \<Longrightarrow> replaceAll s a b = s"
  by (auto simp: replaceAll_def intro: map_idI)

lemma length_replaceAll [simp]: "length (replaceAll s a b) = length s"
  by (simp add: replaceAll_def)

subsection \<open>Hexadecimal digits\<close>

definition hexDigits :: string where
  "hexDigits = ''0123456789abcdef''"

definition hexDigit :: "nat \<Rightarrow> char" where
  "hexDigit n = hexDigits ! n"

text \<open>The value of a digit; lower and upper case are accepted, as \<open>hex.DecodeString\<close> does.\<close>

definition hexValue :: "char \<Rightarrow> nat option" where
  "hexValue c = (let n = of_char c :: nat in
     if 48 \<le> n \<and> n \<le> 57 then Some (n - 48)
     else if 97 \<le> n \<and> n \<le> 102 then Some (n - 87)
     else if 65 \<le> n \<and> n \<le> 70 then Some (n - 55)
     else None)"

lemma less_16_cases:
  "(n::nat) < 16 \<Longrightarrow> n \<in> {0, 1, 2, 3, 4, 5, 6, 7, 8, 9, 10, 11, 12, 13, 14, 15}"
  by (simp, presburger)

lemma hexValue_hexDigit [simp]: "n < 16 \<Longrightarrow> hexValue (hexDigit n) = Some n"
  by (drule less_16_cases) (auto simp: hexDigit_def hexDigits_def hexValue_def)

lemma of_char_less_256 [simp]: "(of_char c :: nat) < 256"
  by (metis mod_less_divisor of_char_mod_256 zero_less_numeral)

lemma byte_nibbles [simp]: "(of_char c :: nat) div 16 < 16" "(of_char c :: nat) mod 16 < 16"
  by (simp_all add: less_mult_imp_div_less)

lemma char_of_nibbles [simp]:
  "char_of (16 * (of_char c div 16) + of_char c mod 16 :: nat) = c"
  by (simp add: mult_div_mod_eq)

text \<open>\<open>hex.EncodeToString\<close> and \<open>hex.DecodeString\<close> on byte strings.\<close>

definition hexEncode :: "string \<Rightarrow> string" where
  "hexEncode s = concat (map (\<lambda>c. [hexDigit (of_char c div 16), hexDigit (of_char c mod 16)]) s)"

fun hexDecode :: "string \<Rightarrow> string option" where
  "hexDecode [] = Some []"
| "hexDecode [c] = None"
| "hexDecode (h # l # rest) =
     (case (hexValue h, hexValue l) of
        (Some a, Some b) \<Rightarrow> map_option (Cons (char_of (16 * a + b))) (hexDecode rest)
      | _ \<Rightarrow> None)"

lemma hexEncode_simps [simp]:
  "hexEncode [] = []"
  "hexEncode (c # s) = hexDigit (of_char c div 16) # hexDigit (of_char c mod 16) # hexEncode s"
  by (simp_all add: hexEncode_def)

lemma hexDecode_hexEncode [simp]: "hexDecode (hexEncode s) = Some s"
  by (induction s) simp_all

lemma hexEncode_inject [simp]: "hexEncode s = hexEncode t \<longleftrightarrow> s = t"
  by (metis hexDecode_hexEncode option.inject)

lemma length_hexEncode [simp]: "length (hexEncode s) = 2 * length s"
  by (induction s) simp_all

subsection \<open>Slash-separated paths\<close>

text \<open>\<open>strings.Split\<close> on one byte; the result is never empty.\<close>

fun splitOn :: "char \<Rightarrow> string \<Rightarrow> string list" where
  "splitOn c [] = [[]]"
| "splitOn c (x # xs) =
     (if x = c then [] # splitOn c xs
      else (case splitOn c xs of [] \<Rightarrow> [[x]] | p # ps \<Rightarrow> (x # p) # ps))"

fun joinWith :: "char \<Rightarrow> string list \<Rightarrow> string" where
  "joinWith c [] = []"
| "joinWith c [p] = p"
| "joinWith c (p # q # ps) = p @ c # joinWith c (q # ps)"

lemma splitOn_nonempty [simp]: "splitOn c s \<noteq> []"
  by (induction s) (auto split: list.splits)

lemma splitOn_no_sep: "p \<in> set (splitOn c s) \<Longrightarrow> c \<notin> set p"
  by (induction s arbitrary: p) (fastforce split: if_splits list.splits)+

lemma joinWith_Cons_char: "joinWith c ((x # p) # ps) = x # joinWith c (p # ps)"
  by (cases ps) simp_all

lemma joinWith_Nil_Cons: "ps \<noteq> [] \<Longrightarrow> joinWith c ([] # ps) = c # joinWith c ps"
  by (cases ps) simp_all

lemma joinWith_splitOn [simp]: "joinWith c (splitOn c s) = s"
  by (induction s) (auto simp: joinWith_Cons_char joinWith_Nil_Cons split: list.splits)

definition isAbs :: "string \<Rightarrow> bool" where
  "isAbs s \<longleftrightarrow> (case s of [] \<Rightarrow> False | c # _ \<Rightarrow> c = CHR ''/'')"

text \<open>
  \<open>path.Clean\<close> (and \<open>filepath.Clean\<close> on Unix): drop empty and \<open>.\<close> elements, resolve \<open>..\<close>
  against the element before it, keep a leading \<open>..\<close> of a relative path only. The
  accumulator holds the elements kept so far, last first.
\<close>

fun cleanElems :: "bool \<Rightarrow> string list \<Rightarrow> string list \<Rightarrow> string list" where
  "cleanElems rooted acc [] = rev acc"
| "cleanElems rooted acc (e # es) =
     (if e = [] \<or> e = ''.'' then cleanElems rooted acc es
      else if e = ''..'' then
        (case acc of
           [] \<Rightarrow> if rooted then cleanElems rooted [] es else cleanElems rooted [''..''] es
         | a # as \<Rightarrow> if a = ''..'' then cleanElems rooted (''..'' # acc) es
                     else cleanElems rooted as es)
      else cleanElems rooted (e # acc) es)"

definition pathClean :: "string \<Rightarrow> string" where
  "pathClean s =
     (let body = joinWith (CHR ''/'') (cleanElems (isAbs s) [] (splitOn (CHR ''/'') s)) in
      if isAbs s then CHR ''/'' # body else if body = [] then ''.'' else body)"

end
