(* ===== verification/Backend.thy ===== *)
theory Backend
  imports Prelude
begin

text \<open>
  The storage node as the agent sees it: the backend interface of
  \<open>internal/agent/backend/backend.go\<close>, the registry of backends by pool of
  \<open>internal/agent/server.go\<close>, and the derivation of protocol target names of
  \<open>internal/agent/target_id.go\<close>.

  The backends run \<open>zfs\<close> and \<open>lvm\<close> commands; a backend is a record of functions on the state
  \<open>'w\<close> of the storage node outside the agent's state directory, one field per method of the
  Go interfaces. A method of an optional interface (\<open>LVVerifier\<close>, \<open>LVInspector\<close>,
  \<open>LVImporter\<close>, \<open>VolumeImporter\<close>) is an \<open>option\<close>: \<open>None\<close> where the Go type assertion
  \<open>b.(backend.LVVerifier)\<close> fails.
\<close>

section \<open>Backend types and errors\<close>

datatype backend_type =
    BackendUnspecified | BackendZfsZvol | BackendZfsDataset | BackendLvm
  | BackendBlockDevice | BackendDirectory

datatype protocol_type =
    ProtocolUnspecified | ProtocolNvmeofTcp | ProtocolIscsi | ProtocolNfs | ProtocolSmb

text \<open>
  The classes of Go errors a backend returns, as \<open>errors.AsType\<close> and \<open>status.FromError\<close>
  tell them apart.
\<close>

datatype backend_error =
    ImportRefusedError | LayoutMismatchError | InsufficientCapacityError | ConflictError
  | StatusError grpc_code | PlainError

record lvm_identity =
  VolumeGroup :: string
  LogicalVolume :: string
  VolumeGroupUUID :: string
  LogicalVolumeUUID :: string

record layout =
  ParentDataset :: string
  ThinPool :: string
  HostRoot :: string

text \<open>The observed state of the transient \<open>O_EXCL\<close> open.\<close>

datatype exclusive_claim = ExclusiveClaimFree | ExclusiveClaimBusy | ExclusiveClaimUnknown

record device_consumer =
  consumerKind :: string
  consumerDetail :: string

record lv_observation =
  obsIdentity :: lvm_identity
  obsActive :: bool
  obsExclusiveClaim :: exclusive_claim
  obsConsumers :: "device_consumer list"
  obsExports :: "device_consumer list"

record filesystem_adoption =
  faKind :: string
  faCanonicalSource :: string
  faResourceId :: string
  faHostPath :: string
  faFilesystemType :: string
  faFilesystemId :: string
  faInode :: uint64
  faProjectId :: "32 word"

section \<open>The backend interface\<close>

record 'w backend =
  bType :: backend_type
  bDevicePath :: "string \<Rightarrow> string"
  bCreate :: "'w \<Rightarrow> string \<Rightarrow> int64 \<Rightarrow> (backend_error + string \<times> int64) \<times> 'w"
  bDelete :: "'w \<Rightarrow> string \<Rightarrow> backend_error option \<times> 'w"
  bExpand :: "'w \<Rightarrow> string \<Rightarrow> int64 \<Rightarrow> (backend_error + int64) \<times> 'w"
  bVerifyLV :: "('w \<Rightarrow> string \<Rightarrow> lvm_identity \<Rightarrow> backend_error option) option"
  bInspectLV :: "('w \<Rightarrow> string \<Rightarrow> backend_error + lv_observation) option"
  bImportLV :: "('w \<Rightarrow> string \<Rightarrow> int64 \<Rightarrow> lvm_identity \<Rightarrow> backend_error + string \<times> int64) option"
  bImport :: "('w \<Rightarrow> string \<Rightarrow> int64 \<Rightarrow> string \<Rightarrow> backend_error + string \<times> int64) option"
  bExistingFilesystem :: "('w \<Rightarrow> string \<Rightarrow> backend_error + filesystem_adoption option) option"

text \<open>
  The registry of a running agent, fixed at start (\<open>NewServer\<close>): the backend of a pool, and
  the backends of a pool by type, an empty list for a pool without an entry.
\<close>

record 'w registry =
  rBackends :: "string \<rightharpoonup> 'w backend"
  rVariants :: "string \<Rightarrow> (backend_type \<times> 'w backend) list"

definition poolFromVolumeID :: "string \<Rightarrow> string result" where
  "poolFromVolumeID v =
     (case indexByte v (CHR ''/'') of
        None \<Rightarrow> Inl InvalidArgument
      | Some i \<Rightarrow> if i = 0 then Inl InvalidArgument else Inr (take i v))"

definition backendFor :: "'w registry \<Rightarrow> string \<Rightarrow> 'w backend result" where
  "backendFor r v =
     (case poolFromVolumeID v of
        Inl e \<Rightarrow> Inl e
      | Inr pool \<Rightarrow>
         if length (rVariants r pool) > 1 then Inl FailedPrecondition
         else (case rBackends r pool of None \<Rightarrow> Inl NotFound | Some b \<Rightarrow> Inr b))"

definition backendForType :: "'w registry \<Rightarrow> string \<Rightarrow> backend_type \<Rightarrow> 'w backend result" where
  "backendForType r v requested =
     (case poolFromVolumeID v of
        Inl e \<Rightarrow> Inl e
      | Inr pool \<Rightarrow>
         (case map_of (rVariants r pool) requested of
            Some b \<Rightarrow> Inr b
          | None \<Rightarrow>
             (case rBackends r pool of
                None \<Rightarrow> Inl NotFound
              | Some b \<Rightarrow> Inr b)))"

definition checkBackendType :: "backend_type \<Rightarrow> backend_type \<Rightarrow> err" where
  "checkBackendType requested configured =
     (case requested of
        BackendUnspecified \<Rightarrow> Some InvalidArgument
      | BackendBlockDevice \<Rightarrow> Some Unimplemented
      | _ \<Rightarrow> if requested \<noteq> configured then Some InvalidArgument else None)"

lemma checkBackendType_None [simp]:
  "checkBackendType requested configured = None \<longleftrightarrow>
     requested = configured \<and> requested \<notin> {BackendUnspecified, BackendBlockDevice}"
  by (auto simp: checkBackendType_def split: backend_type.splits)

lemma poolFromVolumeID_ok:
  "poolFromVolumeID (p @ CHR ''/'' # n) = Inr p" if "p \<noteq> []" "CHR ''/'' \<notin> set p"
  using that by (simp add: poolFromVolumeID_def indexByte_append)

section \<open>Error mapping\<close>

text \<open>\<open>createVolumeError\<close> of \<open>server_volume.go\<close> and \<open>importVolumeError\<close> of \<open>server_import.go\<close>.\<close>

fun createVolumeError :: "backend_error \<Rightarrow> grpc_code" where
  "createVolumeError ConflictError = AlreadyExists"
| "createVolumeError LayoutMismatchError = FailedPrecondition"
| "createVolumeError InsufficientCapacityError = ResourceExhausted"
| "createVolumeError (StatusError c) = c"
| "createVolumeError _ = InternalError"

fun importVolumeError :: "backend_error \<Rightarrow> grpc_code" where
  "importVolumeError ImportRefusedError = FailedPrecondition"
| "importVolumeError LayoutMismatchError = FailedPrecondition"
| "importVolumeError InsufficientCapacityError = ResourceExhausted"
| "importVolumeError (StatusError c) = c"
| "importVolumeError _ = InternalError"

section \<open>Protocol target names\<close>

definition nqnPrefix :: string where
  "nqnPrefix = ''nqn.2026-01.com.bhyoo.pillar-csi:''"

definition OwnedIQNPrefix :: string where
  "OwnedIQNPrefix = ''iqn.2026-01.com.bhyoo.pillar-csi:''"

definition MaxIQNLength :: nat where
  "MaxIQNLength = 223"

definition volumeTargetID :: "protocol_type \<Rightarrow> string \<Rightarrow> string result" where
  "volumeTargetID protocol v =
     (case protocol of
        ProtocolNvmeofTcp \<Rightarrow> Inr (nqnPrefix @ replaceAll v (CHR ''/'') (CHR ''.''))
      | ProtocolIscsi \<Rightarrow>
          (let iqn = OwnedIQNPrefix @ replaceAll v (CHR ''/'') (CHR ''.'') in
           if length iqn > MaxIQNLength then Inl InvalidArgument else Inr iqn)
      | ProtocolUnspecified \<Rightarrow> Inl InvalidArgument
      | _ \<Rightarrow> Inl Unimplemented)"

text \<open>\<open>ownTargetIDs\<close> of \<open>server_inspect.go\<close>.\<close>

definition ownTargetIDs :: "string \<Rightarrow> string list" where
  "ownTargetIDs v =
     concat (map (\<lambda>p. case volumeTargetID p v of Inl _ \<Rightarrow> [] | Inr i \<Rightarrow> [i])
       [ProtocolNvmeofTcp, ProtocolIscsi])"

lemma replaceAll_Cons [simp]: "replaceAll (x # s) a b = (if x = a then b else x) # replaceAll s a b"
  by (simp add: replaceAll_def)

section \<open>Properties\<close>

text \<open>
  C38: the target name of a volume tells volumes of one pool apart, and names of different
  pools as long as neither pool name has a dot. It does not tell all volumes apart: a slash and a
  dot are written alike, so volume \<open>b.c\<close> of pool \<open>a\<close> and volume \<open>c\<close> of pool \<open>a.b\<close> have
  the same NVMe-oF subsystem name, and the same iSCSI target name.
\<close>

theorem target_names_distinct:
  assumes "CHR ''/'' \<notin> set p" "CHR ''/'' \<notin> set q" "CHR ''/'' \<notin> set m" "CHR ''/'' \<notin> set n"
    and "p = q \<or> CHR ''.'' \<notin> set p \<and> CHR ''.'' \<notin> set q"
    and "protocol \<in> {ProtocolNvmeofTcp, ProtocolIscsi}" "volumeTargetID protocol (p @ ''/'' @ m) = Inr x"
  shows "(volumeTargetID protocol (q @ ''/'' @ n) = Inr x \<longrightarrow> p = q \<and> m = n) \<and>
    volumeTargetID protocol ''a/b.c'' = volumeTargetID protocol ''a.b/c''"
proof -
  have collide: "replaceAll ''a/b.c'' (CHR ''/'') (CHR ''.'') = replaceAll ''a.b/c'' (CHR ''/'') (CHR ''.'')"
    by (simp add: replaceAll_def)
  have "p = q \<and> m = n" if "volumeTargetID protocol (q @ ''/'' @ n) = Inr x"
  proof -
    have "replaceAll (p @ ''/'' @ m) (CHR ''/'') (CHR ''.'') = replaceAll (q @ ''/'' @ n) (CHR ''/'') (CHR ''.'')"
      using assms(6,7) that by (auto simp: volumeTargetID_def Let_def split: if_splits)
    then have eq: "p @ CHR ''.'' # m = q @ CHR ''.'' # n"
      using assms(1-4) by (simp add: replaceAll_id)
    show ?thesis
    proof (cases "p = q")
      case False
      then have "indexByte (p @ CHR ''.'' # m) (CHR ''.'') = Some (length p)"
        "indexByte (q @ CHR ''.'' # n) (CHR ''.'') = Some (length q)"
        using assms(5) by (simp_all add: indexByte_append)
      then show ?thesis using eq by simp
    qed (use eq in simp)
  qed
  moreover have "volumeTargetID protocol ''a/b.c'' = volumeTargetID protocol ''a.b/c''"
    using assms(6) collide by (auto simp: volumeTargetID_def Let_def)
  ultimately show ?thesis by blast
qed

theorem target_names_distinct_witness:
  "volumeTargetID ProtocolNvmeofTcp ''tank/a'' \<noteq> volumeTargetID ProtocolNvmeofTcp ''tank/b'' \<and>
   volumeTargetID ProtocolNvmeofTcp ''a/b.c'' = volumeTargetID ProtocolNvmeofTcp ''a.b/c''"
  using target_names_distinct [of "''tank''" "''tank''" "''a''" "''b''" ProtocolNvmeofTcp
      "nqnPrefix @ replaceAll ''tank/a'' (CHR ''/'') (CHR ''.'')"]
  by (auto simp: volumeTargetID_def)

end
