(* ===== verification/Fence_Mark.thy ===== *)
theory Fence_Mark
  imports Backend
begin

text \<open>
  The durable fencing mark of \<open>internal/agent/fencing.go\<close> and the directory that holds one
  mark file per volume. A mark file is named by \<open>fencingFilename\<close>; it is replaced by writing
  a temporary file and renaming it. The directory is an association list from file names to
  contents, where a content is a mark or something that does not parse as one.

  Input and output can fail at each step the Go code checks; a failure is an argument of the
  operation (\<open>read_fault\<close>, \<open>write_fault\<close>), so a theorem that holds for every fault holds for
  every way the file system behaves.
\<close>

section \<open>The mark\<close>

record mark_transfer =
  trAuthorizationDigest :: string
  trFromUID :: string
  trFromGeneration :: uint64
  trToUID :: string
  trToGeneration :: uint64

record fencing_mark =
  mVolumeUID :: string
  mGeneration :: uint64
  mEnded :: bool
  mEndedUIDs :: "string list"
  mFilesystem :: "filesystem_adoption option"
  mFilesystemVolumeID :: string
  mFilesystemCapacity :: int64
  mFilesystemLayout :: "layout option"
  mLocalAttached :: bool
  mFilesystemClients :: "string list"
  mFilesystemOpen :: bool
  mFilesystemExported :: bool
  mFilesystemProxyClaimed :: bool
  mLegacyRevokeOnly :: bool
  mLVMSource :: "lvm_identity option"
  mPreserveOriginal :: bool
  mTransfer :: "mark_transfer option"

text \<open>Go's zero value of the struct, and a mark literal that sets only identity fields.\<close>

definition zero_mark :: fencing_mark where
  "zero_mark = \<lparr>mVolumeUID = [], mGeneration = 0, mEnded = False, mEndedUIDs = [],
     mFilesystem = None, mFilesystemVolumeID = [], mFilesystemCapacity = 0,
     mFilesystemLayout = None, mLocalAttached = False, mFilesystemClients = [],
     mFilesystemOpen = False, mFilesystemExported = False, mFilesystemProxyClaimed = False,
     mLegacyRevokeOnly = False, mLVMSource = None, mPreserveOriginal = False, mTransfer = None\<rparr>"

lemma zero_mark_simps [simp]:
  "mVolumeUID zero_mark = []" "mGeneration zero_mark = 0" "\<not> mEnded zero_mark"
  "mEndedUIDs zero_mark = []" "mLVMSource zero_mark = None" "\<not> mPreserveOriginal zero_mark"
  "\<not> mLegacyRevokeOnly zero_mark" "mTransfer zero_mark = None" "mFilesystem zero_mark = None"
  by (simp_all add: zero_mark_def)

text \<open>
  \<open>equalMarks\<close> compares the identity fields only; the filesystem-adoption fields are not
  compared, although its comment speaks of marks that serialize to the same state.
\<close>

definition equalMarks :: "fencing_mark \<Rightarrow> fencing_mark \<Rightarrow> bool" where
  "equalMarks a b \<longleftrightarrow>
     mVolumeUID a = mVolumeUID b \<and> mGeneration a = mGeneration b \<and> mEnded a = mEnded b \<and>
     mEndedUIDs a = mEndedUIDs b \<and> mLVMSource a = mLVMSource b \<and>
     mPreserveOriginal a = mPreserveOriginal b \<and> mTransfer a = mTransfer b"

section \<open>File names\<close>

definition plainByte :: "char \<Rightarrow> bool" where
  "plainByte c \<longleftrightarrow> (let n = of_char c :: nat in
     97 \<le> n \<and> n \<le> 122 \<or> 65 \<le> n \<and> n \<le> 90 \<or> 48 \<le> n \<and> n \<le> 57 \<or> n = 46 \<or> n = 45)"

definition escapeByte :: "char \<Rightarrow> string" where
  "escapeByte c = (if plainByte c then [c]
     else [CHR ''_'', hexDigit (of_char c div 16), hexDigit (of_char c mod 16)])"

definition fencingSuffix :: string where
  "fencingSuffix = ''.mark''"

definition fencingFilename :: "string \<Rightarrow> string" where
  "fencingFilename v = concat (map escapeByte v) @ fencingSuffix"

text \<open>The inverse of the escaping, used to show that it loses nothing.\<close>

fun unescape :: "string \<Rightarrow> string" where
  "unescape [] = []"
| "unescape (c # cs) =
     (if c = CHR ''_'' then
        (case cs of
           h # l # rest \<Rightarrow>
             char_of (16 * the (hexValue h) + the (hexValue l)) # unescape rest
         | _ \<Rightarrow> [])
      else c # unescape cs)"

lemma plainByte_underscore [simp]: "\<not> plainByte (CHR ''_'')"
  by (simp add: plainByte_def)

lemma unescape_escapeByte: "unescape (escapeByte c @ s) = c # unescape s"
  by (auto simp: escapeByte_def)

lemma unescape_concat: "unescape (concat (map escapeByte s)) = s"
  by (induction s) (simp_all add: unescape_escapeByte)

lemma fencingFilename_inject [simp]: "fencingFilename u = fencingFilename v \<longleftrightarrow> u = v"
proof
  assume "fencingFilename u = fencingFilename v"
  then have "concat (map escapeByte u) = concat (map escapeByte v)"
    by (simp add: fencingFilename_def)
  then show "u = v" by (metis unescape_concat)
qed simp

definition tmpName :: "string \<Rightarrow> string" where
  "tmpName name = name @ ''.tmp''"

lemma tmpName_inject [simp]: "tmpName a = tmpName b \<longleftrightarrow> a = b"
  by (simp add: tmpName_def)

text \<open>A temporary file never has the name of a mark: the names end differently.\<close>

lemma tmpName_not_mark [simp]:
  "tmpName a \<noteq> fencingFilename v" "fencingFilename v \<noteq> tmpName a"
proof -
  have "last (tmpName a) \<noteq> last (fencingFilename v)"
    by (simp add: tmpName_def fencingFilename_def fencingSuffix_def)
  then show "tmpName a \<noteq> fencingFilename v" "fencingFilename v \<noteq> tmpName a"
    by auto
qed

section \<open>The directory of marks\<close>

datatype file_content = MarkJSON fencing_mark | NotAMark

record mark_dir =
  dirExists :: bool
  dirFiles :: "(string \<times> file_content) list"

datatype read_fault = ReadOk | OpenRootFails | ReadFileFails

datatype write_fault =
    WriteOk | MkdirFails | OpenFails | SubdirFails | TmpOpenFails | TmpWriteFails
  | RenameFails | SyncFails

definition fileAt :: "mark_dir \<Rightarrow> string \<Rightarrow> file_content option" where
  "fileAt d name = (if dirExists d then map_of (dirFiles d) name else None)"

text \<open>What the file system holds for a volume.\<close>

definition markAt :: "mark_dir \<Rightarrow> string \<Rightarrow> file_content option" where
  "markAt d v = fileAt d (fencingFilename v)"

definition readFencingMark ::
    "read_fault \<Rightarrow> mark_dir \<Rightarrow> string \<Rightarrow> (fencing_mark \<times> bool) result" where
  "readFencingMark f d v =
     (if f = OpenRootFails then Inl InternalError
      else if \<not> dirExists d then Inr (zero_mark, False)
      else if f = ReadFileFails then Inl InternalError
      else (case fileAt d (fencingFilename v) of
              None \<Rightarrow> Inr (zero_mark, False)
            | Some NotAMark \<Rightarrow> Inl InternalError
            | Some (MarkJSON mark) \<Rightarrow>
                if mVolumeUID mark = [] then Inl InternalError else Inr (mark, True)))"

text \<open>
  \<open>openStateRoot\<close> creates the state directory and its subdirectory on first use. A failure
  can come before or after the directory was created.
\<close>

definition makeDir :: "mark_dir \<Rightarrow> mark_dir" where
  "makeDir d = (if dirExists d then d else \<lparr>dirExists = True, dirFiles = []\<rparr>)"

definition openStateRoot :: "write_fault \<Rightarrow> mark_dir \<Rightarrow> err \<times> mark_dir" where
  "openStateRoot f d =
     (if f = MkdirFails then (Some InternalError, d)
      else if f = OpenFails \<or> f = SubdirFails then (Some InternalError, makeDir d)
      else (None, makeDir d))"

definition putFile :: "mark_dir \<Rightarrow> string \<Rightarrow> file_content \<Rightarrow> mark_dir" where
  "putFile d name c = d\<lparr>dirFiles := AList.update name c (dirFiles d)\<rparr>"

definition renameFile :: "mark_dir \<Rightarrow> string \<Rightarrow> string \<Rightarrow> file_content \<Rightarrow> mark_dir" where
  "renameFile d src dst c =
     d\<lparr>dirFiles := AList.update dst c (AList.delete src (dirFiles d))\<rparr>"

definition syncStateDirs :: "write_fault \<Rightarrow> err" where
  "syncStateDirs f = (if f = SyncFails then Some InternalError else None)"

definition writeFencingMarkOutcome ::
    "write_fault \<Rightarrow> mark_dir \<Rightarrow> string \<Rightarrow> fencing_mark \<Rightarrow> (bool \<times> err) \<times> mark_dir" where
  "writeFencingMarkOutcome f d v mark =
     (let name = fencingFilename v; tmp = tmpName name in
      case openStateRoot f d of
        (Some e, d1) \<Rightarrow> ((False, Some e), d1)
      | (None, d1) \<Rightarrow>
          if f = TmpOpenFails then ((False, Some InternalError), d1)
          else if f = TmpWriteFails then ((False, Some InternalError), putFile d1 tmp NotAMark)
          else
            let d2 = putFile d1 tmp (MarkJSON mark) in
            if f = RenameFails then ((False, Some InternalError), d2)
            else ((True, syncStateDirs f), renameFile d2 tmp name (MarkJSON mark)))"

definition writeFencingMark ::
    "write_fault \<Rightarrow> mark_dir \<Rightarrow> string \<Rightarrow> fencing_mark \<Rightarrow> err \<times> mark_dir" where
  "writeFencingMark f d v mark =
     (case writeFencingMarkOutcome f d v mark of ((_, e), d') \<Rightarrow> (e, d'))"

definition persistFencingMark ::
    "write_fault \<Rightarrow> mark_dir \<Rightarrow> string \<Rightarrow> fencing_mark \<Rightarrow> bool \<Rightarrow> err \<times> mark_dir" where
  "persistFencingMark f d v next changed =
     (if changed then writeFencingMark f d v next
      else (case openStateRoot f d of
              (Some e, d1) \<Rightarrow> (Some e, d1)
            | (None, d1) \<Rightarrow> (syncStateDirs f, d1)))"

subsection \<open>Facts about the directory\<close>

lemma fileAt_makeDir [simp]: "fileAt (makeDir d) name = fileAt d name"
  by (simp add: makeDir_def fileAt_def)

lemma markAt_makeDir [simp]: "markAt (makeDir d) v = markAt d v"
  by (simp add: markAt_def)

lemma dirExists_makeDir [simp]: "dirExists (makeDir d)"
  by (simp add: makeDir_def)

lemma fileAt_putFile [simp]:
  "dirExists d \<Longrightarrow> fileAt (putFile d n c) name = (if name = n then Some c else fileAt d name)"
  by (simp add: putFile_def fileAt_def update_conv')

lemma dirExists_putFile [simp]: "dirExists (putFile d n c) = dirExists d"
  by (simp add: putFile_def)

lemma fileAt_renameFile:
  "dirExists d \<Longrightarrow> fileAt (renameFile d src dst c) name =
     (if name = dst then Some c else if name = src then None else fileAt d name)"
  by (simp add: renameFile_def fileAt_def update_conv' delete_conv')

lemma openStateRoot_markAt:
  "openStateRoot f d = (e, d') \<Longrightarrow> markAt d' v = markAt d v"
  by (auto simp: openStateRoot_def split: if_splits)

lemma openStateRoot_None:
  "openStateRoot f d = (None, d') \<Longrightarrow>
     d' = makeDir d \<and> f \<notin> {MkdirFails, OpenFails, SubdirFails}"
  by (auto simp: openStateRoot_def split: if_splits)

text \<open>
  A write replaces the mark of its own volume exactly when the rename happened, reports
  success only then, and leaves the mark of every other volume alone.
\<close>

lemma writeOutcome_frame:
  "writeFencingMarkOutcome f d v mark = ((r, e), d') \<Longrightarrow> u \<noteq> v \<Longrightarrow> markAt d' u = markAt d u"
  by (auto simp: writeFencingMarkOutcome_def Let_def markAt_def fileAt_renameFile
      dest: openStateRoot_None openStateRoot_markAt [where v = u]
      split: prod.splits option.splits if_splits)

lemma writeOutcome_mark:
  "writeFencingMarkOutcome f d v mark = ((r, e), d') \<Longrightarrow>
     markAt d' v = (if r then Some (MarkJSON mark) else markAt d v)"
  by (auto simp: writeFencingMarkOutcome_def Let_def markAt_def fileAt_renameFile
      dest: openStateRoot_None openStateRoot_markAt [where v = v]
      split: prod.splits option.splits if_splits)

lemma writeOutcome_success:
  "writeFencingMarkOutcome f d v mark = ((r, None), d') \<Longrightarrow> r"
  by (auto simp: writeFencingMarkOutcome_def Let_def split: prod.splits option.splits if_splits)

lemma writeOutcome_WriteOk:
  "fst (writeFencingMarkOutcome WriteOk d v mark) = (True, None)"
  by (simp add: writeFencingMarkOutcome_def openStateRoot_def syncStateDirs_def Let_def)

section \<open>The store interface\<close>

text \<open>
  What the fencing rules rely on: a successful read shows what is stored, a write replaces
  the mark of one volume atomically or leaves it, and touches no other volume.
\<close>

locale mark_store =
  fixes content :: "'d \<Rightarrow> string \<Rightarrow> file_content option"
    and load :: "'rf \<Rightarrow> 'd \<Rightarrow> string \<Rightarrow> (fencing_mark \<times> bool) result"
    and store :: "'wf \<Rightarrow> 'd \<Rightarrow> string \<Rightarrow> fencing_mark \<Rightarrow> (bool \<times> err) \<times> 'd"
  assumes read_absent: "load f d v = Inr (m, False) \<Longrightarrow> content d v = None \<and> m = zero_mark"
    and read_present:
      "load f d v = Inr (m, True) \<Longrightarrow> content d v = Some (MarkJSON m) \<and> mVolumeUID m \<noteq> []"
    and store_self: "store g d v m = ((r, e), d') \<Longrightarrow>
      content d' v = (if r then Some (MarkJSON m) else content d v)"
    and store_other: "store g d v m = ((r, e), d') \<Longrightarrow> u \<noteq> v \<Longrightarrow> content d' u = content d u"
    and store_success: "store g d v m = ((r, None), d') \<Longrightarrow> r"
begin

lemma read_after_write:
  assumes "store g d v m = ((r, None), d')" and "load f d' v = Inr (m', b)"
  shows "b \<and> m' = m"
proof -
  have c: "content d' v = Some (MarkJSON m)"
    using store_self [OF assms(1)] store_success [OF assms(1)] by simp
  show ?thesis
  proof (cases b)
    case True
    then show ?thesis using read_present [of f d' v m'] assms(2) c by simp
  next
    case False
    then show ?thesis using read_absent [of f d' v m'] assms(2) c by simp
  qed
qed

lemma read_after_store_other:
  assumes "store g d v m = ((r, e), d')" and "u \<noteq> v"
    and "load f d u = Inr x" and "load f' d' u = Inr y"
  shows "x = y"
proof -
  have "content d' u = content d u" using store_other [OF assms(1,2)] .
  moreover obtain m1 b1 where "x = (m1, b1)" by (cases x)
  moreover obtain m2 b2 where "y = (m2, b2)" by (cases y)
  ultimately show ?thesis
    using assms(3,4) read_absent [of f d u m1] read_present [of f d u m1]
      read_absent [of f' d' u m2] read_present [of f' d' u m2]
    by (cases b1; cases b2) auto
qed

lemma store_old_or_new:
  "store g d v m = ((r, e), d') \<Longrightarrow> content d' v \<in> {content d v, Some (MarkJSON m)}"
  by (simp add: store_self)

end

lemma readFencingMark_absent:
  "readFencingMark f d v = Inr (m, False) \<Longrightarrow> markAt d v = None \<and> m = zero_mark"
  by (auto simp: readFencingMark_def markAt_def fileAt_def
      split: if_splits option.splits file_content.splits)

lemma readFencingMark_present:
  "readFencingMark f d v = Inr (m, True) \<Longrightarrow>
     markAt d v = Some (MarkJSON m) \<and> mVolumeUID m \<noteq> []"
  by (auto simp: readFencingMark_def markAt_def
      split: if_splits option.splits file_content.splits)

interpretation marks: mark_store markAt readFencingMark writeFencingMarkOutcome
proof unfold_locales
qed (fact readFencingMark_absent readFencingMark_present writeOutcome_mark writeOutcome_frame
      writeOutcome_success)+

lemma readFencingMark_cases [consumes 1, case_names absent present]:
  assumes "readFencingMark f d v = Inr (m, b)"
  obtains "\<not> b" "markAt d v = None" "m = zero_mark"
    | "b" "markAt d v = Some (MarkJSON m)" "mVolumeUID m \<noteq> []"
  using assms readFencingMark_absent [of f d v m] readFencingMark_present [of f d v m]
  by (cases b) simp_all

lemma readFencingMark_ReadOk:
  "markAt d v = Some (MarkJSON m) \<Longrightarrow> mVolumeUID m \<noteq> [] \<Longrightarrow> readFencingMark ReadOk d v = Inr (m, True)"
  by (auto simp: readFencingMark_def markAt_def fileAt_def split: if_splits)

lemma readFencingMark_ReadOk_absent:
  "markAt d v = None \<Longrightarrow> readFencingMark ReadOk d v = Inr (zero_mark, False)"
  by (auto simp: readFencingMark_def markAt_def fileAt_def split: if_splits)

lemma writeFencingMark_success:
  "writeFencingMark f d v mark = (None, d') \<Longrightarrow> markAt d' v = Some (MarkJSON mark)"
  by (auto simp: writeFencingMark_def marks.store_self dest: marks.store_success
      split: prod.splits)

lemma writeFencingMark_mark:
  "writeFencingMark f d v mark = (e, d') \<Longrightarrow> markAt d' v \<in> {markAt d v, Some (MarkJSON mark)}"
  by (auto simp: writeFencingMark_def dest: marks.store_old_or_new split: prod.splits)

lemma writeFencingMark_frame:
  "writeFencingMark f d v mark = (e, d') \<Longrightarrow> u \<noteq> v \<Longrightarrow> markAt d' u = markAt d u"
  by (auto simp: writeFencingMark_def dest: marks.store_other split: prod.splits)

lemma persist_mark:
  "persistFencingMark f d v next changed = (e, d') \<Longrightarrow>
     markAt d' v \<in> {markAt d v, Some (MarkJSON next)} \<and>
     (\<not> changed \<longrightarrow> markAt d' v = markAt d v) \<and>
     (changed \<and> e = None \<longrightarrow> markAt d' v = Some (MarkJSON next))"
  by (cases changed)
    (auto simp: persistFencingMark_def openStateRoot_markAt writeFencingMark_success
      dest: writeFencingMark_mark split: prod.splits option.splits)

lemma persist_frame:
  "persistFencingMark f d v next changed = (e, d') \<Longrightarrow> u \<noteq> v \<Longrightarrow> markAt d' u = markAt d u"
  by (cases changed)
    (auto simp: persistFencingMark_def openStateRoot_markAt dest: writeFencingMark_frame
      split: prod.splits option.splits)

lemma persist_WriteOk: "fst (persistFencingMark WriteOk d v next changed) = None"
  using writeOutcome_WriteOk [of d v "next"]
  by (auto simp: persistFencingMark_def writeFencingMark_def openStateRoot_def syncStateDirs_def
      split: prod.splits)

section \<open>Properties\<close>

text \<open>
  C23: replacing a mark is atomic and isolated. Whichever step of the write fails, the volume has
  its old mark or the complete new one, never a partial file; success means the new one; and the
  mark of every other volume, whatever bytes its ID has, is untouched because the escaped file
  names never coincide with each other or with a temporary file.
\<close>

theorem mark_write_atomic:
  assumes "writeFencingMarkOutcome f d v m = ((renamed, e), d')"
  shows "markAt d' v = (if renamed then Some (MarkJSON m) else markAt d v) \<and> (e = None \<longrightarrow> renamed) \<and>
    (\<forall>u. u \<noteq> v \<longrightarrow> markAt d' u = markAt d u)"
  using marks.store_self [OF assms] marks.store_success [of f d v m renamed d'] marks.store_other [OF assms] assms
  by auto

theorem mark_write_atomic_witness:
  "markAt (snd (writeFencingMarkOutcome TmpWriteFails \<lparr>dirExists = True, dirFiles = []\<rparr> ''a/b'' zero_mark)) ''a.b'' =
     markAt \<lparr>dirExists = True, dirFiles = []\<rparr> ''a.b'' \<and>
   markAt (snd (writeFencingMarkOutcome TmpWriteFails \<lparr>dirExists = True, dirFiles = []\<rparr> ''a/b'' zero_mark)) ''a/b'' =
     markAt \<lparr>dirExists = True, dirFiles = []\<rparr> ''a/b''"
  using mark_write_atomic [of TmpWriteFails "\<lparr>dirExists = True, dirFiles = []\<rparr>" "''a/b''" zero_mark False
      "Some InternalError"]
  by (simp add: writeFencingMarkOutcome_def openStateRoot_def Let_def)

end
