(* ===== verification/Fence_Admission.thy ===== *)
theory Fence_Admission
  imports Fence_Mark
begin

text \<open>
  The admission rules of \<open>internal/agent/fencing.go\<close>: which fencing token may act on a volume
  whose stored mark is known, and the order in which marks grow. \<open>fence_le a b\<close> says that a
  mark \<open>b\<close> may follow \<open>a\<close>: no retired lifecycle is forgotten, a lifecycle's generation never
  decreases and its end is final, a lifecycle that lost the volume is retired, and an adopted
  LV stays pinned.
\<close>

section \<open>Tokens and operations\<close>

record fencing_token =
  tVolumeUid :: string
  tGeneration :: uint64

text \<open>The protobuf getters return the zero value for a nil token.\<close>

definition GetVolumeUid :: "fencing_token option \<Rightarrow> string" where
  "GetVolumeUid t = (case t of None \<Rightarrow> [] | Some x \<Rightarrow> tVolumeUid x)"

definition GetGeneration :: "fencing_token option \<Rightarrow> uint64" where
  "GetGeneration t = (case t of None \<Rightarrow> 0 | Some x \<Rightarrow> tGeneration x)"

lemma Get_simps [simp]:
  "GetVolumeUid None = []" "GetVolumeUid (Some t) = tVolumeUid t"
  "GetGeneration None = 0" "GetGeneration (Some t) = tGeneration t"
  by (simp_all add: GetVolumeUid_def GetGeneration_def)

datatype fence_op = fenceGrant | fenceRevoke | fenceDestroy

datatype fence_decision =
    FenceAdmitNewLifecycle | FenceAdmitAdvance | FenceAdmitSameGeneration
  | FenceAdmitTerminalRetry | FenceRejectMissingToken | FenceRejectRetired
  | FenceRejectOtherOwner | FenceRejectEnded | FenceRejectSuperseded

record fence_admission =
  admNext :: fencing_mark
  admChanged :: bool
  admDecision :: fence_decision

section \<open>Admission\<close>

text \<open>
  Every rejection has the status \<open>FailedPrecondition\<close>; the result keeps the decision that was
  recorded. The order of the cases is the order of the Go \<open>switch\<close>.
\<close>

definition admitFencingToken ::
    "fencing_token option \<Rightarrow> fence_op \<Rightarrow> fencing_mark \<Rightarrow> bool \<Rightarrow>
     (fence_decision \<times> grpc_code) + fence_admission" where
  "admitFencingToken token op stored exists =
     (let uid = GetVolumeUid token; gen = GetGeneration token in
      if uid = [] then Inl (FenceRejectMissingToken, FailedPrecondition)
      else if \<not> exists then
        Inr \<lparr>admNext = zero_mark\<lparr>mVolumeUID := uid, mGeneration := gen\<rparr>,
             admChanged = True, admDecision = FenceAdmitNewLifecycle\<rparr>
      else if uid \<in> set (mEndedUIDs stored) then Inl (FenceRejectRetired, FailedPrecondition)
      else if uid \<noteq> mVolumeUID stored then
        (if \<not> mEnded stored then Inl (FenceRejectOtherOwner, FailedPrecondition)
         else
           let retired = (if mVolumeUID stored \<in> set (mEndedUIDs stored) then mEndedUIDs stored
                          else mEndedUIDs stored @ [mVolumeUID stored]) in
           Inr \<lparr>admNext = zero_mark\<lparr>mVolumeUID := uid, mGeneration := gen,
                  mEndedUIDs := retired, mLVMSource := mLVMSource stored,
                  mPreserveOriginal := mPreserveOriginal stored\<rparr>,
                admChanged = True, admDecision = FenceAdmitNewLifecycle\<rparr>)
      else if mEnded stored then
        (if op = fenceGrant \<or> gen \<noteq> mGeneration stored
         then Inl (FenceRejectEnded, FailedPrecondition)
         else Inr \<lparr>admNext = stored, admChanged = False, admDecision = FenceAdmitTerminalRetry\<rparr>)
      else if gen < mGeneration stored then Inl (FenceRejectSuperseded, FailedPrecondition)
      else if gen = mGeneration stored then
        Inr \<lparr>admNext = stored, admChanged = False, admDecision = FenceAdmitSameGeneration\<rparr>
      else Inr \<lparr>admNext = stored\<lparr>mGeneration := gen\<rparr>, admChanged = True,
                admDecision = FenceAdmitAdvance\<rparr>)"

section \<open>The order of marks\<close>

definition fence_le :: "fencing_mark \<Rightarrow> fencing_mark \<Rightarrow> bool" where
  "fence_le a b \<longleftrightarrow>
     set (mEndedUIDs a) \<subseteq> set (mEndedUIDs b) \<and>
     (mVolumeUID b = mVolumeUID a \<longrightarrow>
        mGeneration a \<le> mGeneration b \<and> (mEnded a \<longrightarrow> mEnded b)) \<and>
     (mVolumeUID b \<noteq> mVolumeUID a \<longrightarrow>
        mVolumeUID a \<in> set (mEndedUIDs b) \<and> mVolumeUID b \<notin> set (mEndedUIDs a)) \<and>
     (mLVMSource a \<noteq> None \<longrightarrow> mLVMSource b = mLVMSource a) \<and>
     (mPreserveOriginal a \<longrightarrow> mPreserveOriginal b)"

lemma fence_leI [intro?]:
  assumes "set (mEndedUIDs a) \<subseteq> set (mEndedUIDs b)"
    and "mVolumeUID b = mVolumeUID a \<Longrightarrow> mGeneration a \<le> mGeneration b \<and> (mEnded a \<longrightarrow> mEnded b)"
    and "mVolumeUID b \<noteq> mVolumeUID a \<Longrightarrow>
      mVolumeUID a \<in> set (mEndedUIDs b) \<and> mVolumeUID b \<notin> set (mEndedUIDs a)"
    and "mLVMSource a \<noteq> None \<Longrightarrow> mLVMSource b = mLVMSource a"
    and "mPreserveOriginal a \<Longrightarrow> mPreserveOriginal b"
  shows "fence_le a b"
  using assms by (simp add: fence_le_def)

lemma fence_le_refl [simp, intro]: "fence_le a a"
  by (simp add: fence_le_def)

lemma fence_le_trans [trans]:
  assumes ab: "fence_le a b" and bc: "fence_le b c"
  shows "fence_le a c"
proof
  show "set (mEndedUIDs a) \<subseteq> set (mEndedUIDs c)"
    using ab bc by (auto simp: fence_le_def)
next
  assume ca: "mVolumeUID c = mVolumeUID a"
  show "mGeneration a \<le> mGeneration c \<and> (mEnded a \<longrightarrow> mEnded c)"
  proof (cases "mVolumeUID b = mVolumeUID a")
    case True
    then show ?thesis using ab bc ca by (auto simp: fence_le_def)
  next
    case False
    \<comment> \<open>the first lifecycle was retired on the way, so it cannot own the volume again\<close>
    then have "mVolumeUID a \<in> set (mEndedUIDs b)" using ab by (simp add: fence_le_def)
    then show ?thesis using bc ca False by (auto simp: fence_le_def)
  qed
next
  assume "mVolumeUID c \<noteq> mVolumeUID a"
  then show "mVolumeUID a \<in> set (mEndedUIDs c) \<and> mVolumeUID c \<notin> set (mEndedUIDs a)"
    using ab bc
    by (cases "mVolumeUID b = mVolumeUID a"; cases "mVolumeUID c = mVolumeUID b")
      (auto simp: fence_le_def)
next
  show "mLVMSource c = mLVMSource a" if "mLVMSource a \<noteq> None"
    using ab bc that unfolding fence_le_def by simp
  show "mPreserveOriginal c" if "mPreserveOriginal a"
    using ab bc that unfolding fence_le_def by simp
qed

text \<open>The mark fields that decide admission; \<open>fence_le\<close> looks at nothing else.\<close>

lemma fence_le_cong:
  assumes "mVolumeUID b' = mVolumeUID b" "mGeneration b' = mGeneration b"
    "mEnded b' = mEnded b" "mEndedUIDs b' = mEndedUIDs b" "mLVMSource b' = mLVMSource b"
    "mPreserveOriginal b' = mPreserveOriginal b"
  shows "fence_le a b' = fence_le a b"
  using assms by (simp add: fence_le_def)

section \<open>What admission promises\<close>

lemma admit_next_le:
  "admitFencingToken token op stored True = Inr adm \<Longrightarrow> fence_le stored (admNext adm)"
  by (auto simp: admitFencingToken_def Let_def fence_le_def split: if_splits)

lemma admit_next_token:
  "admitFencingToken token op stored exists = Inr adm \<Longrightarrow>
     mVolumeUID (admNext adm) = GetVolumeUid token \<and>
     mGeneration (admNext adm) = GetGeneration token \<and> GetVolumeUid token \<noteq> []"
  by (auto simp: admitFencingToken_def Let_def split: if_splits)

lemma admit_unchanged:
  "admitFencingToken token op stored exists = Inr adm \<Longrightarrow> \<not> admChanged adm \<Longrightarrow>
     exists \<and> admNext adm = stored"
  by (auto simp: admitFencingToken_def Let_def split: if_splits)

lemma admit_terminal:
  "admitFencingToken token op stored exists = Inr adm \<Longrightarrow>
     (admDecision adm = FenceAdmitTerminalRetry) = (exists \<and> mEnded stored \<and>
        GetVolumeUid token = mVolumeUID stored)"
  by (auto simp: admitFencingToken_def Let_def split: if_splits)

lemma admit_not_retired:
  "admitFencingToken token op stored True = Inr adm \<Longrightarrow> GetVolumeUid token \<notin> set (mEndedUIDs stored)"
  by (auto simp: admitFencingToken_def Let_def split: if_splits)

lemma admit_not_ended:
  "admitFencingToken token op stored exists = Inr adm \<Longrightarrow>
     mEnded (admNext adm) = (admDecision adm = FenceAdmitTerminalRetry)"
  by (auto simp: admitFencingToken_def Let_def split: if_splits)

lemma admit_reject_code:
  "admitFencingToken token op stored exists = Inl (d, e) \<Longrightarrow> e = FailedPrecondition"
  by (auto simp: admitFencingToken_def Let_def split: if_splits)

lemma admit_pin:
  "admitFencingToken token op stored True = Inr adm \<Longrightarrow>
     mLVMSource (admNext adm) = mLVMSource stored \<and>
     mPreserveOriginal (admNext adm) = mPreserveOriginal stored"
  by (auto simp: admitFencingToken_def Let_def split: if_splits)

text \<open>
  A token that was admitted is admitted again for the same kind of operation on the mark that
  the admission left, and changes nothing: a lost response can be retried.
\<close>

lemma admit_next_not_retired:
  "admitFencingToken token op stored exists = Inr adm \<Longrightarrow>
     GetVolumeUid token \<notin> set (mEndedUIDs (admNext adm))"
  by (auto simp: admitFencingToken_def Let_def split: if_splits)

lemma admit_terminal_op:
  "admitFencingToken token op stored exists = Inr adm \<Longrightarrow>
     admDecision adm = FenceAdmitTerminalRetry \<Longrightarrow> op \<noteq> fenceGrant"
  by (auto simp: admitFencingToken_def Let_def split: if_splits)

lemma admit_same_token:
  assumes "GetVolumeUid token \<noteq> []" "GetVolumeUid token \<notin> set (mEndedUIDs stored)"
    "mVolumeUID stored = GetVolumeUid token" "mGeneration stored = GetGeneration token"
    "mEnded stored \<longrightarrow> op \<noteq> fenceGrant"
  shows "\<exists>d. admitFencingToken token op stored True =
    Inr \<lparr>admNext = stored, admChanged = False, admDecision = d\<rparr>"
  using assms by (cases "mEnded stored") (simp_all add: admitFencingToken_def Let_def)

lemma admit_idem:
  assumes adm: "admitFencingToken token op stored exists = Inr adm"
  shows "\<exists>adm'. admitFencingToken token op (admNext adm) True = Inr adm' \<and>
    admNext adm' = admNext adm \<and> \<not> admChanged adm'"
proof -
  have "\<exists>d. admitFencingToken token op (admNext adm) True =
    Inr \<lparr>admNext = admNext adm, admChanged = False, admDecision = d\<rparr>"
    using admit_next_token [OF adm] admit_next_not_retired [OF adm] admit_not_ended [OF adm]
      admit_terminal_op [OF adm]
    by (intro admit_same_token) simp_all
  then show ?thesis by fastforce
qed

text \<open>A token older than the mark is refused, whatever it wants to do.\<close>

lemma admit_superseded:
  assumes "GetVolumeUid token = mVolumeUID stored" and "GetGeneration token < mGeneration stored"
  shows "\<exists>d. admitFencingToken token op stored True = Inl (d, FailedPrecondition)"
  using assms by (auto simp: admitFencingToken_def Let_def)

lemma admit_retired:
  assumes "GetVolumeUid token \<in> set (mEndedUIDs stored)"
  shows "\<exists>d. admitFencingToken token op stored True = Inl (d, FailedPrecondition)"
  using assms by (auto simp: admitFencingToken_def Let_def)

lemma admit_other_owner:
  assumes "GetVolumeUid token \<noteq> mVolumeUID stored" and "\<not> mEnded stored"
  shows "\<exists>d. admitFencingToken token op stored True = Inl (d, FailedPrecondition)"
  using assms by (auto simp: admitFencingToken_def Let_def)

lemma admit_ended_grant:
  assumes "GetVolumeUid token = mVolumeUID stored" and "mEnded stored"
  shows "\<exists>d. admitFencingToken token fenceGrant stored True = Inl (d, FailedPrecondition)"
  using assms by (auto simp: admitFencingToken_def Let_def)

text \<open>
  The rejections are stable: a token rejected because a newer mark exists stays rejected for
  every mark that can follow.
\<close>

lemma admit_stale_stable:
  assumes "fence_le stored later"
    and "GetVolumeUid token \<in> set (mEndedUIDs stored) \<or>
      GetVolumeUid token = mVolumeUID stored \<and> GetGeneration token < mGeneration stored"
  shows "\<exists>d. admitFencingToken token op later True = Inl (d, FailedPrecondition)"
proof (cases "GetVolumeUid token \<in> set (mEndedUIDs later)")
  case True
  then show ?thesis by (rule admit_retired)
next
  case False
  then have "GetVolumeUid token = mVolumeUID stored" "GetGeneration token < mGeneration stored"
    "mVolumeUID later = mVolumeUID stored"
    using assms by (auto simp: fence_le_def)
  moreover have "mGeneration stored \<le> mGeneration later"
    using assms(1) \<open>mVolumeUID later = mVolumeUID stored\<close> by (simp add: fence_le_def)
  ultimately show ?thesis
    by (intro admit_superseded) auto
qed

end
