(* ===== verification/Sha256.thy ===== *)
theory Sha256
  imports Prelude
begin

text \<open>
  SHA-256 (FIPS 180-4), the digest of Go's \<open>crypto/sha256\<close>. The agent derives the fencing key
  of an adopted filesystem from it (\<open>backend.FilesystemFenceID\<close>) and both sides of a recovery
  name the signed payloads by it (\<open>internal/recoveryauth\<close>). The definition is executable; the
  development relies on the length of the digest only, and states collision freedom where a
  property needs it.
\<close>

unbundle bit_operations_syntax

type_synonym u32 = "32 word"

text \<open>
  The constants of the standard are the first 32 fractional bits of the square roots of the first
  eight primes (initial state) and of the cube roots of the first 64 primes (rounds). \<open>rootBits\<close>
  computes an integer root bit by bit, from the highest bit down.
\<close>

fun rootBits :: "nat \<Rightarrow> int \<Rightarrow> nat \<Rightarrow> int \<Rightarrow> int" where
  "rootBits k n 0 r = r"
| "rootBits k n (Suc b) r =
     rootBits k n b (if (r + 2 ^ b) ^ k \<le> n then r + 2 ^ b else r)"

definition fractionalRoot :: "nat \<Rightarrow> int \<Rightarrow> u32" where
  "fractionalRoot k p = word_of_int (rootBits k (p * 2 ^ (32 * k)) 37 0)"

definition firstPrimes :: "int list" where
  "firstPrimes = [2, 3, 5, 7, 11, 13, 17, 19, 23, 29, 31, 37, 41, 43, 47, 53, 59, 61, 67, 71,
     73, 79, 83, 89, 97, 101, 103, 107, 109, 113, 127, 131, 137, 139, 149, 151, 157, 163, 167,
     173, 179, 181, 191, 193, 197, 199, 211, 223, 227, 229, 233, 239, 241, 251, 257, 263, 269,
     271, 277, 281, 283, 293, 307, 311]"

definition sha256_K :: "u32 list" where
  "sha256_K = map (fractionalRoot 3) firstPrimes"

definition sha256_H0 :: "u32 list" where
  "sha256_H0 = map (fractionalRoot 2) (take 8 firstPrimes)"

definition Ch :: "u32 \<Rightarrow> u32 \<Rightarrow> u32 \<Rightarrow> u32" where
  "Ch x y z = (x AND y) XOR (NOT x AND z)"

definition Maj :: "u32 \<Rightarrow> u32 \<Rightarrow> u32 \<Rightarrow> u32" where
  "Maj x y z = (x AND y) XOR (x AND z) XOR (y AND z)"

definition bigSigma0 :: "u32 \<Rightarrow> u32" where
  "bigSigma0 x = word_rotr 2 x XOR word_rotr 13 x XOR word_rotr 22 x"

definition bigSigma1 :: "u32 \<Rightarrow> u32" where
  "bigSigma1 x = word_rotr 6 x XOR word_rotr 11 x XOR word_rotr 25 x"

definition sigma0 :: "u32 \<Rightarrow> u32" where
  "sigma0 x = word_rotr 7 x XOR word_rotr 18 x XOR drop_bit 3 x"

definition sigma1 :: "u32 \<Rightarrow> u32" where
  "sigma1 x = word_rotr 17 x XOR word_rotr 19 x XOR drop_bit 10 x"

text \<open>Big-endian numbers: \<open>n\<close> bytes of a value, and a word from four bytes.\<close>

fun beBytes :: "nat \<Rightarrow> 'a::len word \<Rightarrow> nat list" where
  "beBytes 0 x = []"
| "beBytes (Suc n) x = beBytes n (drop_bit 8 x) @ [unat (x AND 255)]"

definition beWord :: "nat list \<Rightarrow> u32" where
  "beWord bs = foldl (\<lambda>a b. push_bit 8 a OR of_nat b) 0 bs"

definition sha256_pad :: "nat list \<Rightarrow> nat list" where
  "sha256_pad bs = bs @ [128] @ replicate ((119 - length bs mod 64) mod 64) 0
     @ beBytes 8 (of_nat (8 * length bs) :: 64 word)"

fun chunks :: "nat \<Rightarrow> nat \<Rightarrow> 'a list \<Rightarrow> 'a list list" where
  "chunks 0 k xs = []"
| "chunks (Suc n) k xs = take k xs # chunks n k (drop k xs)"

definition sha256_schedule :: "nat list \<Rightarrow> u32 list" where
  "sha256_schedule block = fold (\<lambda>t w.
       w @ [sigma1 (w ! (t - 2)) + w ! (t - 7) + sigma0 (w ! (t - 15)) + w ! (t - 16)])
     [16..<64] (map beWord (chunks 16 4 block))"

fun sha256_round :: "u32 \<times> u32 \<Rightarrow> u32 list \<Rightarrow> u32 list" where
  "sha256_round (k, w) [a, b, c, d, e, f, g, h] =
     (let t1 = h + bigSigma1 e + Ch e f g + k + w; t2 = bigSigma0 a + Maj a b c
      in [t1 + t2, a, b, c, d + t1, e, f, g])"
| "sha256_round _ s = s"

definition sha256_block :: "nat list \<Rightarrow> u32 list \<Rightarrow> u32 list" where
  "sha256_block block s =
     map2 (+) s (fold sha256_round (zip sha256_K (sha256_schedule block)) s)"

definition sha256_words :: "nat list \<Rightarrow> u32 list" where
  "sha256_words bs =
     (let p = sha256_pad bs in fold sha256_block (chunks (length p div 64) 64 p) sha256_H0)"

text \<open>\<open>sha256.Sum256\<close> on a byte string.\<close>

definition sha256 :: "string \<Rightarrow> string" where
  "sha256 s = map char_of (concat (map (\<lambda>w. beBytes 4 w) (sha256_words (map of_char s))))"

definition sha256_Size :: nat where
  "sha256_Size = 32"

lemma length_beBytes [simp]: "length (beBytes n x) = n"
  by (induction n arbitrary: x) simp_all

lemma length_sha256_round [simp]: "length (sha256_round kw s) = length s"
  by (cases "(kw, s)" rule: sha256_round.cases) (simp_all add: Let_def)

lemma length_fold_round [simp]: "length (fold sha256_round kws s) = length s"
  by (induction kws arbitrary: s) simp_all

lemma length_sha256_block [simp]: "length (sha256_block b s) = length s"
  by (simp add: sha256_block_def)

lemma length_fold_block [simp]: "length (fold sha256_block bs s) = length s"
  by (induction bs arbitrary: s) simp_all

lemma length_sha256 [simp]: "length (sha256 s) = sha256_Size"
proof -
  have "length (sha256_words bs) = 8" for bs
    by (simp add: sha256_words_def Let_def sha256_H0_def firstPrimes_def)
  then show ?thesis
    by (simp add: sha256_def sha256_Size_def length_concat comp_def sum_list_triv)
qed

end
