(* ===== verification/Filesystem_Identity.thy ===== *)
theory Filesystem_Identity
  imports Fence_Mark Sha256
begin

text \<open>
  The native identity of an adopted filesystem and the guards that keep a managed ZFS volume
  and an adopted filesystem from owning the same dataset: \<open>FilesystemFenceID\<close> of
  \<open>internal/agent/backend/backend.go\<close>, the descriptor checks of
  \<open>internal/agent/server_filesystem.go\<close>, and \<open>filesystem_legacy.go\<close> and
  \<open>filesystem_legacy_owner.go\<close> of the agent.
\<close>

section \<open>The fencing key of an adopted filesystem\<close>

definition filesystemAdoptionKindDirectory :: string where
  "filesystemAdoptionKindDirectory = ''directory''"

definition filesystemAdoptionKindZFSDataset :: string where
  "filesystemAdoptionKindZFSDataset = ''zfs-dataset''"

text \<open>The protobuf getters of a nil descriptor return zero values.\<close>

definition zero_adoption :: filesystem_adoption where
  "zero_adoption = \<lparr>faKind = [], faCanonicalSource = [], faResourceId = [], faHostPath = [],
     faFilesystemType = [], faFilesystemId = [], faInode = 0, faProjectId = 0\<rparr>"

definition FilesystemMountSource :: "filesystem_adoption \<Rightarrow> string" where
  "FilesystemMountSource a =
     (if faKind a = ''directory'' then faCanonicalSource a
      else if faKind a = ''zfs-dataset'' then faHostPath a else [])"

definition fenceDigestInput :: "filesystem_adoption \<Rightarrow> string" where
  "fenceDigestInput a = faKind a @ [char_of (0::nat)] @ faResourceId a"

definition FilesystemFenceID :: "filesystem_adoption \<Rightarrow> string" where
  "FilesystemFenceID a =
     (if faKind a \<noteq> ''directory'' \<and> faKind a \<noteq> ''zfs-dataset'' \<or> faResourceId a = [] then []
      else ''filesystem/'' @ hexEncode (sha256 (fenceDigestInput a)))"

definition validDirectoryAdoption :: "filesystem_adoption \<Rightarrow> bool" where
  "validDirectoryAdoption a \<longleftrightarrow>
     isAbs (faCanonicalSource a) \<and> pathClean (faCanonicalSource a) = faCanonicalSource a \<and>
     faFilesystemId a \<noteq> [] \<and> faInode a \<noteq> 0 \<and> faProjectId a \<noteq> 0 \<and>
     (faFilesystemType a = ''ext4'' \<or> faFilesystemType a = ''xfs'')"

definition validZFSDatasetAdoption :: "filesystem_adoption \<Rightarrow> bool" where
  "validZFSDatasetAdoption a \<longleftrightarrow>
     faFilesystemType a = ''zfs'' \<and>
     (faHostPath a = [] \<or> isAbs (faHostPath a) \<and> pathClean (faHostPath a) = faHostPath a)"

definition filesystemFenceKey :: "filesystem_adoption \<Rightarrow> string result" where
  "filesystemFenceKey a =
     (let key = FilesystemFenceID a in
      if key = [] \<or> faCanonicalSource a = [] then Inl InvalidArgument
      else if faKind a = filesystemAdoptionKindDirectory then
        (if validDirectoryAdoption a then Inr key else Inl InvalidArgument)
      else if faKind a = filesystemAdoptionKindZFSDataset then
        (if validZFSDatasetAdoption a then Inr key else Inl InvalidArgument)
      else Inl InvalidArgument)"

definition filesystemBackendType :: "filesystem_adoption \<Rightarrow> backend_type" where
  "filesystemBackendType a =
     (if faKind a = filesystemAdoptionKindDirectory then BackendDirectory else BackendZfsDataset)"

definition requireFilesystemLayout :: "backend_type \<Rightarrow> layout \<Rightarrow> err" where
  "requireFilesystemLayout t l =
     (if t = BackendDirectory \<and> HostRoot l = [] then Some InvalidArgument else None)"

section \<open>Managed datasets and adopted owners\<close>

text \<open>
  \<open>legacyFilesystemVolumeID\<close>: the volume ID a managed dataset of the same name would have;
  the empty string for a directory.
\<close>

definition legacyFilesystemVolumeID :: "filesystem_adoption \<Rightarrow> string result" where
  "legacyFilesystemVolumeID a =
     (if faKind a \<noteq> filesystemAdoptionKindZFSDataset then Inr []
      else
        let source = faCanonicalSource a; parts = splitOn (CHR ''/'') source in
        if length parts < 2 \<or> hd parts = [] \<or> pathClean source \<noteq> source \<or> isAbs source
        then Inl InvalidArgument
        else Inr (hd parts @ ''/'' @ last parts))"

definition checkLegacyFilesystemOwner ::
    "read_fault \<Rightarrow> mark_dir \<Rightarrow> filesystem_adoption \<Rightarrow> err" where
  "checkLegacyFilesystemOwner f d a =
     (case legacyFilesystemVolumeID a of
        Inl e \<Rightarrow> Some e
      | Inr v \<Rightarrow>
         if v = [] then None
         else (case readFencingMark f d v of
                 Inl e \<Rightarrow> Some e
               | Inr (mark, exists) \<Rightarrow>
                   if exists \<and> \<not> mEnded mark \<and> mFilesystem mark = None \<and>
                      \<not> mLegacyRevokeOnly mark
                   then Some FailedPrecondition else None))"

text \<open>
  The scan of every mark file for an active adopted dataset. Its faults: opening the state
  directory or the marks, listing them, the context's error seen at the \<open>i\<close>-th entry, reading
  the \<open>i\<close>-th entry, and closing the directory.
\<close>

record scan_faults =
  sfOpen :: bool
  sfReadDir :: bool
  sfContext :: "nat \<Rightarrow> err"
  sfReadFile :: "nat \<Rightarrow> bool"
  sfClose :: bool

definition scanOk :: scan_faults where
  "scanOk = \<lparr>sfOpen = False, sfReadDir = False, sfContext = (\<lambda>_. None),
     sfReadFile = (\<lambda>_. False), sfClose = False\<rparr>"

definition activeZFSFilesystemOwnerMark ::
    "bool \<Rightarrow> mark_dir \<Rightarrow> string \<Rightarrow> bool result" where
  "activeZFSFilesystemOwnerMark fails d filename =
     (if fails then Inl InternalError
      else (case fileAt d filename of
        None \<Rightarrow> Inl InternalError
      | Some NotAMark \<Rightarrow> Inl InternalError
      | Some (MarkJSON mark) \<Rightarrow>
          if mVolumeUID mark = [] then Inl InternalError
          else (case mFilesystem mark of
            None \<Rightarrow> Inr False
          | Some fs \<Rightarrow>
              if mEnded mark \<or> faKind fs \<noteq> filesystemAdoptionKindZFSDataset then Inr False
              else (case filesystemFenceKey fs of
                Inl _ \<Rightarrow> Inl InternalError
              | Inr key \<Rightarrow>
                  if fencingFilename key \<noteq> filename then Inl InternalError else Inr True))))"

definition ownerMarkName :: "string \<Rightarrow> bool" where
  "ownerMarkName name \<longleftrightarrow>
     prefix (concat (map escapeByte ''filesystem/'')) name \<and> suffix fencingSuffix name"

fun scanOwners :: "scan_faults \<Rightarrow> mark_dir \<Rightarrow> nat \<Rightarrow> string list \<Rightarrow> bool result" where
  "scanOwners f d i [] = Inr False"
| "scanOwners f d i (name # names) =
     (case sfContext f i of
        Some e \<Rightarrow> Inl e
      | None \<Rightarrow>
          if \<not> ownerMarkName name then scanOwners f d (Suc i) names
          else (case activeZFSFilesystemOwnerMark (sfReadFile f i) d name of
                  Inr False \<Rightarrow> scanOwners f d (Suc i) names
                | r \<Rightarrow> r))"

definition hasActiveZFSFilesystemOwner :: "scan_faults \<Rightarrow> mark_dir \<Rightarrow> bool result" where
  "hasActiveZFSFilesystemOwner f d =
     (if sfOpen f then Inl InternalError
      else if \<not> dirExists d then Inr False
      else
        let r = (if sfReadDir f then Inl InternalError
                 else scanOwners f d 0 (map fst (dirFiles d)))
        in if sfClose f then Inl InternalError else r)"

definition guardLegacyFilesystem ::
    "scan_faults \<Rightarrow> read_fault \<Rightarrow> mark_dir \<Rightarrow> 'w \<Rightarrow> 'w backend option \<Rightarrow> string \<Rightarrow> err" where
  "guardLegacyFilesystem sf f d w b v =
     (case b of
        None \<Rightarrow> None
      | Some b \<Rightarrow>
         let inspect = (case bExistingFilesystem b of
               None \<Rightarrow> Some Unimplemented
             | Some inspector \<Rightarrow>
                (case inspector w v of
                   Inl e \<Rightarrow> Some (importVolumeError e)
                 | Inr None \<Rightarrow> None
                 | Inr (Some identity) \<Rightarrow>
                    (case filesystemFenceKey identity of
                       Inl e \<Rightarrow> Some e
                     | Inr key \<Rightarrow>
                        (case readFencingMark f d key of
                           Inl e \<Rightarrow> Some e
                         | Inr (mark, exists) \<Rightarrow>
                             if exists \<and> \<not> mEnded mark \<and> mFilesystem mark \<noteq> None
                             then Some FailedPrecondition else None))))
         in if bType b = BackendZfsDataset then inspect
            else if bType b = BackendZfsZvol then
              (case hasActiveZFSFilesystemOwner sf d of
                 Inl e \<Rightarrow> Some e
               | Inr active \<Rightarrow> if active then inspect else None)
            else None)"

section \<open>Facts\<close>

lemma fenceDigestInput_inject:
  assumes "faKind a \<in> {''directory'', ''zfs-dataset''}" "faKind b \<in> {''directory'', ''zfs-dataset''}"
    and "fenceDigestInput a = fenceDigestInput b"
  shows "faKind a = faKind b \<and> faResourceId a = faResourceId b"
  using assms by (auto simp: fenceDigestInput_def)

lemma FilesystemFenceID_length:
  "FilesystemFenceID a \<noteq> [] \<Longrightarrow> length (FilesystemFenceID a) = 75"
  by (auto simp: FilesystemFenceID_def sha256_Size_def split: if_splits)

lemma filesystemFenceKey_Inr:
  assumes "filesystemFenceKey a = Inr key"
  shows "key = FilesystemFenceID a \<and> key \<noteq> [] \<and>
    faKind a \<in> {filesystemAdoptionKindDirectory, filesystemAdoptionKindZFSDataset}"
  using assms by (auto simp: filesystemFenceKey_def Let_def split: if_splits)

lemma ownerMarkName_key:
  assumes "filesystemFenceKey a = Inr key"
  shows "ownerMarkName (fencingFilename key)"
proof -
  from filesystemFenceKey_Inr [OF assms]
  have "key = ''filesystem/'' @ hexEncode (sha256 (fenceDigestInput a))"
    by (auto simp: FilesystemFenceID_def split: if_splits)
  then have "fencingFilename key = concat (map escapeByte ''filesystem/'') @
      (concat (map escapeByte (hexEncode (sha256 (fenceDigestInput a)))) @ fencingSuffix)"
    by (simp add: fencingFilename_def del: hexEncode_simps)
  then show ?thesis
    unfolding ownerMarkName_def
    by (metis append.assoc prefixI suffixI)
qed

text \<open>The scan fails closed: an active adopted dataset that is stored is never overlooked.\<close>

lemma scanOwners_finds:
  assumes "name \<in> set names" "ownerMarkName name" "fileAt d name = Some (MarkJSON m)"
    and "\<not> mEnded m" "mFilesystem m = Some fs"
    and "faKind fs = filesystemAdoptionKindZFSDataset"
  shows "scanOwners f d i names \<noteq> Inr False"
  using assms(1)
proof (induction names arbitrary: i)
  case (Cons n names)
  have hit: "activeZFSFilesystemOwnerMark b d name \<noteq> Inr False" for b
    using assms(3-6)
    by (auto simp: activeZFSFilesystemOwnerMark_def split: sum.splits if_splits)
  show ?case
  proof (cases "n = name")
    case True
    then show ?thesis
      using hit assms(2) by (auto split: option.splits sum.splits bool.splits)
  next
    case False
    then have "scanOwners f d j names \<noteq> Inr False" for j using Cons by simp
    then show ?thesis by (auto split: option.splits sum.splits bool.splits)
  qed
qed simp

lemma hasActiveZFSFilesystemOwner_finds:
  assumes "markAt d key = Some (MarkJSON m)" "filesystemFenceKey fs = Inr key"
    and "\<not> mEnded m" "mFilesystem m = Some fs"
    and "faKind fs = filesystemAdoptionKindZFSDataset"
  shows "hasActiveZFSFilesystemOwner f d \<noteq> Inr False"
proof -
  have f: "fileAt d (fencingFilename key) = Some (MarkJSON m)"
    using assms(1) by (simp add: markAt_def)
  then have e: "dirExists d" and "fencingFilename key \<in> set (map fst (dirFiles d))"
    by (auto simp: fileAt_def dest: map_of_SomeD split: if_splits intro: rev_image_eqI)
  then have "scanOwners f d 0 (map fst (dirFiles d)) \<noteq> Inr False"
    using scanOwners_finds [OF _ ownerMarkName_key [OF assms(2)] f assms(3-5)] by simp
  then show ?thesis using e by (auto simp: hasActiveZFSFilesystemOwner_def Let_def)
qed

text \<open>
  The guard admits no operation of a ZFS backend whose native identity an active adopted
  lifecycle owns.
\<close>

lemma guardLegacyFilesystem_refuses:
  assumes "bType b \<in> {BackendZfsDataset, BackendZfsZvol}"
    and "bExistingFilesystem b = Some inspector" "inspector w v = Inr (Some identity)"
    and "faKind identity = filesystemAdoptionKindZFSDataset"
    and "filesystemFenceKey identity = Inr key"
    and "markAt d key = Some (MarkJSON m)" "\<not> mEnded m" "mFilesystem m = Some fs"
    and "faKind fs = filesystemAdoptionKindZFSDataset" "filesystemFenceKey fs = Inr key"
  shows "guardLegacyFilesystem sf f d w (Some b) v \<noteq> None"
proof -
  have "(readFencingMark f d key = Inr (m, True)) \<or> (\<exists>e. readFencingMark f d key = Inl e)"
    using assms(6) by (auto simp: readFencingMark_def markAt_def fileAt_def split: if_splits)
  then show ?thesis
    using assms hasActiveZFSFilesystemOwner_finds [OF assms(6,10) assms(7,8,9), of sf]
    by (auto simp: guardLegacyFilesystem_def Let_def split: sum.splits)
qed

section \<open>Properties\<close>

text \<open>
  C35: the fencing key of an adopted filesystem identifies it by kind and native resource ID alone:
  two descriptors have the same key exactly if both agree, unless SHA-256 collides on the two. A
  renamed or remounted filesystem keeps its key, and a key is always usable as a mark name that
  the owner scan finds.
\<close>

theorem fence_key_identifies_filesystem:
  assumes "filesystemFenceKey a = Inr k" "filesystemFenceKey b = Inr l"
    and "sha256 (fenceDigestInput a) = sha256 (fenceDigestInput b) \<Longrightarrow> fenceDigestInput a = fenceDigestInput b"
  shows "(k = l \<longleftrightarrow> faKind a = faKind b \<and> faResourceId a = faResourceId b) \<and> length k = 75 \<and>
    ownerMarkName (fencingFilename k)"
proof -
  have kl: "k = FilesystemFenceID a" "k \<noteq> []" "l = FilesystemFenceID b" "l \<noteq> []"
    using filesystemFenceKey_Inr [OF assms(1)] filesystemFenceKey_Inr [OF assms(2)] by blast+
  then have kinds: "faKind a \<in> {''directory'', ''zfs-dataset''}" "faKind b \<in> {''directory'', ''zfs-dataset''}"
    by (auto simp: FilesystemFenceID_def split: if_splits)
  have "k = l \<longleftrightarrow> sha256 (fenceDigestInput a) = sha256 (fenceDigestInput b)"
    using kl by (auto simp: FilesystemFenceID_def split: if_splits)
  also have "\<dots> \<longleftrightarrow> fenceDigestInput a = fenceDigestInput b" using assms(3) by auto
  also have "\<dots> \<longleftrightarrow> faKind a = faKind b \<and> faResourceId a = faResourceId b"
    using fenceDigestInput_inject [OF kinds] by (auto simp: fenceDigestInput_def)
  finally show ?thesis using FilesystemFenceID_length kl ownerMarkName_key [OF assms(1)] by simp
qed

definition exDataset :: "string \<Rightarrow> filesystem_adoption" where
  "exDataset path = \<lparr>faKind = ''zfs-dataset'', faCanonicalSource = path, faResourceId = ''guid-7'',
     faHostPath = [], faFilesystemType = ''zfs'', faFilesystemId = [], faInode = 0, faProjectId = 0\<rparr>"

lemma exDataset_key: "path \<noteq> [] \<Longrightarrow> filesystemFenceKey (exDataset path) = Inr (FilesystemFenceID (exDataset path))"
  by (simp add: filesystemFenceKey_def exDataset_def FilesystemFenceID_def filesystemAdoptionKindDirectory_def
      filesystemAdoptionKindZFSDataset_def validZFSDatasetAdoption_def Let_def)

theorem fence_key_identifies_filesystem_witness:
  "FilesystemFenceID (exDataset ''tank/a'') = FilesystemFenceID (exDataset ''tank/renamed'')"
  using fence_key_identifies_filesystem [OF exDataset_key exDataset_key, of "''tank/a''" "''tank/renamed''"]
  by (simp add: exDataset_def fenceDigestInput_def)

end
