(* ===== verification/Fence.thy ===== *)
theory Fence
  imports Fence_Admission Filesystem_Identity
begin

text \<open>
  The fenced operations of \<open>internal/agent/fencing.go\<close>: \<open>fencedChecked\<close>, \<open>fenced\<close>,
  \<open>fencedImport\<close>, \<open>retireFence\<close> and \<open>recheckFence\<close>. A call runs under the per-volume lock of
  the Go server, so it is one transition of the node's state: the directory of marks and the
  rest of the storage node.

  A mutation is a function of the rest of the node that returns an error or \<open>None\<close>, the
  values its closure assigned, and the node afterwards. It may change the node and still
  return an error, so a theorem for every mutation covers partial failures.
\<close>

section \<open>The node\<close>

record 'w node =
  nodeDir :: mark_dir
  nodeWorld :: 'w

type_synonym ('w, 'a) mutation = "'w \<Rightarrow> (err \<times> 'a) \<times> 'w"

text \<open>The faults of one call: reading the mark, the two reads of the guard, the two writes.\<close>

record fence_io =
  ioRead :: read_fault
  ioScan :: scan_faults
  ioOwner :: read_fault
  ioWrite :: write_fault
  ioEnd :: write_fault

definition ioOk :: fence_io where
  "ioOk = \<lparr>ioRead = ReadOk, ioScan = scanOk, ioOwner = ReadOk, ioWrite = WriteOk, ioEnd = WriteOk\<rparr>"

section \<open>Checks before a mutation\<close>

definition verifyPinnedSource ::
    "'w registry \<Rightarrow> 'w \<Rightarrow> string \<Rightarrow> fencing_mark \<Rightarrow> err" where
  "verifyPinnedSource reg w v stored =
     (case mLVMSource stored of
        None \<Rightarrow> None
      | Some src \<Rightarrow>
         (case backendForType reg v BackendLvm of
            Inl _ \<Rightarrow> Some FailedPrecondition
          | Inr b \<Rightarrow>
             (case bVerifyLV b of
                None \<Rightarrow> Some FailedPrecondition
              | Some verify \<Rightarrow>
                 (case verify w v src of
                    None \<Rightarrow> None
                  | Some ImportRefusedError \<Rightarrow> Some FailedPrecondition
                  | Some _ \<Rightarrow> Some InternalError))))"

definition checkFencePreconditions ::
    "'w registry \<Rightarrow> 'w \<Rightarrow> string \<Rightarrow> fence_op \<Rightarrow> (fencing_mark \<Rightarrow> err) option \<Rightarrow>
     fencing_mark \<Rightarrow> err" where
  "checkFencePreconditions reg w v op check stored =
     orElse (case check of None \<Rightarrow> None | Some c \<Rightarrow> c stored)
       (if op = fenceRevoke then None else verifyPinnedSource reg w v stored)"

definition prepareFencingMark ::
    "fence_io \<Rightarrow> 'w node \<Rightarrow> 'w backend option \<Rightarrow> string \<Rightarrow> fencing_token option \<Rightarrow> fence_op \<Rightarrow>
     fencing_mark \<Rightarrow> bool \<Rightarrow> fence_admission \<Rightarrow> fencing_mark result" where
  "prepareFencingMark io n b v token op stored exists adm =
     (case (if op \<noteq> fenceRevoke
            then guardLegacyFilesystem (ioScan io) (ioOwner io) (nodeDir n) (nodeWorld n) b v
            else None) of
        Some e \<Rightarrow> Inl e
      | None \<Rightarrow>
         let next = admNext adm in
         Inr (if b \<noteq> None \<and> bType (the b) = BackendZfsDataset then
                (if op \<noteq> fenceRevoke then next\<lparr>mLegacyRevokeOnly := False\<rparr>
                 else if \<not> exists \<or> mEnded stored \<or> mVolumeUID stored \<noteq> GetVolumeUid token
                   then next\<lparr>mLegacyRevokeOnly := True\<rparr>
                 else next)
              else next))"

section \<open>The fenced operations\<close>

definition runFencedMutation ::
    "fence_io \<Rightarrow> 'w node \<Rightarrow> string \<Rightarrow> fence_op \<Rightarrow> fencing_mark \<Rightarrow> 'a \<Rightarrow>
     ('w, 'a) mutation option \<Rightarrow> (err \<times> 'a) \<times> 'w node" where
  "runFencedMutation io n v op next init mutate =
     (let ((e, a), w) = (case mutate of None \<Rightarrow> ((None, init), nodeWorld n)
                                       | Some f \<Rightarrow> f (nodeWorld n));
          n' = n\<lparr>nodeWorld := w\<rparr>
      in case e of
           Some c \<Rightarrow> ((Some c, a), n')
         | None \<Rightarrow>
             if op = fenceDestroy \<and> \<not> mEnded next then
               (case writeFencingMark (ioEnd io) (nodeDir n') v (next\<lparr>mEnded := True\<rparr>) of
                  (e', d) \<Rightarrow> ((e', a), n'\<lparr>nodeDir := d\<rparr>))
             else ((None, a), n'))"

definition fencedChecked ::
    "'w registry \<Rightarrow> fence_io \<Rightarrow> 'w node \<Rightarrow> string \<Rightarrow> fencing_token option \<Rightarrow> fence_op \<Rightarrow>
     'w backend option \<Rightarrow> (fencing_mark \<Rightarrow> err) option \<Rightarrow> 'a \<Rightarrow> ('w, 'a) mutation option \<Rightarrow>
     (err \<times> 'a) \<times> 'w node" where
  "fencedChecked reg io n v token op b check init mutate =
     (case readFencingMark (ioRead io) (nodeDir n) v of
        Inl e \<Rightarrow> ((Some e, init), n)
      | Inr (stored, exists) \<Rightarrow>
         (case admitFencingToken token op stored exists of
            Inl (_, e) \<Rightarrow> ((Some e, init), n)
          | Inr adm \<Rightarrow>
             if admDecision adm = FenceAdmitTerminalRetry \<and> op = fenceDestroy \<and>
                mLVMSource stored \<noteq> None then
               (case persistFencingMark (ioWrite io) (nodeDir n) v stored False of
                  (e, d) \<Rightarrow> ((e, init), n\<lparr>nodeDir := d\<rparr>))
             else
               (case (if admDecision adm \<noteq> FenceAdmitTerminalRetry
                      then checkFencePreconditions reg (nodeWorld n) v op check stored
                      else None) of
                  Some e \<Rightarrow> ((Some e, init), n)
                | None \<Rightarrow>
                   (case prepareFencingMark io n b v token op stored exists adm of
                      Inl e \<Rightarrow> ((Some e, init), n)
                    | Inr next \<Rightarrow>
                       (case persistFencingMark (ioWrite io) (nodeDir n) v next
                               (admChanged adm \<or> mLegacyRevokeOnly next \<noteq> mLegacyRevokeOnly stored) of
                          (Some e, d) \<Rightarrow> ((Some e, init), n\<lparr>nodeDir := d\<rparr>)
                        | (None, d) \<Rightarrow>
                            runFencedMutation io (n\<lparr>nodeDir := d\<rparr>) v op next init mutate)))))"

definition fenced ::
    "'w registry \<Rightarrow> fence_io \<Rightarrow> 'w node \<Rightarrow> string \<Rightarrow> fencing_token option \<Rightarrow> fence_op \<Rightarrow>
     'a \<Rightarrow> ('w, 'a) mutation option \<Rightarrow> (err \<times> 'a) \<times> 'w node" where
  "fenced reg io n v token op init mutate = fencedChecked reg io n v token op None None init mutate"

definition pinImportSource ::
    "fencing_mark \<Rightarrow> fencing_mark \<Rightarrow> lvm_identity option \<Rightarrow> bool \<Rightarrow> fencing_mark result" where
  "pinImportSource next stored src preserve =
     (if mLVMSource stored \<noteq> None \<and> mLVMSource stored \<noteq> src then Inl FailedPrecondition
      else if mLVMSource stored \<noteq> None \<and> mPreserveOriginal stored \<and> \<not> preserve
        then Inl FailedPrecondition
      else Inr (next\<lparr>mLVMSource := (if mLVMSource stored = None then src else mLVMSource stored),
                     mPreserveOriginal := mPreserveOriginal stored \<or> src \<noteq> None \<and> preserve\<rparr>))"

text \<open>
  The import checks of the backend (\<open>mutate\<close>) only read the node; they run before anything is
  written.
\<close>

definition fencedImport ::
    "fence_io \<Rightarrow> 'w node \<Rightarrow> string \<Rightarrow> fencing_token option \<Rightarrow> lvm_identity option \<Rightarrow> bool \<Rightarrow>
     'a \<Rightarrow> ('w, 'a) mutation option \<Rightarrow> (err \<times> 'a) \<times> 'w node" where
  "fencedImport io n v token src preserve init mutate =
     (case readFencingMark (ioRead io) (nodeDir n) v of
        Inl e \<Rightarrow> ((Some e, init), n)
      | Inr (stored, exists) \<Rightarrow>
         (case admitFencingToken token fenceGrant stored exists of
            Inl (_, e) \<Rightarrow> ((Some e, init), n)
          | Inr adm \<Rightarrow>
             (case pinImportSource (admNext adm) stored src preserve of
                Inl e \<Rightarrow> ((Some e, init), n)
              | Inr next \<Rightarrow>
                 (case (case mutate of None \<Rightarrow> ((None, init), nodeWorld n)
                                     | Some f \<Rightarrow> f (nodeWorld n)) of
                    ((Some e, a), w) \<Rightarrow> ((Some e, a), n\<lparr>nodeWorld := w\<rparr>)
                  | ((None, a), w) \<Rightarrow>
                     (case persistFencingMark (ioWrite io) (nodeDir n) v next
                             (\<not> exists \<or> \<not> equalMarks next stored) of
                        (e, d) \<Rightarrow> ((e, a), \<lparr>nodeDir = d, nodeWorld = w\<rparr>))))))"

definition retireFence ::
    "fence_io \<Rightarrow> 'w node \<Rightarrow> string \<Rightarrow> fencing_token option \<Rightarrow> bool \<Rightarrow>
     (fencing_mark \<Rightarrow> err) option \<Rightarrow> (bool \<times> err) \<times> 'w node" where
  "retireFence io n v token unexported check =
     (case readFencingMark (ioRead io) (nodeDir n) v of
        Inl e \<Rightarrow> ((False, Some e), n)
      | Inr (stored, exists) \<Rightarrow>
         let uid = GetVolumeUid token;
             retire = (\<lambda>next. case writeFencingMark (ioWrite io) (nodeDir n) v next of
                          (e, d) \<Rightarrow> ((False, e), n\<lparr>nodeDir := d\<rparr>))
         in if uid = [] then
              ((False, case admitFencingToken token fenceDestroy stored exists of
                         Inl (_, e) \<Rightarrow> Some e | Inr _ \<Rightarrow> None), n)
            else if \<not> exists then
              retire (zero_mark\<lparr>mVolumeUID := uid, mGeneration := GetGeneration token,
                        mEnded := True, mEndedUIDs := [uid]\<rparr>)
            else if uid \<in> set (mEndedUIDs stored) then ((False, None), n)
            else if uid \<noteq> mVolumeUID stored then
              retire (stored\<lparr>mEndedUIDs := mEndedUIDs stored @ [uid]\<rparr>)
            else
              (case admitFencingToken token fenceRevoke stored exists of
                 Inl (_, e) \<Rightarrow> ((False, Some e), n)
               | Inr adm \<Rightarrow>
                   if \<not> unexported then ((True, None), n)
                   else (case (case check of None \<Rightarrow> None | Some c \<Rightarrow> c stored) of
                      Some e \<Rightarrow> ((True, Some e), n)
                    | None \<Rightarrow>
                        retire ((admNext adm)\<lparr>mEnded := True,
                                  mEndedUIDs := mEndedUIDs stored @ [uid]\<rparr>))))"

definition recheckFence ::
    "'w registry \<Rightarrow> fence_io \<Rightarrow> 'w node \<Rightarrow> string \<Rightarrow> fencing_token option \<Rightarrow> fence_op \<Rightarrow>
     'a \<Rightarrow> ('w, 'a) mutation \<Rightarrow> (err \<times> 'a) \<times> 'w node" where
  "recheckFence reg io n v token op init mutate =
     (case readFencingMark (ioRead io) (nodeDir n) v of
        Inl e \<Rightarrow> ((Some e, init), n)
      | Inr (stored, exists) \<Rightarrow>
         (case admitFencingToken token op stored exists of
            Inl (_, e) \<Rightarrow> ((Some e, init), n)
          | Inr adm \<Rightarrow>
             if admChanged adm then ((Some FailedPrecondition, init), n)
             else (case (if op \<noteq> fenceRevoke \<and> admDecision adm \<noteq> FenceAdmitTerminalRetry
                         then verifyPinnedSource reg (nodeWorld n) v stored else None) of
                     Some e \<Rightarrow> ((Some e, init), n)
                   | None \<Rightarrow>
                      (case mutate (nodeWorld n) of
                         ((e, a), w) \<Rightarrow> ((e, a), n\<lparr>nodeWorld := w\<rparr>)))))"

section \<open>How a call may change the directory of marks\<close>

text \<open>
  \<open>fence_step v d d'\<close>: only the mark of \<open>v\<close> may differ, a stored mark may only grow in
  \<open>fence_le\<close>, and a file that is not a mark stays as it is.
\<close>

definition mark_grows :: "file_content option \<Rightarrow> file_content option \<Rightarrow> bool" where
  "mark_grows c c' \<longleftrightarrow>
     (case c of
        None \<Rightarrow> True
      | Some NotAMark \<Rightarrow> c' = Some NotAMark
      | Some (MarkJSON m) \<Rightarrow>
          (case c' of Some (MarkJSON m') \<Rightarrow> fence_le m m' | _ \<Rightarrow> False))"

definition fence_step :: "string \<Rightarrow> mark_dir \<Rightarrow> mark_dir \<Rightarrow> bool" where
  "fence_step v d d' \<longleftrightarrow>
     (\<forall>u. u \<noteq> v \<longrightarrow> markAt d' u = markAt d u) \<and> mark_grows (markAt d v) (markAt d' v)"

lemma mark_grows_refl [simp]: "mark_grows c c"
  by (auto simp: mark_grows_def split: option.splits file_content.splits)

lemma mark_grows_MarkJSON:
  "mark_grows (Some (MarkJSON m)) c \<longleftrightarrow> (\<exists>m'. c = Some (MarkJSON m') \<and> fence_le m m')"
  by (auto simp: mark_grows_def split: option.splits file_content.splits)

lemma mark_grows_None [simp]: "mark_grows None c"
  by (simp add: mark_grows_def)

lemma mark_grows_trans: "mark_grows a b \<Longrightarrow> mark_grows b c \<Longrightarrow> mark_grows a c"
  by (auto simp: mark_grows_def intro: fence_le_trans split: option.splits file_content.splits)

lemma fence_step_refl [simp, intro]: "fence_step v d d"
  by (simp add: fence_step_def)

lemma fence_step_trans [trans]: "fence_step v a b \<Longrightarrow> fence_step v b c \<Longrightarrow> fence_step v a c"
  by (auto simp: fence_step_def intro: mark_grows_trans)

lemma fence_step_frame: "fence_step v d d' \<Longrightarrow> u \<noteq> v \<Longrightarrow> markAt d' u = markAt d u"
  by (simp add: fence_step_def)

lemma fence_step_grows: "fence_step v d d' \<Longrightarrow> mark_grows (markAt d u) (markAt d' u)"
  by (cases "u = v") (auto simp: fence_step_def)

text \<open>Writing a mark that may follow the one that was read is such a step.\<close>

lemma fence_step_persist:
  assumes "readFencingMark f d v = Inr (stored, exists)"
    and "exists \<Longrightarrow> fence_le stored next"
    and "persistFencingMark g d v next changed = (e, d')"
  shows "fence_step v d d'"
  using assms(1)
proof (cases rule: readFencingMark_cases)
  case absent
  then show ?thesis
    using persist_frame [OF assms(3)] by (simp add: fence_step_def)
next
  case present
  then show ?thesis
    using persist_frame [OF assms(3)] persist_mark [OF assms(3)] assms(2)
    by (auto simp: fence_step_def mark_grows_MarkJSON)
qed

lemma fence_step_write:
  assumes "readFencingMark f d v = Inr (stored, exists)"
    and "exists \<Longrightarrow> fence_le stored next"
    and "writeFencingMark g d v next = (e, d')"
  shows "fence_step v d d'"
  using fence_step_persist [OF assms(1,2), of g True e d'] assms(3)
  by (simp add: persistFencingMark_def)

lemma fence_step_write_mark:
  assumes "markAt d v = Some (MarkJSON m)" "fence_le m next"
    and "writeFencingMark g d v next = (e, d')"
  shows "fence_step v d d'"
  using writeFencingMark_frame [OF assms(3)] writeFencingMark_mark [OF assms(3)] assms(1,2)
  by (auto simp: fence_step_def mark_grows_MarkJSON)

section \<open>What the fenced operations promise\<close>

lemma prepareFencingMark_next:
  "prepareFencingMark io n b v token op stored exists adm = Inr next \<Longrightarrow>
     next = (admNext adm)\<lparr>mLegacyRevokeOnly := mLegacyRevokeOnly next\<rparr>"
  by (auto simp: prepareFencingMark_def Let_def split: option.splits if_splits)

lemma fence_le_ended [simp]: "fence_le m (m\<lparr>mEnded := True\<rparr>)"
  by (simp add: fence_le_def)

lemma fence_le_legacy [simp]: "fence_le a (b\<lparr>mLegacyRevokeOnly := r\<rparr>) = fence_le a b"
  by (rule fence_le_cong) simp_all

lemma runFencedMutation_step:
  assumes "runFencedMutation io n v op next init mutate = ((e, a), n')"
    and "markAt (nodeDir n) v = Some (MarkJSON next)"
  shows "fence_step v (nodeDir n) (nodeDir n')"
  using assms fence_step_write_mark [OF assms(2) fence_le_ended]
  by (auto simp: runFencedMutation_def Let_def split: prod.splits option.splits if_splits)

text \<open>After admission: a check refuses, the mark cannot be persisted, or the mutation runs.\<close>

lemma fencedChecked_admitted:
  assumes "fencedChecked reg io n v token op b check init mutate = ((e, a), n')"
    and r: "readFencingMark (ioRead io) (nodeDir n) v = Inr (stored, exists)"
    and adm: "admitFencingToken token op stored exists = Inr adm"
    and nt: "\<not> (admDecision adm = FenceAdmitTerminalRetry \<and> op = fenceDestroy \<and>
        mLVMSource stored \<noteq> None)"
  shows "e \<noteq> None \<and> a = init \<and> n' = n \<or>
    (\<exists>next d c. prepareFencingMark io n b v token op stored exists adm = Inr next \<and>
       persistFencingMark (ioWrite io) (nodeDir n) v next
         (admChanged adm \<or> mLegacyRevokeOnly next \<noteq> mLegacyRevokeOnly stored) = (Some c, d) \<and>
       e = Some c \<and> a = init \<and> n' = n\<lparr>nodeDir := d\<rparr>) \<or>
    (\<exists>next d. prepareFencingMark io n b v token op stored exists adm = Inr next \<and>
       (admDecision adm \<noteq> FenceAdmitTerminalRetry \<longrightarrow>
          checkFencePreconditions reg (nodeWorld n) v op check stored = None) \<and>
       persistFencingMark (ioWrite io) (nodeDir n) v next
         (admChanged adm \<or> mLegacyRevokeOnly next \<noteq> mLegacyRevokeOnly stored) = (None, d) \<and>
       runFencedMutation io (n\<lparr>nodeDir := d\<rparr>) v op next init mutate = ((e, a), n'))"
  using assms(1) nt
  by (auto simp: fencedChecked_def r adm
      split: option.splits sum.splits prod.splits if_splits)

text \<open>The four ways \<open>fencedChecked\<close> can go.\<close>

lemma fencedChecked_cases [consumes 1, case_names refused terminal unpersisted ran]:
  assumes "fencedChecked reg io n v token op b check init mutate = ((e, a), n')"
  obtains "e \<noteq> None" "a = init" "n' = n"
  | stored d where "a = init" "n' = n\<lparr>nodeDir := d\<rparr>" "op = fenceDestroy"
      "readFencingMark (ioRead io) (nodeDir n) v = Inr (stored, True)"
      "mEnded stored" "mLVMSource stored \<noteq> None" "GetVolumeUid token = mVolumeUID stored"
      "persistFencingMark (ioWrite io) (nodeDir n) v stored False = (e, d)"
  | stored exists adm "next" changed c d where "e = Some c" "a = init" "n' = n\<lparr>nodeDir := d\<rparr>"
      "readFencingMark (ioRead io) (nodeDir n) v = Inr (stored, exists)"
      "admitFencingToken token op stored exists = Inr adm"
      "prepareFencingMark io n b v token op stored exists adm = Inr next"
      "persistFencingMark (ioWrite io) (nodeDir n) v next changed = (Some c, d)"
  | stored exists adm "next" d where
      "readFencingMark (ioRead io) (nodeDir n) v = Inr (stored, exists)"
      "admitFencingToken token op stored exists = Inr adm"
      "admDecision adm = FenceAdmitTerminalRetry \<Longrightarrow> op = fenceDestroy \<Longrightarrow> mLVMSource stored = None"
      "admDecision adm \<noteq> FenceAdmitTerminalRetry \<Longrightarrow>
         checkFencePreconditions reg (nodeWorld n) v op check stored = None"
      "prepareFencingMark io n b v token op stored exists adm = Inr next"
      "persistFencingMark (ioWrite io) (nodeDir n) v next
         (admChanged adm \<or> mLegacyRevokeOnly next \<noteq> mLegacyRevokeOnly stored) = (None, d)"
      "runFencedMutation io (n\<lparr>nodeDir := d\<rparr>) v op next init mutate = ((e, a), n')"
proof (cases "readFencingMark (ioRead io) (nodeDir n) v")
  case (Inl x)
  then show ?thesis using assms by (intro that(1)) (auto simp: fencedChecked_def)
next
  case (Inr p)
  then obtain stored "exists" where r: "readFencingMark (ioRead io) (nodeDir n) v = Inr (stored, exists)"
    by (cases p) simp
  show ?thesis
  proof (cases "admitFencingToken token op stored exists")
    case (Inl x)
    then show ?thesis using assms r by (intro that(1)) (auto simp: fencedChecked_def split: prod.splits)
  next
    case adm: (Inr adm)
    show ?thesis
    proof (cases "admDecision adm = FenceAdmitTerminalRetry \<and> op = fenceDestroy \<and>
        mLVMSource stored \<noteq> None")
      case True
      then show ?thesis
        using assms r adm that(2) [of _ stored] admit_terminal [OF adm]
        by (auto simp: fencedChecked_def split: prod.splits)
    next
      case False
      from fencedChecked_admitted [OF assms r adm False] show ?thesis
      proof (elim disjE exE conjE, goal_cases)
        case 1
        then show ?thesis by (rule that(1))
      next
        case (2 "next" d c)
        then show ?thesis using that(3) r adm by blast
      next
        case (3 "next" d)
        then show ?thesis using False by (intro that(4) [OF r adm]) auto
      qed
    qed
  qed
qed

lemma fenced_persisted:
  assumes "readFencingMark f d v = Inr (stored, exists)"
    and "admitFencingToken token op stored exists = Inr adm"
    and "prepareFencingMark io n b v token op stored exists adm = Inr next"
    and "persistFencingMark g d v next
      (admChanged adm \<or> mLegacyRevokeOnly next \<noteq> mLegacyRevokeOnly stored) = (None, d')"
  shows "markAt d' v = Some (MarkJSON next)"
proof (cases "admChanged adm \<or> mLegacyRevokeOnly next \<noteq> mLegacyRevokeOnly stored")
  case True
  then show ?thesis using persist_mark [OF assms(4)] by simp
next
  case False
  then have "exists" "admNext adm = stored" using admit_unchanged [OF assms(2)] by simp_all
  moreover from this False have "next = stored"
    using prepareFencingMark_next [OF assms(3)] by simp
  ultimately show ?thesis
    using False persist_mark [OF assms(4)] readFencingMark_present [of f d v stored] assms(1) by simp
qed

lemma prepared_le:
  assumes "admitFencingToken token op stored exists = Inr adm"
    and "prepareFencingMark io n b v token op stored exists adm = Inr next" and "exists"
  shows "fence_le stored next"
  using admit_next_le [of token op stored adm] assms(1,3)
  by (subst prepareFencingMark_next [OF assms(2)]) simp

lemma fencedChecked_step:
  assumes "fencedChecked reg io n v token op b check init mutate = ((e, a), n')"
  shows "fence_step v (nodeDir n) (nodeDir n')"
  using assms
proof (cases rule: fencedChecked_cases)
  case (terminal stored d)
  then show ?thesis by (auto intro: fence_step_persist)
next
  case (unpersisted stored "exists" adm "next" changed c d)
  then show ?thesis by (auto intro: fence_step_persist prepared_le)
next
  case (ran stored "exists" adm "next" d)
  have "fence_step v (nodeDir n) d"
    using ran(1,2,5,6) by (auto intro: fence_step_persist prepared_le)
  also have "fence_step v d (nodeDir n')"
    using runFencedMutation_step [OF ran(7)] fenced_persisted [OF ran(1,2,5,6)] by simp
  finally show ?thesis .
qed simp

definition runMutation :: "('w, 'a) mutation option \<Rightarrow> 'a \<Rightarrow> 'w \<Rightarrow> (err \<times> 'a) \<times> 'w" where
  "runMutation mutate init w = (case mutate of None \<Rightarrow> ((None, init), w) | Some f \<Rightarrow> f w)"

lemma runFencedMutation_world:
  assumes "runFencedMutation io n v op next init mutate = ((e, a), n')"
  shows "nodeWorld n' = snd (runMutation mutate init (nodeWorld n)) \<and>
    a = snd (fst (runMutation mutate init (nodeWorld n))) \<and>
    (e = None \<longrightarrow> fst (fst (runMutation mutate init (nodeWorld n))) = None)"
  using assms
  by (auto simp: runFencedMutation_def runMutation_def Let_def
      split: prod.splits option.splits if_splits)

lemma runFencedMutation_mark:
  assumes "runFencedMutation io n v op next init mutate = ((e, a), n')"
    and "markAt (nodeDir n) v = Some (MarkJSON next)"
  shows "\<exists>m. markAt (nodeDir n') v = Some (MarkJSON m) \<and> m = next\<lparr>mEnded := mEnded m\<rparr> \<and>
    (op = fenceDestroy \<and> e = None \<longrightarrow> mEnded m) \<and> (op \<noteq> fenceDestroy \<longrightarrow> m = next)"
proof (cases "nodeDir n' = nodeDir n")
  case True
  have "op = fenceDestroy \<Longrightarrow> e = None \<Longrightarrow> mEnded next"
  proof (rule ccontr)
    assume "op = fenceDestroy" "e = None" "\<not> mEnded next"
    then have "markAt (nodeDir n') v = Some (MarkJSON (next\<lparr>mEnded := True\<rparr>))"
      using assms(1) writeFencingMark_success
      by (auto simp: runFencedMutation_def Let_def split: prod.splits option.splits if_splits)
    then have "next = next\<lparr>mEnded := True\<rparr>" using True assms(2) by simp
    then have "mEnded next" by (metis fencing_mark.select_convs(3) fencing_mark.surjective fencing_mark.update_convs(3))
    with \<open>\<not> mEnded next\<close> show False by simp
  qed
  then show ?thesis using True assms(2) by simp
next
  case False
  then have "op = fenceDestroy" and w: "writeFencingMark (ioEnd io) (nodeDir n) v (next\<lparr>mEnded := True\<rparr>) = (e, nodeDir n')"
    using assms(1)
    by (auto simp: runFencedMutation_def Let_def split: prod.splits option.splits if_splits)
  then show ?thesis
    using writeFencingMark_mark [OF w] writeFencingMark_success [of _ _ _ _ "nodeDir n'"] assms(2)
    by (cases e) auto
qed

text \<open>
  The mark a call leaves behind. Whenever the node outside the marks changed, the stored mark
  carries the token of the call: the mutation ran only after the mark was durable.
\<close>

lemma prepared_token:
  assumes "admitFencingToken token op stored exists = Inr adm"
    and "prepareFencingMark io n b v token op stored exists adm = Inr next"
  shows "mVolumeUID next = GetVolumeUid token \<and> mGeneration next = GetGeneration token \<and>
    mLVMSource next = mLVMSource (admNext adm) \<and> mPreserveOriginal next = mPreserveOriginal (admNext adm) \<and>
    mEnded next = mEnded (admNext adm) \<and> mEndedUIDs next = mEndedUIDs (admNext adm)"
  using admit_next_token [OF assms(1)]
  by (subst (1 2 3 4 5 6) prepareFencingMark_next [OF assms(2)]) simp

lemma fencedChecked_ran:
  assumes "fencedChecked reg io n v token op b check init mutate = ((e, a), n')"
    and "nodeWorld n' \<noteq> nodeWorld n \<or> a \<noteq> init \<or>
      e = None \<and> \<not> (op = fenceDestroy \<and> (\<exists>m. markAt (nodeDir n) v = Some (MarkJSON m) \<and>
        mEnded m \<and> mLVMSource m \<noteq> None))"
  obtains stored "exists" adm m where
      "readFencingMark (ioRead io) (nodeDir n) v = Inr (stored, exists)"
      "admitFencingToken token op stored exists = Inr adm"
      "admDecision adm \<noteq> FenceAdmitTerminalRetry \<Longrightarrow>
         checkFencePreconditions reg (nodeWorld n) v op check stored = None"
      "nodeWorld n' = snd (runMutation mutate init (nodeWorld n))"
      "a = snd (fst (runMutation mutate init (nodeWorld n)))"
      "e = None \<Longrightarrow> fst (fst (runMutation mutate init (nodeWorld n))) = None"
      "markAt (nodeDir n') v = Some (MarkJSON m)" "mVolumeUID m = GetVolumeUid token"
      "mGeneration m = GetGeneration token" "op = fenceDestroy \<Longrightarrow> e = None \<Longrightarrow> mEnded m"
      "mLVMSource m = mLVMSource (admNext adm)"
  using assms(1)
proof (cases rule: fencedChecked_cases)
  case (terminal stored d)
  then show ?thesis
    using assms(2) readFencingMark_present [OF terminal(4)] by auto
next
  case (ran stored "exists" adm "next" d)
  note mark = fenced_persisted [OF ran(1,2,5,6)]
  obtain m where m: "markAt (nodeDir n') v = Some (MarkJSON m)" "m = next\<lparr>mEnded := mEnded m\<rparr>"
      "op = fenceDestroy \<and> e = None \<longrightarrow> mEnded m"
    using runFencedMutation_mark [OF ran(7)] mark by auto
  have "mVolumeUID m = mVolumeUID next" "mGeneration m = mGeneration next" "mLVMSource m = mLVMSource next"
    by (subst m(2), simp)+
  then show ?thesis
    using prepared_token [OF ran(2,5)] runFencedMutation_world [OF ran(7)] m
    by (intro that [OF ran(1,2,4) _ _ _ m(1)]) simp_all
qed (use assms(2) in auto)

lemma fencedChecked_rejected:
  assumes "readFencingMark (ioRead io) (nodeDir n) v = Inr (stored, exists)"
    and "admitFencingToken token op stored exists = Inl (d, c)"
  shows "fencedChecked reg io n v token op b check init mutate = ((Some FailedPrecondition, init), n)"
  using assms admit_reject_code [OF assms(2)] by (simp add: fencedChecked_def)

lemma fencedChecked_destroyed:
  assumes "fencedChecked reg io n v token fenceDestroy b check init mutate = ((None, a), n')"
  shows "\<exists>m. markAt (nodeDir n') v = Some (MarkJSON m) \<and> mVolumeUID m = GetVolumeUid token \<and> mEnded m"
  using assms
proof (cases rule: fencedChecked_cases)
  case (terminal stored d)
  then show ?thesis
    using persist_mark [OF terminal(8)] readFencingMark_present [OF terminal(4)] by simp
next
  case (ran stored "exists" adm "next" d)
  then obtain m where "markAt (nodeDir n') v = Some (MarkJSON m)" "m = next\<lparr>mEnded := mEnded m\<rparr>" "mEnded m"
    using runFencedMutation_mark [OF ran(7)] fenced_persisted [OF ran(1,2,5,6)] by auto
  moreover have "mVolumeUID m = mVolumeUID next"
    by (subst \<open>m = _\<close>) simp
  ultimately show ?thesis using prepared_token [OF ran(2,5)] by auto
qed simp_all

section \<open>Import, retirement and recheck\<close>

lemma pinImportSource_next:
  assumes "pinImportSource next stored src preserve = Inr m"
  shows "mVolumeUID m = mVolumeUID next \<and> mGeneration m = mGeneration next \<and>
    mEnded m = mEnded next \<and> mEndedUIDs m = mEndedUIDs next \<and>
    (mLVMSource stored \<noteq> None \<longrightarrow> mLVMSource m = mLVMSource stored) \<and>
    (mPreserveOriginal stored \<longrightarrow> mPreserveOriginal m) \<and> (src \<noteq> None \<longrightarrow> mLVMSource m = src) \<and>
    (src \<noteq> None \<and> preserve \<longrightarrow> mPreserveOriginal m)"
  using assms by (auto simp: pinImportSource_def split: if_splits)

lemma pinned_le:
  assumes "admitFencingToken token op stored True = Inr adm"
    and "pinImportSource (admNext adm) stored src preserve = Inr m"
  shows "fence_le stored m"
  using admit_next_le [OF assms(1)] admit_pin [OF assms(1)] pinImportSource_next [OF assms(2)]
  by (simp add: fence_le_def)

lemma fencedImport_cases [consumes 1, case_names refused admitted]:
  assumes "fencedImport io n v token src preserve init mutate = ((e, a), n')"
  obtains "e \<noteq> None" "nodeDir n' = nodeDir n"
    "nodeWorld n' \<noteq> nodeWorld n \<Longrightarrow> nodeWorld n' = snd (runMutation mutate init (nodeWorld n))"
  | stored "exists" adm "next" where
    "readFencingMark (ioRead io) (nodeDir n) v = Inr (stored, exists)"
    "admitFencingToken token fenceGrant stored exists = Inr adm"
    "pinImportSource (admNext adm) stored src preserve = Inr next"
    "runMutation mutate init (nodeWorld n) = ((None, a), nodeWorld n')"
    "persistFencingMark (ioWrite io) (nodeDir n) v next (\<not> exists \<or> \<not> equalMarks next stored) =
       (e, nodeDir n')"
proof (cases "readFencingMark (ioRead io) (nodeDir n) v")
  case (Inl x)
  then show ?thesis using assms by (intro that(1)) (auto simp: fencedImport_def)
next
  case (Inr p)
  then obtain stored "exists" where r: "readFencingMark (ioRead io) (nodeDir n) v = Inr (stored, exists)"
    by (cases p) simp
  show ?thesis
  proof (cases "admitFencingToken token fenceGrant stored exists")
    case (Inl x)
    then show ?thesis using assms r by (intro that(1)) (auto simp: fencedImport_def split: prod.splits)
  next
    case adm: (Inr adm)
    show ?thesis
    proof (cases "pinImportSource (admNext adm) stored src preserve")
      case (Inl x)
      then show ?thesis using assms r adm by (intro that(1)) (auto simp: fencedImport_def)
    next
      case pin: (Inr "next")
      obtain x a' w where m: "runMutation mutate init (nodeWorld n) = ((x, a'), w)"
        by (metis prod.exhaust)
      show ?thesis
      proof (cases x)
        case None
        then show ?thesis
          using assms r adm pin m
          by (intro that(2) [OF r adm pin])
            (auto simp: fencedImport_def runMutation_def split: prod.splits)
      next
        case (Some c)
        then show ?thesis
          using assms r adm pin m
          by (intro that(1)) (auto simp: fencedImport_def runMutation_def split: prod.splits)
      qed
    qed
  qed
qed

lemma fencedImport_step:
  assumes "fencedImport io n v token src preserve init mutate = ((e, a), n')"
  shows "fence_step v (nodeDir n) (nodeDir n')"
  using assms
proof (cases rule: fencedImport_cases)
  case (admitted stored "exists" adm "next")
  then show ?thesis
    by (intro fence_step_persist [OF admitted(1) _ admitted(5)]) (auto intro: pinned_le)
qed simp

lemma equalMarks_sym: "equalMarks a b = equalMarks b a"
  by (auto simp: equalMarks_def)

text \<open>A successful import leaves a durable mark with the token of the call and the source.\<close>

lemma fencedImport_success:
  assumes "fencedImport io n v token src preserve init mutate = ((None, a), n')"
  shows "\<exists>m. markAt (nodeDir n') v = Some (MarkJSON m) \<and> mVolumeUID m = GetVolumeUid token \<and>
    mGeneration m = GetGeneration token \<and> \<not> mEnded m \<and> (src \<noteq> None \<longrightarrow> mLVMSource m = src) \<and>
    (src \<noteq> None \<and> preserve \<longrightarrow> mPreserveOriginal m)"
  using assms
proof (cases rule: fencedImport_cases)
  case (admitted stored "exists" adm "next")
  note tok = admit_next_token [OF admitted(2)] and pin = pinImportSource_next [OF admitted(3)]
  have open_next: "\<not> mEnded next"
    using pin admit_not_ended [OF admitted(2)] admit_terminal_op [OF admitted(2)] by auto
  show ?thesis
  proof (cases "\<not> exists \<or> \<not> equalMarks next stored")
    case True
    then show ?thesis using persist_mark [OF admitted(5)] tok pin open_next by auto
  next
    case False
    then have "markAt (nodeDir n') v = Some (MarkJSON stored)"
      using persist_mark [OF admitted(5)] admitted(1)
      by (auto elim: readFencingMark_cases)
    moreover have "equalMarks next stored" using False by simp
    ultimately show ?thesis using tok pin open_next by (auto simp: equalMarks_def)
  qed
qed simp

lemma retire_owner_le:
  assumes "admitFencingToken token fenceRevoke stored True = Inr adm"
    and "GetVolumeUid token = mVolumeUID stored"
  shows "fence_le stored ((admNext adm)\<lparr>mEnded := True,
    mEndedUIDs := mEndedUIDs stored @ [GetVolumeUid token]\<rparr>)"
  using admit_next_le [OF assms(1)] admit_next_token [OF assms(1)] assms(2)
  by (auto simp: fence_le_def)

lemma retireFence_cases [consumes 1, case_names unchanged written]:
  assumes "retireFence io n v token unexported check = ((owned, e), n')"
  obtains "n' = n" "e = None \<Longrightarrow> \<not> owned \<Longrightarrow>
      \<exists>m. markAt (nodeDir n) v = Some (MarkJSON m) \<and> GetVolumeUid token \<in> set (mEndedUIDs m)"
      "owned \<Longrightarrow> unexported \<Longrightarrow> e \<noteq> None"
  | stored "exists" "next" where
      "readFencingMark (ioRead io) (nodeDir n) v = Inr (stored, exists)" "\<not> owned"
      "exists \<Longrightarrow> fence_le stored next" "GetVolumeUid token \<in> set (mEndedUIDs next)"
      "writeFencingMark (ioWrite io) (nodeDir n) v next = (e, nodeDir n')" "nodeWorld n' = nodeWorld n"
proof (cases "readFencingMark (ioRead io) (nodeDir n) v")
  case (Inl x)
  then show ?thesis using assms by (intro that(1)) (auto simp: retireFence_def)
next
  case (Inr p)
  then obtain stored "exists" where r: "readFencingMark (ioRead io) (nodeDir n) v = Inr (stored, exists)"
    by (cases p) simp
  let ?uid = "GetVolumeUid token"
  note eq = assms [unfolded retireFence_def r, simplified Let_def]
  have no_uid: "?uid = [] \<Longrightarrow> ?thesis"
    using eq by (intro that(1)) (auto simp: admitFencingToken_def Let_def)
  have absent: "?uid \<noteq> [] \<Longrightarrow> \<not> exists \<Longrightarrow> ?thesis"
    using eq by (intro that(2) [OF r]) (auto split: prod.splits)
  have retired: "?uid \<noteq> [] \<Longrightarrow> exists \<Longrightarrow> ?uid \<in> set (mEndedUIDs stored) \<Longrightarrow> ?thesis"
    using eq r by (intro that(1)) (auto dest: readFencingMark_present)
  have other: "?uid \<noteq> [] \<Longrightarrow> exists \<Longrightarrow> ?uid \<notin> set (mEndedUIDs stored) \<Longrightarrow>
      ?uid \<noteq> mVolumeUID stored \<Longrightarrow> ?thesis"
    using eq
    by (intro that(2) [OF r, of "stored\<lparr>mEndedUIDs := mEndedUIDs stored @ [?uid]\<rparr>"])
      (auto simp: fence_le_def split: prod.splits)
  have owner: "?uid \<noteq> [] \<Longrightarrow> exists \<Longrightarrow> ?uid \<notin> set (mEndedUIDs stored) \<Longrightarrow>
      ?uid = mVolumeUID stored \<Longrightarrow> ?thesis"
  proof (cases "(\<exists>adm. admitFencingToken token fenceRevoke stored exists = Inr adm) \<and> unexported \<and>
      (case check of None \<Rightarrow> None | Some c \<Rightarrow> c stored) = None")
    case True
    then obtain adm where adm: "admitFencingToken token fenceRevoke stored exists = Inr adm" by auto
    assume c: "?uid \<noteq> []" "exists" "?uid \<notin> set (mEndedUIDs stored)" "?uid = mVolumeUID stored"
    then show ?thesis
      using eq adm True retire_owner_le [of token stored adm]
      by (intro that(2) [OF r, of "(admNext adm)\<lparr>mEnded := True, mEndedUIDs := mEndedUIDs stored @ [?uid]\<rparr>"])
        (auto split: prod.splits)
  next
    case False
    assume "?uid \<noteq> []" "exists" "?uid \<notin> set (mEndedUIDs stored)" "?uid = mVolumeUID stored"
    with False show ?thesis
      using eq
      by (intro that(1))
        (auto split: prod.splits option.splits if_splits sum.splits)
  qed
  show ?thesis using no_uid absent retired other owner by blast
qed

lemma retireFence_step:
  assumes "retireFence io n v token unexported check = ((owned, e), n')"
  shows "fence_step v (nodeDir n) (nodeDir n')"
  using assms
  by (cases rule: retireFence_cases) (auto intro: fence_step_write)

lemma retireFence_world:
  "retireFence io n v token unexported check = ((owned, e), n') \<Longrightarrow> nodeWorld n' = nodeWorld n"
  by (erule retireFence_cases) simp_all

text \<open>Afterwards the lifecycle is retired, unless it is reported as the owner or an error.\<close>

lemma retireFence_retires:
  assumes "retireFence io n v token unexported check = ((False, None), n')"
  shows "\<exists>m. markAt (nodeDir n') v = Some (MarkJSON m) \<and> GetVolumeUid token \<in> set (mEndedUIDs m)"
  using assms
proof (cases rule: retireFence_cases)
  case (written stored "exists" "next")
  then show ?thesis using writeFencingMark_success [OF written(5)] by simp
qed simp

lemma retireFence_unexported:
  "retireFence io n v token True check = ((owned, None), n') \<Longrightarrow> \<not> owned"
  by (erule retireFence_cases) auto

lemma recheckFence_dir:
  "recheckFence reg io n v token op init mutate = ((e, a), n') \<Longrightarrow> nodeDir n' = nodeDir n"
  by (auto simp: recheckFence_def split: sum.splits prod.splits option.splits if_splits)

text \<open>A recheck runs its mutation only while the stored mark still carries the token.\<close>

lemma recheckFence_ran:
  assumes "recheckFence reg io n v token op init mutate = ((e, a), n')"
    and "e = None \<or> nodeWorld n' \<noteq> nodeWorld n"
  shows "\<exists>m. markAt (nodeDir n) v = Some (MarkJSON m) \<and> mVolumeUID m = GetVolumeUid token \<and>
    mGeneration m = GetGeneration token \<and> ((e, a), nodeWorld n') = mutate (nodeWorld n)"
proof -
  obtain stored "exists" adm where
      r: "readFencingMark (ioRead io) (nodeDir n) v = Inr (stored, exists)"
    and adm: "admitFencingToken token op stored exists = Inr adm" "\<not> admChanged adm"
    and mut: "((e, a), nodeWorld n') = mutate (nodeWorld n)"
    using assms
    by (auto simp: recheckFence_def split: sum.splits prod.splits option.splits if_splits)
  then have "exists" "admNext adm = stored" using admit_unchanged by blast+
  then show ?thesis
    using admit_next_token [OF adm(1)] r mut by (auto dest: readFencingMark_present)
qed

text \<open>\<open>marks_grow\<close>: every mark of the directory grows; the form the multi-volume calls preserve.\<close>

definition marks_grow :: "mark_dir \<Rightarrow> mark_dir \<Rightarrow> bool" where
  "marks_grow d d' \<longleftrightarrow> (\<forall>v. mark_grows (markAt d v) (markAt d' v))"

lemma marks_grow_refl [simp]: "marks_grow d d"
  by (simp add: marks_grow_def)

lemma marks_grow_trans [trans]: "marks_grow a b \<Longrightarrow> marks_grow b c \<Longrightarrow> marks_grow a c"
  by (auto simp: marks_grow_def intro: mark_grows_trans)

lemma fence_step_marks_grow: "fence_step v d d' \<Longrightarrow> marks_grow d d'"
  by (simp add: marks_grow_def fence_step_grows)

lemma marks_growD:
  "marks_grow d d' \<Longrightarrow> markAt d v = Some (MarkJSON m) \<Longrightarrow>
     \<exists>m'. markAt d' v = Some (MarkJSON m') \<and> fence_le m m'"
  unfolding marks_grow_def by (metis mark_grows_MarkJSON)

lemma fenced_step:
  "fenced reg io n v token op init mutate = ((e, a), n') \<Longrightarrow> fence_step v (nodeDir n) (nodeDir n')"
  by (auto simp: fenced_def intro: fencedChecked_step)

lemma recheckFence_step:
  "recheckFence reg io n v token op init mutate = ((e, a), n') \<Longrightarrow> fence_step v (nodeDir n) (nodeDir n')"
  by (simp add: recheckFence_dir)

end
