(* ===== verification/Protocol_Handler.thy ===== *)
theory Protocol_Handler
  imports Fence
begin

text \<open>
  The protocol handlers of the agent: \<open>internal/agent/protocol_handler.go\<close> (NVMe-oF/TCP),
  \<open>protocol_handler_iscsi.go\<close> and \<open>protocol_handler_nfs.go\<close>. A handler resolves the target of
  a volume and changes it inside the volume's fenced section. The changes themselves (the
  nvmet and LIO configfs trees, the NFS export table, waiting for a device) are the functions
  of \<open>'w target_ops\<close> on the storage node; what is modelled is which of them a request runs,
  under which token, and how their errors become status codes.

  A handler's per-target lock makes a call one transition. Where the Go code returns an error
  that carries no status, the code a client sees is \<open>Unknown\<close>.
\<close>

section \<open>Requests and targets\<close>

type_synonym int32 = "32 word"

record nvme_params =
  npBindAddress :: string
  npPort :: int32
  npInCapsuleDataSize :: int32
  npMaxDataTransferSize :: "int32 option"

text \<open>The \<open>oneof\<close> of \<open>ExportParams\<close>; the getter of a case that is not set returns nil.\<close>

datatype protocol_params = NoParams | NvmeofTcp nvme_params | OtherParams protocol_type

definition GetNvmeofTcp :: "protocol_params \<Rightarrow> nvme_params option" where
  "GetNvmeofTcp p = (case p of NvmeofTcp x \<Rightarrow> Some x | _ \<Rightarrow> None)"

record export_params =
  epVolumeID :: string
  epDevicePath :: string
  epBindAddress :: string
  epPort :: int32
  epProtocolParams :: protocol_params
  epACLEnabled :: bool
  epFence :: "fencing_token option"

record export_result =
  erTargetID :: string
  erAddress :: string
  erPort :: int32
  erVolumeRef :: string

record export_desired =
  edVolumeID :: string
  edDevicePath :: string
  edBindAddress :: string
  edPort :: int32
  edProtocolParams :: protocol_params
  edAllowedInitiators :: "string list"
  edACLEnabled :: bool
  edFence :: "fencing_token option"
  edLocalAttach :: bool

record nvme_identity =
  idSerial :: string
  idUUID :: string
  idNGUID :: string

record nvmet_target =
  ntSubsystemNQN :: string
  ntDevicePath :: string
  ntBindAddress :: string
  ntPort :: int32
  ntAllowedHosts :: "string list"
  ntACLEnabled :: bool
  ntInlineDataSize :: "int32 option"
  ntMaxDataTransferSize :: "int32 option"
  ntPortMDTSFloor :: "int32 option"
  ntIdentity :: "nvme_identity option"
  ntLocalAttach :: bool

text \<open>
  The errors the configfs packages and the NFS manager return, as \<open>errors.Is\<close> and
  \<open>status.Code\<close> tell them apart.
\<close>

datatype target_error =
    ErrTargetNotFound | ErrDeviceHeld | ErrPortConflict | ErrStatus grpc_code | ErrOther

type_synonym 'w target_change = "'w \<Rightarrow> target_error option \<times> 'w"

record 'w target_ops =
  opDeviceReady :: "'w \<Rightarrow> string \<Rightarrow> bool"
  opResolveIdentity :: "string \<Rightarrow> fencing_token option \<Rightarrow> nvmet_target \<Rightarrow> 'w \<Rightarrow>
    (target_error + nvme_identity) \<times> 'w"
  opRemoveIdentity :: "string \<Rightarrow> 'w target_change"
  opNvmetApply :: "nvmet_target \<Rightarrow> 'w target_change"
  opNvmetPrepare :: "nvmet_target \<Rightarrow> 'w target_change"
  opNvmetLink :: "nvmet_target \<Rightarrow> 'w target_change"
  opNvmetRevokeExcept :: "string \<Rightarrow> string list \<Rightarrow> 'w target_change"
  opNvmetRemove :: "string \<Rightarrow> 'w target_change"
  opNvmetAllowHost :: "string \<Rightarrow> string \<Rightarrow> 'w target_change"
  opNvmetDenyHost :: "string \<Rightarrow> string \<Rightarrow> 'w target_change"
  opNvmetDisable :: "string \<Rightarrow> 'w \<Rightarrow> (target_error + string) \<times> 'w"
  opNvmetEnable :: "string \<Rightarrow> 'w target_change"
  opLioRemove :: "string \<Rightarrow> 'w target_change"
  opLioDeny :: "string \<Rightarrow> string \<Rightarrow> 'w target_change"
  opLioEnterLocal :: "string \<Rightarrow> 'w \<Rightarrow> (target_error + string) \<times> 'w"
  opLioLeaveLocal :: "string \<Rightarrow> string \<Rightarrow> 'w target_change"
  opNfsAvailable :: bool
  opNfsRemove :: "string \<Rightarrow> 'w target_change"
  opNfsValidateClient :: "string \<Rightarrow> bool"
  opNfsChangeClient :: "string \<Rightarrow> string \<Rightarrow> bool \<Rightarrow> 'w target_change"

section \<open>Status of a target error\<close>

text \<open>The two \<open>errors.Is\<close> cases of \<open>Apply\<close> that are the caller's to resolve.\<close>

fun nvmetApplyStatus :: "target_error \<Rightarrow> grpc_code" where
  "nvmetApplyStatus ErrPortConflict = FailedPrecondition"
| "nvmetApplyStatus ErrDeviceHeld = FailedPrecondition"
| "nvmetApplyStatus _ = InternalError"

fun localAttachStatus :: "target_error \<Rightarrow> grpc_code" where
  "localAttachStatus ErrTargetNotFound = NotFound"
| "localAttachStatus ErrDeviceHeld = FailedPrecondition"
| "localAttachStatus _ = InternalError"

fun iscsiStatus :: "target_error \<Rightarrow> grpc_code" where
  "iscsiStatus ErrTargetNotFound = NotFound"
| "iscsiStatus ErrDeviceHeld = FailedPrecondition"
| "iscsiStatus _ = InternalError"

fun nfsStatus :: "target_error \<Rightarrow> grpc_code" where
  "nfsStatus (ErrStatus c) = (if c = UnknownCode then InternalError else c)"
| "nfsStatus _ = InternalError"

text \<open>A status error stays as it is; an error wrapped with \<open>fmt.Errorf\<close> keeps a status inside.\<close>

fun wrappedStatus :: "target_error \<Rightarrow> grpc_code" where
  "wrappedStatus (ErrStatus c) = c"
| "wrappedStatus _ = UnknownCode"

definition asMutation :: "(target_error \<Rightarrow> grpc_code) \<Rightarrow> 'w target_change \<Rightarrow> ('w, unit) mutation" where
  "asMutation f change w = (case change w of (e, w') \<Rightarrow> ((map_option f e, ()), w'))"

section \<open>Port parameters\<close>

definition MinInlineDataSize :: int32 where
  "MinInlineDataSize = 1024"

definition MinMaxDataTransferSize :: int32 where
  "MinMaxDataTransferSize = 8192"

definition MaxMaxDataTransferSize :: int32 where
  "MaxMaxDataTransferSize = 1073741824"

definition nvmeDefaultPort :: int32 where
  "nvmeDefaultPort = 4420"

definition ValidMaxDataTransferSize :: "int32 \<Rightarrow> bool" where
  "ValidMaxDataTransferSize v \<longleftrightarrow>
     v = 0 \<or> MinMaxDataTransferSize \<le>s v \<and> v \<le>s MaxMaxDataTransferSize \<and> v AND (v - 1) = 0"

definition nvmeofInlineDataSize :: "protocol_params \<Rightarrow> int32 option" where
  "nvmeofInlineDataSize p =
     (case GetNvmeofTcp p of
        None \<Rightarrow> None
      | Some x \<Rightarrow> if npInCapsuleDataSize x \<noteq> 0 then Some (npInCapsuleDataSize x) else None)"

definition nvmeofMaxDataTransferSize :: "protocol_params \<Rightarrow> int32 option" where
  "nvmeofMaxDataTransferSize p = Option.bind (GetNvmeofTcp p) npMaxDataTransferSize"

definition nvmeofPortParams :: "protocol_params \<Rightarrow> (int32 option \<times> int32 option) result" where
  "nvmeofPortParams p =
     (let inl = nvmeofInlineDataSize p; mdts = nvmeofMaxDataTransferSize p in
      if inl \<noteq> None \<and> the inl <s MinInlineDataSize then Inl InvalidArgument
      else if mdts \<noteq> None \<and> \<not> ValidMaxDataTransferSize (the mdts) then Inl InvalidArgument
      else Inr (inl, mdts))"

definition nvmeofEndpoint ::
    "string \<Rightarrow> int32 \<Rightarrow> protocol_params \<Rightarrow> (string \<times> int32) result" where
  "nvmeofEndpoint bindAddress port p =
     (case GetNvmeofTcp p of
        Some x \<Rightarrow> Inr (npBindAddress x, npPort x)
      | None \<Rightarrow> if bindAddress = [] \<and> port = 0 then Inl InvalidArgument
                else Inr (bindAddress, port))"

definition resolveExportDevicePath :: "'w registry \<Rightarrow> string \<Rightarrow> string \<Rightarrow> string result" where
  "resolveExportDevicePath reg v devicePath =
     (if devicePath \<noteq> [] then Inr devicePath
      else map_sum id (\<lambda>b. bDevicePath b v) (backendFor reg v))"

text \<open>\<open>waitForDeviceReady\<close>: a device that does not appear in time is a failed precondition.\<close>

definition waitForDeviceReady :: "'w target_ops \<Rightarrow> 'w \<Rightarrow> string \<Rightarrow> err" where
  "waitForDeviceReady ops w devicePath =
     (if opDeviceReady ops w devicePath then None else Some FailedPrecondition)"

section \<open>NVMe-oF/TCP\<close>

definition nvmeTargetID :: "string \<Rightarrow> string result" where
  "nvmeTargetID v = volumeTargetID ProtocolNvmeofTcp v"

definition nvmeExportMutation ::
    "'w target_ops \<Rightarrow> string \<Rightarrow> fencing_token option \<Rightarrow> nvmet_target \<Rightarrow> ('w, unit) mutation" where
  "nvmeExportMutation ops v token target w =
     (case opResolveIdentity ops v token target w of
        (Inl e, w1) \<Rightarrow> ((Some (wrappedStatus e), ()), w1)
      | (Inr identity, w1) \<Rightarrow>
          asMutation nvmetApplyStatus (opNvmetApply ops (target\<lparr>ntIdentity := Some identity\<rparr>)) w1)"

definition nvmeExport ::
    "'w registry \<Rightarrow> 'w target_ops \<Rightarrow> fence_io \<Rightarrow> 'w node \<Rightarrow> export_params \<Rightarrow>
     export_result result \<times> 'w node" where
  "nvmeExport reg ops io n params =
     (case nvmeofEndpoint (epBindAddress params) (epPort params) (epProtocolParams params) of
        Inl _ \<Rightarrow> (Inl InvalidArgument, n)
      | Inr (bindAddress, port) \<Rightarrow>
     (case nvmeofPortParams (epProtocolParams params) of
        Inl e \<Rightarrow> (Inl e, n)
      | Inr (inl, mdts) \<Rightarrow>
     (case resolveExportDevicePath reg (epVolumeID params) (epDevicePath params) of
        Inl e \<Rightarrow> (Inl e, n)
      | Inr devicePath \<Rightarrow>
     (case waitForDeviceReady ops (nodeWorld n) devicePath of
        Some e \<Rightarrow> (Inl e, n)
      | None \<Rightarrow>
     (case nvmeTargetID (epVolumeID params) of
        Inl e \<Rightarrow> (Inl e, n)
      | Inr targetID \<Rightarrow>
          let target = \<lparr>ntSubsystemNQN = targetID, ntDevicePath = devicePath,
                ntBindAddress = bindAddress, ntPort = port, ntAllowedHosts = [],
                ntACLEnabled = epACLEnabled params, ntInlineDataSize = inl,
                ntMaxDataTransferSize = mdts, ntPortMDTSFloor = None, ntIdentity = None,
                ntLocalAttach = False\<rparr> in
          (case fenced reg io n (epVolumeID params) (epFence params) fenceGrant ()
                  (Some (nvmeExportMutation ops (epVolumeID params) (epFence params) target)) of
             ((Some e, _), n') \<Rightarrow> (Inl e, n')
           | ((None, _), n') \<Rightarrow>
               (Inr \<lparr>erTargetID = targetID, erAddress = bindAddress,
                     erPort = (if port = 0 then nvmeDefaultPort else port),
                     erVolumeRef = ''1''\<rparr>, n')))))))"

definition nvmeUnexport ::
    "'w registry \<Rightarrow> 'w target_ops \<Rightarrow> fence_io \<Rightarrow> 'w node \<Rightarrow> string \<Rightarrow> fencing_token option \<Rightarrow>
     err \<times> 'w node" where
  "nvmeUnexport reg ops io n v token =
     (case nvmeTargetID v of
        Inl e \<Rightarrow> (Some e, n)
      | Inr nqn \<Rightarrow>
          map_prod fst id (fenced reg io n v token fenceRevoke ()
            (Some (\<lambda>w. case opNvmetRemove ops nqn w of
               (Some _, w1) \<Rightarrow> ((Some InternalError, ()), w1)
             | (None, w1) \<Rightarrow> asMutation wrappedStatus (opRemoveIdentity ops v) w1))))"

definition nvmeAllowInitiator ::
    "'w registry \<Rightarrow> 'w target_ops \<Rightarrow> fence_io \<Rightarrow> 'w node \<Rightarrow> string \<Rightarrow> string \<Rightarrow>
     fencing_token option \<Rightarrow> err \<times> 'w node" where
  "nvmeAllowInitiator reg ops io n v initiator token =
     (case nvmeTargetID v of
        Inl e \<Rightarrow> (Some e, n)
      | Inr nqn \<Rightarrow>
          map_prod fst id (fenced reg io n v token fenceGrant ()
            (Some (asMutation (\<lambda>_. InternalError) (opNvmetAllowHost ops nqn initiator)))))"

definition nvmeDenyInitiator ::
    "'w registry \<Rightarrow> 'w target_ops \<Rightarrow> fence_io \<Rightarrow> 'w node \<Rightarrow> string \<Rightarrow> string \<Rightarrow>
     fencing_token option \<Rightarrow> err \<times> 'w node" where
  "nvmeDenyInitiator reg ops io n v initiator token =
     (case nvmeTargetID v of
        Inl e \<Rightarrow> (Some e, n)
      | Inr nqn \<Rightarrow>
          map_prod fst id (fenced reg io n v token fenceRevoke ()
            (Some (asMutation (\<lambda>_. InternalError) (opNvmetDenyHost ops nqn initiator)))))"

definition nvmeSetLocalAttach ::
    "'w registry \<Rightarrow> 'w target_ops \<Rightarrow> fence_io \<Rightarrow> 'w node \<Rightarrow> string \<Rightarrow> bool \<Rightarrow>
     fencing_token option \<Rightarrow> string result \<times> 'w node" where
  "nvmeSetLocalAttach reg ops io n v isLocal token =
     (case nvmeTargetID v of
        Inl e \<Rightarrow> (Inl e, n)
      | Inr nqn \<Rightarrow>
         (case fenced reg io n v token fenceGrant []
                 (Some (\<lambda>w.
                    if isLocal then
                      (case opNvmetDisable ops nqn w of
                         (Inl e, w1) \<Rightarrow> ((Some (localAttachStatus e), []), w1)
                       | (Inr path, w1) \<Rightarrow> ((None, path), w1))
                    else
                      (case opNvmetEnable ops nqn w of
                         (e, w1) \<Rightarrow> ((map_option localAttachStatus e, []), w1)))) of
            ((Some e, _), n') \<Rightarrow> (Inl e, n')
          | ((None, path), n') \<Rightarrow> (Inr path, n')))"

subsection \<open>Reconcile\<close>

definition nvmeReconcileTarget :: "'w registry \<Rightarrow> export_desired \<Rightarrow> nvmet_target result" where
  "nvmeReconcileTarget reg x =
     (case nvmeofEndpoint (edBindAddress x) (edPort x) (edProtocolParams x) of
        Inl e \<Rightarrow> Inl e
      | Inr (bindAddress, port) \<Rightarrow>
     (case resolveExportDevicePath reg (edVolumeID x) (edDevicePath x) of
        Inl e \<Rightarrow> Inl e
      | Inr devicePath \<Rightarrow>
     (case nvmeTargetID (edVolumeID x) of
        Inl e \<Rightarrow> Inl e
      | Inr targetID \<Rightarrow>
          Inr \<lparr>ntSubsystemNQN = targetID, ntDevicePath = devicePath,
               ntBindAddress = bindAddress, ntPort = port,
               ntAllowedHosts = (if edACLEnabled x then edAllowedInitiators x else []),
               ntACLEnabled = edACLEnabled x,
               ntInlineDataSize = nvmeofInlineDataSize (edProtocolParams x),
               ntMaxDataTransferSize = nvmeofMaxDataTransferSize (edProtocolParams x),
               ntPortMDTSFloor = None, ntIdentity = None, ntLocalAttach = edLocalAttach x\<rparr>)))"

text \<open>\<open>setPortMDTSFloors\<close>: the smallest valid non-zero limit of each endpoint.\<close>

definition mdtsEndpoint :: "nvmet_target \<Rightarrow> string \<times> int32" where
  "mdtsEndpoint t = (ntBindAddress t, if ntPort t = 0 then nvmeDefaultPort else ntPort t)"

fun mdtsFloors ::
    "nvmet_target option list \<Rightarrow> ((string \<times> int32) \<times> int32) list \<Rightarrow> ((string \<times> int32) \<times> int32) list" where
  "mdtsFloors [] floors = floors"
| "mdtsFloors (t # ts) floors =
     mdtsFloors ts
       (case t of
          None \<Rightarrow> floors
        | Some x \<Rightarrow>
           (case ntMaxDataTransferSize x of
              None \<Rightarrow> floors
            | Some sz \<Rightarrow>
                if sz = 0 \<or> \<not> ValidMaxDataTransferSize sz then floors
                else (case map_of floors (mdtsEndpoint x) of
                        Some cur \<Rightarrow> if sz <s cur then AList.update (mdtsEndpoint x) sz floors
                                     else floors
                      | None \<Rightarrow> AList.update (mdtsEndpoint x) sz floors)))"

definition setPortMDTSFloors :: "nvmet_target option list \<Rightarrow> nvmet_target option list" where
  "setPortMDTSFloors ts =
     (let floors = mdtsFloors ts [] in
      map (map_option (\<lambda>t. case map_of floors (mdtsEndpoint t) of
                             Some f \<Rightarrow> t\<lparr>ntPortMDTSFloor := Some f\<rparr> | None \<Rightarrow> t)) ts)"

definition nvmePrepareMutation ::
    "'w target_ops \<Rightarrow> export_desired \<Rightarrow> nvmet_target \<Rightarrow> ('w, nvmet_target) mutation" where
  "nvmePrepareMutation ops x target w =
     (case waitForDeviceReady ops w (ntDevicePath target) of
        Some e \<Rightarrow> ((Some e, target), w)
      | None \<Rightarrow>
     (case opResolveIdentity ops (edVolumeID x) (edFence x) target w of
        (Inl e, w1) \<Rightarrow> ((Some (wrappedStatus e), target), w1)
      | (Inr identity, w1) \<Rightarrow>
         let target' = target\<lparr>ntIdentity := Some identity\<rparr> in
     (case opNvmetPrepare ops target' w1 of
        (Some e, w2) \<Rightarrow> ((Some (wrappedStatus e), target'), w2)
      | (None, w2) \<Rightarrow>
          if edACLEnabled x then
            (case opNvmetRevokeExcept ops (ntSubsystemNQN target') (edAllowedInitiators x) w2 of
               (e, w3) \<Rightarrow> ((map_option wrappedStatus e, target'), w3))
          else ((None, target'), w2))))"

text \<open>
  One call per desired export, in order; the first list collects the results. \<open>io\<close> holds the
  faults of the prepare phase and of the link phase of the \<open>i\<close>-th export.
\<close>

fun forEach :: "(nat \<Rightarrow> 'x \<Rightarrow> 'n \<Rightarrow> 'r \<times> 'n) \<Rightarrow> nat \<Rightarrow> 'x list \<Rightarrow> 'n \<Rightarrow> 'r list \<times> 'n" where
  "forEach f i [] n = ([], n)"
| "forEach f i (x # xs) n =
     (case f i x n of (r, n1) \<Rightarrow> case forEach f (Suc i) xs n1 of (rs, n2) \<Rightarrow> (r # rs, n2))"

definition nvmePrepareExport ::
    "'w registry \<Rightarrow> 'w target_ops \<Rightarrow> fence_io \<Rightarrow> export_desired \<Rightarrow> nvmet_target \<Rightarrow> 'w node \<Rightarrow>
     nvmet_target result \<times> 'w node" where
  "nvmePrepareExport reg ops io x target n =
     (case fenced reg io n (edVolumeID x) (edFence x) fenceGrant target
             (Some (nvmePrepareMutation ops x target)) of
        ((Some e, _), n') \<Rightarrow> (Inl e, n')
      | ((None, prepared), n') \<Rightarrow> (Inr prepared, n'))"

definition nvmeLinkExport ::
    "'w registry \<Rightarrow> 'w target_ops \<Rightarrow> fence_io \<Rightarrow> export_desired \<Rightarrow> nvmet_target \<Rightarrow> 'w node \<Rightarrow>
     err \<times> 'w node" where
  "nvmeLinkExport reg ops io x prepared n =
     map_prod fst id (recheckFence reg io n (edVolumeID x) (edFence x) fenceGrant ()
       (asMutation wrappedStatus (opNvmetLink ops prepared)))"

definition nvmeReconcile ::
    "'w registry \<Rightarrow> 'w target_ops \<Rightarrow> (nat \<Rightarrow> fence_io) \<Rightarrow> (nat \<Rightarrow> fence_io) \<Rightarrow> 'w node \<Rightarrow>
     export_desired list \<Rightarrow> err list \<times> 'w node" where
  "nvmeReconcile reg ops ioPrepare ioLink n desired =
     (let built = map (nvmeReconcileTarget reg) desired;
          floored = setPortMDTSFloors
            (map (\<lambda>r. case r of Inl _ \<Rightarrow> None | Inr t \<Rightarrow> Some t) built);
          targets = map2 (\<lambda>r t. case r of Inl e \<Rightarrow> Inl e | Inr _ \<Rightarrow> Inr (the t)) built floored;
          (prepared, n1) = forEach (\<lambda>i (x, t) m.
             case t of Inl e \<Rightarrow> (Inl e, m) | Inr target \<Rightarrow> nvmePrepareExport reg ops (ioPrepare i) x target m)
             0 (zip desired targets) n
      in forEach (\<lambda>i (x, p) m.
           case p of Inl e \<Rightarrow> (Some e, m) | Inr target \<Rightarrow> nvmeLinkExport reg ops (ioLink i) x target m)
           0 (zip desired prepared) n1)"

section \<open>iSCSI\<close>

definition ValidateIQN :: "string \<Rightarrow> bool" where
  "ValidateIQN name \<longleftrightarrow>
     name \<noteq> [] \<and> length name \<le> MaxIQNLength \<and>
     CHR ''/'' \<notin> set name \<and> char_of (0::nat) \<notin> set name \<and> name \<noteq> ''.'' \<and> name \<noteq> ''..''"

definition iscsiTargetForVolume :: "string \<Rightarrow> string result" where
  "iscsiTargetForVolume v =
     (case poolFromVolumeID v of Inl e \<Rightarrow> Inl e | Inr _ \<Rightarrow> volumeTargetID ProtocolIscsi v)"

definition iscsiUnexport ::
    "'w registry \<Rightarrow> 'w target_ops \<Rightarrow> fence_io \<Rightarrow> 'w node \<Rightarrow> string \<Rightarrow> fencing_token option \<Rightarrow>
     err \<times> 'w node" where
  "iscsiUnexport reg ops io n v token =
     (case iscsiTargetForVolume v of
        Inl e \<Rightarrow> (Some e, n)
      | Inr iqn \<Rightarrow>
          map_prod fst id (fenced reg io n v token fenceRevoke ()
            (Some (asMutation iscsiStatus (opLioRemove ops iqn)))))"

definition iscsiDenyInitiator ::
    "'w registry \<Rightarrow> 'w target_ops \<Rightarrow> fence_io \<Rightarrow> 'w node \<Rightarrow> string \<Rightarrow> string \<Rightarrow>
     fencing_token option \<Rightarrow> err \<times> 'w node" where
  "iscsiDenyInitiator reg ops io n v initiator token =
     (if \<not> ValidateIQN initiator then (Some InvalidArgument, n)
      else (case iscsiTargetForVolume v of
        Inl e \<Rightarrow> (Some e, n)
      | Inr iqn \<Rightarrow>
          map_prod fst id (fenced reg io n v token fenceRevoke ()
            (Some (asMutation iscsiStatus (opLioDeny ops iqn initiator))))))"

definition resolveISCSILocalDevicePath :: "'w registry \<Rightarrow> string \<Rightarrow> string result" where
  "resolveISCSILocalDevicePath reg v =
     (case poolFromVolumeID v of
        Inl e \<Rightarrow> Inl e
      | Inr pool \<Rightarrow>
         if length (rVariants reg pool) \<le> 1 then resolveExportDevicePath reg v []
         else (case backendForType reg v BackendZfsZvol of
           Inl e \<Rightarrow> Inl e
         | Inr b \<Rightarrow>
            (case checkBackendType BackendZfsZvol (bType b) of
               Some e \<Rightarrow> Inl e
             | None \<Rightarrow> if bDevicePath b v = [] then Inl FailedPrecondition
                       else Inr (bDevicePath b v))))"

definition iscsiSetLocalAttach ::
    "'w registry \<Rightarrow> 'w target_ops \<Rightarrow> fence_io \<Rightarrow> 'w node \<Rightarrow> string \<Rightarrow> bool \<Rightarrow>
     fencing_token option \<Rightarrow> string result \<times> 'w node" where
  "iscsiSetLocalAttach reg ops io n v isLocal token =
     (case iscsiTargetForVolume v of
        Inl e \<Rightarrow> (Inl e, n)
      | Inr iqn \<Rightarrow>
         (case fenced reg io n v token fenceGrant []
                 (Some (\<lambda>w.
                    if isLocal then
                      (case opLioEnterLocal ops iqn w of
                         (Inl e, w1) \<Rightarrow> ((Some (iscsiStatus e), []), w1)
                       | (Inr path, w1) \<Rightarrow>
                           if path = [] then
                             (case resolveISCSILocalDevicePath reg v of
                                Inl e \<Rightarrow> ((Some e, []), w1) | Inr p \<Rightarrow> ((None, p), w1))
                           else ((None, path), w1))
                    else
                      (case resolveISCSILocalDevicePath reg v of
                         Inl e \<Rightarrow> ((Some e, []), w)
                       | Inr dev \<Rightarrow>
                          (case opLioLeaveLocal ops iqn dev w of
                             (e, w1) \<Rightarrow> ((map_option iscsiStatus e, []), w1))))) of
            ((Some e, _), n') \<Rightarrow> (Inl e, n')
          | ((None, path), n') \<Rightarrow> (Inr path, n')))"

section \<open>NFS\<close>

definition fencedLegacyFilesystem ::
    "'w registry \<Rightarrow> fence_io \<Rightarrow> 'w node \<Rightarrow> string \<Rightarrow> fencing_token option \<Rightarrow> fence_op \<Rightarrow>
     ('w, unit) mutation \<Rightarrow> err \<times> 'w node" where
  "fencedLegacyFilesystem reg io n v token op mutate =
     (case backendForType reg v BackendZfsDataset of
        Inl e \<Rightarrow> (Some e, n)
      | Inr b \<Rightarrow> map_prod fst id (fencedChecked reg io n v token op (Some b) None () (Some mutate)))"

definition nfsUnexport ::
    "'w registry \<Rightarrow> 'w target_ops \<Rightarrow> fence_io \<Rightarrow> 'w node \<Rightarrow> string \<Rightarrow> fencing_token option \<Rightarrow>
     err \<times> 'w node" where
  "nfsUnexport reg ops io n v token =
     fencedLegacyFilesystem reg io n v token fenceRevoke (asMutation nfsStatus (opNfsRemove ops v))"

definition nfsAllowInitiator ::
    "'w registry \<Rightarrow> 'w target_ops \<Rightarrow> fence_io \<Rightarrow> 'w node \<Rightarrow> string \<Rightarrow> string \<Rightarrow>
     fencing_token option \<Rightarrow> err \<times> 'w node" where
  "nfsAllowInitiator reg ops io n v client token =
     (if \<not> opNfsValidateClient ops client then (Some InvalidArgument, n)
      else fencedLegacyFilesystem reg io n v token fenceGrant
             (asMutation nfsStatus (opNfsChangeClient ops v client True)))"

definition nfsDenyInitiator ::
    "'w registry \<Rightarrow> 'w target_ops \<Rightarrow> fence_io \<Rightarrow> 'w node \<Rightarrow> string \<Rightarrow> string \<Rightarrow>
     fencing_token option \<Rightarrow> err \<times> 'w node" where
  "nfsDenyInitiator reg ops io n v client token =
     (if \<not> opNfsValidateClient ops client then (Some InvalidArgument, n)
      else fencedLegacyFilesystem reg io n v token fenceRevoke
             (asMutation nfsStatus (opNfsChangeClient ops v client False)))"

section \<open>Dispatch\<close>

definition handlerForProtocol :: "'w target_ops \<Rightarrow> protocol_type \<Rightarrow> protocol_type result" where
  "handlerForProtocol ops protocol =
     (case protocol of
        ProtocolNvmeofTcp \<Rightarrow> Inr ProtocolNvmeofTcp
      | ProtocolIscsi \<Rightarrow> Inr ProtocolIscsi
      | ProtocolNfs \<Rightarrow> if opNfsAvailable ops then Inr ProtocolNfs else Inl Unimplemented
      | ProtocolUnspecified \<Rightarrow> Inl InvalidArgument
      | _ \<Rightarrow> Inl Unimplemented)"

definition handlerUnexport ::
    "'w registry \<Rightarrow> 'w target_ops \<Rightarrow> protocol_type \<Rightarrow> fence_io \<Rightarrow> 'w node \<Rightarrow> string \<Rightarrow>
     fencing_token option \<Rightarrow> err \<times> 'w node" where
  "handlerUnexport reg ops protocol io n v token =
     (case handlerForProtocol ops protocol of
        Inl e \<Rightarrow> (Some e, n)
      | Inr p \<Rightarrow>
          (if p = ProtocolNvmeofTcp then nvmeUnexport
           else if p = ProtocolIscsi then iscsiUnexport else nfsUnexport) reg ops io n v token)"

section \<open>Every handler is a step of its volume's fence\<close>

lemma map_prod_fst_id [simp]: "map_prod fst id r = (e, n') \<longleftrightarrow> (\<exists>a. r = ((e, a), n'))"
  by (cases r) auto

lemma nvmeExport_step:
  "nvmeExport reg ops io n params = (r, n') \<Longrightarrow>
     fence_step (epVolumeID params) (nodeDir n) (nodeDir n')"
  by (auto simp: nvmeExport_def Let_def dest: fenced_step
      split: sum.splits prod.splits option.splits)

lemma nvmeUnexport_step:
  "nvmeUnexport reg ops io n v token = (e, n') \<Longrightarrow> fence_step v (nodeDir n) (nodeDir n')"
  by (auto simp: nvmeUnexport_def dest: fenced_step split: sum.splits)

lemma nvmeAllowInitiator_step:
  "nvmeAllowInitiator reg ops io n v i token = (e, n') \<Longrightarrow> fence_step v (nodeDir n) (nodeDir n')"
  by (auto simp: nvmeAllowInitiator_def dest: fenced_step split: sum.splits)

lemma nvmeDenyInitiator_step:
  "nvmeDenyInitiator reg ops io n v i token = (e, n') \<Longrightarrow> fence_step v (nodeDir n) (nodeDir n')"
  by (auto simp: nvmeDenyInitiator_def dest: fenced_step split: sum.splits)

lemma nvmeSetLocalAttach_step:
  "nvmeSetLocalAttach reg ops io n v l token = (r, n') \<Longrightarrow> fence_step v (nodeDir n) (nodeDir n')"
  unfolding nvmeSetLocalAttach_def
  by (auto dest: fenced_step split: sum.splits prod.splits option.splits)

lemma iscsiUnexport_step:
  "iscsiUnexport reg ops io n v token = (e, n') \<Longrightarrow> fence_step v (nodeDir n) (nodeDir n')"
  by (auto simp: iscsiUnexport_def dest: fenced_step split: sum.splits)

lemma iscsiDenyInitiator_step:
  "iscsiDenyInitiator reg ops io n v i token = (e, n') \<Longrightarrow> fence_step v (nodeDir n) (nodeDir n')"
  by (auto simp: iscsiDenyInitiator_def dest: fenced_step split: sum.splits if_splits)

lemma iscsiSetLocalAttach_step:
  "iscsiSetLocalAttach reg ops io n v l token = (r, n') \<Longrightarrow> fence_step v (nodeDir n) (nodeDir n')"
  unfolding iscsiSetLocalAttach_def
  by (auto dest: fenced_step split: sum.splits prod.splits option.splits)

lemma fencedLegacyFilesystem_step:
  "fencedLegacyFilesystem reg io n v token op mutate = (e, n') \<Longrightarrow>
     fence_step v (nodeDir n) (nodeDir n')"
  by (auto simp: fencedLegacyFilesystem_def dest: fencedChecked_step split: sum.splits)

lemma nfs_steps:
  "nfsUnexport reg ops io n v token = (e, n') \<Longrightarrow> fence_step v (nodeDir n) (nodeDir n')"
  "nfsAllowInitiator reg ops io n v i token = (e, n') \<Longrightarrow> fence_step v (nodeDir n) (nodeDir n')"
  "nfsDenyInitiator reg ops io n v i token = (e, n') \<Longrightarrow> fence_step v (nodeDir n) (nodeDir n')"
  by (auto simp: nfsUnexport_def nfsAllowInitiator_def nfsDenyInitiator_def
      dest: fencedLegacyFilesystem_step split: if_splits)

lemma handlerUnexport_step:
  "handlerUnexport reg ops protocol io n v token = (e, n') \<Longrightarrow> fence_step v (nodeDir n) (nodeDir n')"
  by (auto simp: handlerUnexport_def
      dest: nvmeUnexport_step iscsiUnexport_step nfs_steps(1) split: sum.splits if_splits)

text \<open>An iteration of steps is a step of the whole directory.\<close>

lemma forEach_marks_grow:
  assumes "\<And>i x n r n'. f i x n = (r, n') \<Longrightarrow> marks_grow (nodeDir n) (nodeDir n')"
    and "forEach f i xs n = (rs, n')"
  shows "marks_grow (nodeDir n) (nodeDir n')"
  using assms(2)
proof (induction xs arbitrary: i n rs)
  case (Cons x xs)
  obtain r n1 where f: "f i x n = (r, n1)" by fastforce
  obtain rs2 n2 where g: "forEach f (Suc i) xs n1 = (rs2, n2)" by fastforce
  have "n2 = n'" using Cons.prems f g by simp
  then show ?case using assms(1) [OF f] Cons.IH [OF g [unfolded \<open>n2 = n'\<close>]] marks_grow_trans by blast
qed simp

lemma forEach_length: "forEach f i xs n = (rs, n') \<Longrightarrow> length rs = length xs"
  by (induction xs arbitrary: i n rs n') (auto split: prod.splits)

lemma nvmePrepareExport_step:
  "nvmePrepareExport reg ops io x t n = (r, n') \<Longrightarrow>
     fence_step (edVolumeID x) (nodeDir n) (nodeDir n')"
  by (auto simp: nvmePrepareExport_def dest: fenced_step split: prod.splits option.splits)

lemma nvmeLinkExport_dir:
  "nvmeLinkExport reg ops io x t n = (e, n') \<Longrightarrow> nodeDir n' = nodeDir n"
  by (auto simp: nvmeLinkExport_def dest: recheckFence_dir)

lemma nvmeReconcile_marks_grow:
  assumes "nvmeReconcile reg ops io1 io2 n desired = (errs, n')"
  shows "marks_grow (nodeDir n) (nodeDir n')"
proof -
  let ?prep = "\<lambda>i (x, t) m. case t of Inl e \<Rightarrow> (Inl e, m)
    | Inr target \<Rightarrow> nvmePrepareExport reg ops (io1 i) x target m"
  let ?link = "\<lambda>i (x, p) m. case p of Inl e \<Rightarrow> (Some e, m)
    | Inr target \<Rightarrow> nvmeLinkExport reg ops (io2 i) x target m"
  obtain ts prepared n1 where
      p: "forEach ?prep 0 (zip desired ts) n = (prepared, n1)"
    and l: "forEach ?link 0 (zip desired prepared) n1 = (errs, n')"
    using assms unfolding nvmeReconcile_def Let_def by (auto split: prod.splits)
  have "marks_grow (nodeDir n) (nodeDir n1)"
    using p by (rule forEach_marks_grow [rotated])
      (auto split: sum.splits intro: fence_step_marks_grow [OF nvmePrepareExport_step])
  also have "marks_grow (nodeDir n1) (nodeDir n')"
    using l by (rule forEach_marks_grow [rotated])
      (auto split: sum.splits simp: nvmeLinkExport_dir)
  finally show ?thesis .
qed

section \<open>Port limits\<close>

text \<open>
  A floor is one of the requested limits of its endpoint and below every other: whichever
  export of a batch is linked first writes a limit all of them allow.
\<close>

lemma mdtsFloors_le:
  assumes "\<And>k f. map_of floors k = Some f \<Longrightarrow> f \<noteq> 0 \<and> ValidMaxDataTransferSize f"
    and "mdtsFloors ts floors = floors'"
  shows "(map_of floors k = Some f \<longrightarrow> (\<exists>g. map_of floors' k = Some g \<and> g \<le>s f)) \<and>
    (\<forall>t sz. Some t \<in> set ts \<and> mdtsEndpoint t = k \<and> ntMaxDataTransferSize t = Some sz \<and> sz \<noteq> 0 \<and>
       ValidMaxDataTransferSize sz \<longrightarrow> (\<exists>g. map_of floors' k = Some g \<and> g \<le>s sz))"
  using assms
proof (induction ts floors arbitrary: floors' f rule: mdtsFloors.induct)
  case (1 floors)
  then show ?case by (auto simp: word_sle_eq)
next
  case (2 t ts floors)
  let ?floors = "case t of None \<Rightarrow> floors | Some x \<Rightarrow>
       (case ntMaxDataTransferSize x of None \<Rightarrow> floors | Some sz \<Rightarrow>
          if sz = 0 \<or> \<not> ValidMaxDataTransferSize sz then floors
          else (case map_of floors (mdtsEndpoint x) of
                  Some cur \<Rightarrow> if sz <s cur then AList.update (mdtsEndpoint x) sz floors else floors
                | None \<Rightarrow> AList.update (mdtsEndpoint x) sz floors))"
  have valid: "\<And>k f. map_of ?floors k = Some f \<Longrightarrow> f \<noteq> 0 \<and> ValidMaxDataTransferSize f"
    using 2(2) by (auto simp: update_conv' split: option.splits if_splits)
  note IH = 2(1) [OF valid 2(3) [simplified]]
  have lower: "\<exists>g. map_of ?floors k = Some g \<and> g \<le>s f" if "map_of floors k = Some f"
    using that by (auto simp: update_conv' word_sle_eq word_sless_alt split: option.splits)
  have here: "\<exists>g. map_of ?floors k = Some g \<and> g \<le>s sz"
    if "t = Some x" "mdtsEndpoint x = k" "ntMaxDataTransferSize x = Some sz" "sz \<noteq> 0"
      "ValidMaxDataTransferSize sz" for x sz
    using that by (auto simp: update_conv' word_sle_eq word_sless_alt split: option.splits)
  show ?case
    using IH lower here by (fastforce simp: word_sle_eq)
qed

lemma setPortMDTSFloors_le:
  assumes "Some t \<in> set ts" "ntMaxDataTransferSize t = Some sz" "sz \<noteq> 0" "ValidMaxDataTransferSize sz"
  shows "\<exists>f. map_of (mdtsFloors ts []) (mdtsEndpoint t) = Some f \<and> f \<le>s sz"
  using mdtsFloors_le [of "[]" ts _ "mdtsEndpoint t"] assms by auto

section \<open>Properties\<close>


definition exTarget :: "int32 \<Rightarrow> nvmet_target" where
  "exTarget sz = \<lparr>ntSubsystemNQN = ''nqn'', ntDevicePath = ''/dev/a'', ntBindAddress = ''10.0.0.1'', ntPort = 0,
     ntAllowedHosts = [], ntACLEnabled = True, ntInlineDataSize = None, ntMaxDataTransferSize = Some sz,
     ntPortMDTSFloor = None, ntIdentity = None, ntLocalAttach = False\<rparr>"


end
