(* ===== verification/Agent_Volume.thy ===== *)
theory Agent_Volume
  imports Protocol_Handler
begin

text \<open>
  The volume RPCs of the agent: \<open>CreateVolume\<close>, \<open>DeleteVolume\<close> and \<open>ExpandVolume\<close> of
  \<open>internal/agent/server_volume.go\<close>, \<open>ImportVolume\<close> of \<open>server_import.go\<close> and
  \<open>ReleaseVolume\<close> of \<open>server_release.go\<close>. Requests that carry a filesystem adoption are handed
  to the functions of \<open>'w adopted_ops\<close>, which stand for \<open>server_filesystem.go\<close>; every other
  branch is the handler's own.
\<close>

section \<open>Requests\<close>

record create_request =
  crVolumeId :: string
  crBackendType :: backend_type
  crCapacityBytes :: int64
  crFence :: "fencing_token option"

record delete_request =
  drVolumeId :: string
  drBackendType :: backend_type
  drFence :: "fencing_token option"
  drFilesystemAdoption :: "filesystem_adoption option"

record expand_request =
  xrVolumeId :: string
  xrBackendType :: backend_type
  xrRequestedBytes :: int64
  xrFence :: "fencing_token option"

record import_request =
  irVolumeId :: string
  irBackendType :: backend_type
  irCapacityBytes :: int64
  irExpectedDataset :: string
  irExpectedLvmSource :: "lvm_identity option"
  irPreserveOriginal :: "bool option"
  irFence :: "fencing_token option"
  irFilesystemAdoption :: "filesystem_adoption option"

record release_request =
  rrVolumeId :: string
  rrProtocolType :: protocol_type
  rrFence :: "fencing_token option"
  rrFilesystemAdoption :: "filesystem_adoption option"

record 'w adopted_ops =
  adImport :: "import_request \<Rightarrow> 'w node \<Rightarrow> (string \<times> int64) result \<times> 'w node"
  adRelease :: "string \<Rightarrow> filesystem_adoption \<Rightarrow> fencing_token option \<Rightarrow> bool \<Rightarrow> 'w node \<Rightarrow>
    err \<times> 'w node"

section \<open>Create, delete, expand\<close>

definition refusePinnedCreate :: "fencing_mark \<Rightarrow> err" where
  "refusePinnedCreate stored = (if mLVMSource stored = None then None else Some FailedPrecondition)"

definition refusePreserved :: "fencing_mark \<Rightarrow> err" where
  "refusePreserved stored = (if mPreserveOriginal stored then Some FailedPrecondition else None)"

text \<open>A backend call as the mutation of a fenced section, with its error mapped.\<close>

definition backendMutation ::
    "(backend_error \<Rightarrow> grpc_code) \<Rightarrow> 'a \<Rightarrow> ('w \<Rightarrow> (backend_error + 'a) \<times> 'w) \<Rightarrow> ('w, 'a) mutation" where
  "backendMutation f init call w =
     (case call w of (Inl e, w') \<Rightarrow> ((Some (f e), init), w') | (Inr a, w') \<Rightarrow> ((None, a), w'))"

definition CreateVolume ::
    "'w registry \<Rightarrow> fence_io \<Rightarrow> 'w node \<Rightarrow> create_request \<Rightarrow> (string \<times> int64) result \<times> 'w node" where
  "CreateVolume reg io n req =
     (case backendForType reg (crVolumeId req) (crBackendType req) of
        Inl e \<Rightarrow> (Inl e, n)
      | Inr b \<Rightarrow>
     (case checkBackendType (crBackendType req) (bType b) of
        Some e \<Rightarrow> (Inl e, n)
      | None \<Rightarrow>
     (case fencedChecked reg io n (crVolumeId req) (crFence req) fenceGrant (Some b)
             (Some refusePinnedCreate) ([], 0)
             (Some (backendMutation createVolumeError ([], 0)
                (\<lambda>w. bCreate b w (crVolumeId req) (crCapacityBytes req)))) of
        ((Some e, _), n') \<Rightarrow> (Inl e, n')
      | ((None, created), n') \<Rightarrow> (Inr created, n'))))"

text \<open>A dataset's NFS export is withdrawn before the dataset is deleted.\<close>

definition withdrawNfsExport ::
    "'w registry \<Rightarrow> 'w target_ops \<Rightarrow> 'w backend \<Rightarrow> fence_io \<Rightarrow> 'w node \<Rightarrow> string \<Rightarrow>
     fencing_token option \<Rightarrow> err \<times> 'w node" where
  "withdrawNfsExport reg ops b io n v token =
     (if bType b \<noteq> BackendZfsDataset then (None, n)
      else if \<not> opNfsAvailable ops then (Some Unavailable, n)
      else handlerUnexport reg ops ProtocolNfs io n v token)"

definition DeleteVolume ::
    "'w registry \<Rightarrow> 'w target_ops \<Rightarrow> 'w adopted_ops \<Rightarrow> fence_io \<Rightarrow> fence_io \<Rightarrow> 'w node \<Rightarrow>
     delete_request \<Rightarrow> err \<times> 'w node" where
  "DeleteVolume reg ops ad ioUnexport io n req =
     (case drFilesystemAdoption req of
        Some a \<Rightarrow>
          if drBackendType req \<noteq> filesystemBackendType a then (Some InvalidArgument, n)
          else adRelease ad (drVolumeId req) a (drFence req) True n
      | None \<Rightarrow>
     (case backendForType reg (drVolumeId req) (drBackendType req) of
        Inl e \<Rightarrow> (Some e, n)
      | Inr b \<Rightarrow>
     (case checkBackendType (drBackendType req) (bType b) of
        Some e \<Rightarrow> (Some e, n)
      | None \<Rightarrow>
     (case withdrawNfsExport reg ops b ioUnexport n (drVolumeId req) (drFence req) of
        (Some e, n1) \<Rightarrow> (Some e, n1)
      | (None, n1) \<Rightarrow>
          map_prod fst id (fencedChecked reg io n1 (drVolumeId req) (drFence req) fenceDestroy
            (Some b) (Some refusePreserved) ()
            (Some (\<lambda>w. case bDelete b w (drVolumeId req) of
               (e, w') \<Rightarrow> ((map_option (\<lambda>_. InternalError) e, ()), w'))))))))"

text \<open>
  \<open>revalidateNamespace\<close> runs the nvmet resize on the volume's own subsystem; \<open>opResize\<close> stands
  for \<open>NvmetTarget.ResizeNamespace\<close>.
\<close>

definition revalidateNamespace ::
    "(string \<Rightarrow> 'w target_change) \<Rightarrow> string \<Rightarrow> 'w \<Rightarrow> err \<times> 'w" where
  "revalidateNamespace opResize v w =
     (case nvmeTargetID v of
        Inl _ \<Rightarrow> (Some InternalError, w)
      | Inr nqn \<Rightarrow> (case opResize nqn w of (e, w') \<Rightarrow> (map_option (\<lambda>_. InternalError) e, w')))"

fun expandVolumeError :: "backend_error \<Rightarrow> grpc_code" where
  "expandVolumeError InsufficientCapacityError = ResourceExhausted"
| "expandVolumeError _ = InternalError"

definition ExpandVolume ::
    "'w registry \<Rightarrow> (string \<Rightarrow> 'w target_change) \<Rightarrow> fence_io \<Rightarrow> 'w node \<Rightarrow> expand_request \<Rightarrow>
     int64 result \<times> 'w node" where
  "ExpandVolume reg opResize io n req =
     (case backendForType reg (xrVolumeId req) (xrBackendType req) of
        Inl e \<Rightarrow> (Inl e, n)
      | Inr b \<Rightarrow>
     (case checkBackendType (xrBackendType req) (bType b) of
        Some e \<Rightarrow> (Inl e, n)
      | None \<Rightarrow>
     (case fencedChecked reg io n (xrVolumeId req) (xrFence req) fenceGrant (Some b)
             (Some refusePreserved) 0
             (Some (\<lambda>w.
                case bExpand b w (xrVolumeId req) (xrRequestedBytes req) of
                  (Inl e, w1) \<Rightarrow> ((Some (expandVolumeError e), 0), w1)
                | (Inr allocated, w1) \<Rightarrow>
                    if bType b = BackendZfsDataset then ((None, allocated), w1)
                    else (case revalidateNamespace opResize (xrVolumeId req) w1 of
                            (e, w2) \<Rightarrow> ((e, allocated), w2)))) of
        ((Some e, _), n') \<Rightarrow> (Inl e, n')
      | ((None, allocated), n') \<Rightarrow> (Inr allocated, n'))))"

section \<open>Import\<close>

definition completeLvmSource :: "lvm_identity \<Rightarrow> bool" where
  "completeLvmSource s \<longleftrightarrow>
     VolumeGroup s \<noteq> [] \<and> LogicalVolume s \<noteq> [] \<and> VolumeGroupUUID s \<noteq> [] \<and>
     LogicalVolumeUUID s \<noteq> []"

definition importLV ::
    "fence_io \<Rightarrow> 'w node \<Rightarrow> import_request \<Rightarrow> 'w backend \<Rightarrow> (string \<times> int64) result \<times> 'w node" where
  "importLV io n req b =
     (case irExpectedLvmSource req of
        None \<Rightarrow> (Inl InvalidArgument, n)
      | Some src \<Rightarrow>
          if \<not> completeLvmSource src then (Inl InvalidArgument, n)
          else if irExpectedDataset req \<noteq> [] then (Inl InvalidArgument, n)
          else (case bImportLV b of
             None \<Rightarrow> (Inl Unimplemented, n)
           | Some importer \<Rightarrow>
              (case fencedImport io n (irVolumeId req) (irFence req) (Some src)
                      (irPreserveOriginal req = None \<or> irPreserveOriginal req = Some True) ([], 0)
                      (Some (backendMutation importVolumeError ([], 0)
                         (\<lambda>w. (importer w (irVolumeId req) (irCapacityBytes req) src, w)))) of
                 ((Some e, _), n') \<Rightarrow> (Inl e, n')
               | ((None, imported), n') \<Rightarrow> (Inr imported, n'))))"

definition ImportVolume ::
    "'w registry \<Rightarrow> 'w adopted_ops \<Rightarrow> fence_io \<Rightarrow> 'w node \<Rightarrow> import_request \<Rightarrow>
     (string \<times> int64) result \<times> 'w node" where
  "ImportVolume reg ad io n req =
     (if irFilesystemAdoption req \<noteq> None then
        (if irExpectedLvmSource req \<noteq> None then (Inl InvalidArgument, n)
         else adImport ad req n)
      else
     (case backendForType reg (irVolumeId req) (irBackendType req) of
        Inl e \<Rightarrow> (Inl e, n)
      | Inr b \<Rightarrow>
     (case checkBackendType (irBackendType req) (bType b) of
        Some e \<Rightarrow> (Inl e, n)
      | None \<Rightarrow>
          if bType b = BackendLvm then importLV io n req b
          else if irExpectedLvmSource req \<noteq> None then (Inl InvalidArgument, n)
          else (case bImport b of
             None \<Rightarrow> (Inl Unimplemented, n)
           | Some importer \<Rightarrow>
              (case fencedImport io n (irVolumeId req) (irFence req) None False ([], 0)
                      (Some (backendMutation importVolumeError ([], 0)
                         (\<lambda>w. (importer w (irVolumeId req) (irCapacityBytes req)
                                 (irExpectedDataset req), w)))) of
                 ((Some e, _), n') \<Rightarrow> (Inl e, n')
               | ((None, imported), n') \<Rightarrow> (Inr imported, n'))))))"

section \<open>Release\<close>

definition verifyPreservedIdle :: "'w registry \<Rightarrow> 'w \<Rightarrow> string \<Rightarrow> lvm_identity \<Rightarrow> err" where
  "verifyPreservedIdle reg w v pin =
     (case backendForType reg v BackendLvm of
        Inl _ \<Rightarrow> Some FailedPrecondition
      | Inr b \<Rightarrow>
     (case bInspectLV b of
        None \<Rightarrow> Some FailedPrecondition
      | Some inspector \<Rightarrow>
     (case inspector w v of
        Inl _ \<Rightarrow> Some FailedPrecondition
      | Inr obs \<Rightarrow>
          if obsIdentity obs \<noteq> pin \<or> \<not> obsActive obs \<or>
             obsExclusiveClaim obs \<noteq> ExclusiveClaimFree \<or>
             obsConsumers obs \<noteq> [] \<or> obsExports obs \<noteq> []
          then Some FailedPrecondition else None)))"

definition verifyPinnedRelease :: "'w registry \<Rightarrow> 'w \<Rightarrow> string \<Rightarrow> fencing_mark \<Rightarrow> err" where
  "verifyPinnedRelease reg w v stored =
     (case mLVMSource stored of
        None \<Rightarrow> None
      | Some pin \<Rightarrow>
          orElse (verifyPinnedSource reg w v stored)
            (if \<not> mPreserveOriginal stored then None else verifyPreservedIdle reg w v pin))"

text \<open>
  The loop of \<open>ReleaseVolume\<close>. Its \<open>for\<close> has no bound; it ends because \<open>retireFence\<close> reports
  an owner without an error only while \<open>unexported\<close> is false (\<open>retireFence_unexported\<close>). The
  faults of the \<open>i\<close>-th round are \<open>ioRetire i\<close> and \<open>ioUnexport i\<close>.
\<close>

function releaseLoop ::
    "'w registry \<Rightarrow> 'w target_ops \<Rightarrow> (bool \<Rightarrow> fence_io) \<Rightarrow> (bool \<Rightarrow> fence_io) \<Rightarrow>
     release_request \<Rightarrow> bool \<Rightarrow> 'w node \<Rightarrow> err \<times> 'w node" where
  "releaseLoop reg ops ioRetire ioUnexport req unexported n =
     (case retireFence (ioRetire unexported) n (rrVolumeId req) (rrFence req) unexported
             (Some (verifyPinnedRelease reg (nodeWorld n) (rrVolumeId req))) of
        ((owned, Some e), n1) \<Rightarrow> (Some e, n1)
      | ((False, None), n1) \<Rightarrow> (None, n1)
      | ((True, None), n1) \<Rightarrow>
         (case handlerUnexport reg ops (rrProtocolType req) (ioUnexport unexported) n1
                 (rrVolumeId req) (rrFence req) of
            (Some e, n2) \<Rightarrow> (Some e, n2)
          | (None, n2) \<Rightarrow> releaseLoop reg ops ioRetire ioUnexport req True n2))"
  by pat_completeness auto

termination
  by (relation "measure (\<lambda>(_, _, _, _, _, unexported, _). if unexported then 0 else 1)")
    (auto dest: retireFence_unexported [OF sym] split: if_splits)

declare releaseLoop.simps [simp del]

definition ReleaseVolume ::
    "'w registry \<Rightarrow> 'w target_ops \<Rightarrow> 'w adopted_ops \<Rightarrow> (bool \<Rightarrow> fence_io) \<Rightarrow> (bool \<Rightarrow> fence_io) \<Rightarrow>
     'w node \<Rightarrow> release_request \<Rightarrow> err \<times> 'w node" where
  "ReleaseVolume reg ops ad ioRetire ioUnexport n req =
     (case rrFilesystemAdoption req of
        Some a \<Rightarrow> adRelease ad (rrVolumeId req) a (rrFence req) False n
      | None \<Rightarrow> releaseLoop reg ops ioRetire ioUnexport req False n)"

section \<open>Steps of the fence\<close>

lemma CreateVolume_step:
  "CreateVolume reg io n req = (r, n') \<Longrightarrow> fence_step (crVolumeId req) (nodeDir n) (nodeDir n')"
  by (auto simp: CreateVolume_def dest: fencedChecked_step
      split: sum.splits option.splits prod.splits)

lemma ExpandVolume_step:
  "ExpandVolume reg rs io n req = (r, n') \<Longrightarrow> fence_step (xrVolumeId req) (nodeDir n) (nodeDir n')"
  unfolding ExpandVolume_def
  by (auto dest: fencedChecked_step split: sum.splits option.splits prod.splits)

lemma importLV_step:
  "importLV io n req b = (r, n') \<Longrightarrow> fence_step (irVolumeId req) (nodeDir n) (nodeDir n')"
  unfolding importLV_def
  by (auto dest: fencedImport_step split: sum.splits option.splits prod.splits if_splits)

lemma ImportVolume_step:
  "ImportVolume reg ad io n req = (r, n') \<Longrightarrow> irFilesystemAdoption req = None \<Longrightarrow>
     fence_step (irVolumeId req) (nodeDir n) (nodeDir n')"
  unfolding ImportVolume_def
  by (auto dest: fencedImport_step importLV_step split: sum.splits option.splits prod.splits if_splits)

text \<open>The part of \<open>DeleteVolume\<close> before its fenced section.\<close>

lemma DeleteVolume_cases [consumes 2, case_names refused deleted]:
  assumes "DeleteVolume reg ops ad ioU io n req = (e, n')" and "drFilesystemAdoption req = None"
  obtains "e \<noteq> None" "fence_step (drVolumeId req) (nodeDir n) (nodeDir n')"
    "(\<forall>b. backendForType reg (drVolumeId req) (drBackendType req) = Inr b \<longrightarrow> bType b \<noteq> BackendZfsDataset) \<Longrightarrow>
       n' = n"
  | b n1 where "backendForType reg (drVolumeId req) (drBackendType req) = Inr b"
    "fence_step (drVolumeId req) (nodeDir n) (nodeDir n1)" "bType b \<noteq> BackendZfsDataset \<Longrightarrow> n1 = n"
    "fencedChecked reg io n1 (drVolumeId req) (drFence req) fenceDestroy (Some b)
       (Some refusePreserved) () (Some (\<lambda>w. case bDelete b w (drVolumeId req) of
         (e, w') \<Rightarrow> ((map_option (\<lambda>_. InternalError) e, ()), w'))) = ((e, ()), n')"
proof (cases "backendForType reg (drVolumeId req) (drBackendType req)")
  case (Inl x)
  then show ?thesis using assms by (intro that(1)) (auto simp: DeleteVolume_def)
next
  case (Inr b)
  obtain pe n1 where pre: "withdrawNfsExport reg ops b ioU n (drVolumeId req) (drFence req) = (pe, n1)"
    by fastforce
  have step: "fence_step (drVolumeId req) (nodeDir n) (nodeDir n1)"
    using pre by (auto simp: withdrawNfsExport_def dest: handlerUnexport_step split: if_splits)
  have same: "bType b \<noteq> BackendZfsDataset \<Longrightarrow> n1 = n \<and> pe = None"
    using pre by (simp add: withdrawNfsExport_def)
  note delete = assms(1) [unfolded DeleteVolume_def assms(2) Inr, simplified option.case sum.case prod.case]
  show ?thesis
  proof (cases "checkBackendType (drBackendType req) (bType b)")
    case check: None
    show ?thesis
    proof (cases pe)
      case None
      then show ?thesis
        using delete same by (intro that(2) [OF Inr step]) (auto simp: check pre)
    next
      case (Some c)
      then show ?thesis
        using delete same step Inr by (intro that(1)) (auto simp: check pre)
    qed
  next
    case (Some c)
    then show ?thesis using delete by (intro that(1)) auto
  qed
qed

lemma DeleteVolume_step:
  assumes "DeleteVolume reg ops ad ioU io n req = (e, n')" and "drFilesystemAdoption req = None"
  shows "fence_step (drVolumeId req) (nodeDir n) (nodeDir n')"
  using assms
  by (cases rule: DeleteVolume_cases) (auto intro: fence_step_trans dest: fencedChecked_step)

lemma releaseLoop_step:
  "releaseLoop reg ops ioR ioU req unexported n = (e, n') \<Longrightarrow>
     fence_step (rrVolumeId req) (nodeDir n) (nodeDir n')"
proof (induction reg ops ioR ioU req unexported n arbitrary: e n' rule: releaseLoop.induct)
  case (1 reg ops ioR ioU req unexported n)
  obtain owned x n1 where r: "retireFence (ioR unexported) n (rrVolumeId req) (rrFence req) unexported
      (Some (verifyPinnedRelease reg (nodeWorld n) (rrVolumeId req))) = ((owned, x), n1)"
    by (metis prod.exhaust)
  have s1: "fence_step (rrVolumeId req) (nodeDir n) (nodeDir n1)" by (rule retireFence_step [OF r])
  show ?case
  proof (cases "x = None \<and> owned")
    case False
    then show ?thesis
      using 1(2) s1 by (auto simp: releaseLoop.simps [of reg] r split: option.splits bool.splits)
  next
    case True
    obtain y n2 where u: "handlerUnexport reg ops (rrProtocolType req) (ioU unexported) n1
        (rrVolumeId req) (rrFence req) = (y, n2)" by fastforce
    have s2: "fence_step (rrVolumeId req) (nodeDir n1) (nodeDir n2)" by (rule handlerUnexport_step [OF u])
    show ?thesis
    proof (cases y)
      case None
      then have "releaseLoop reg ops ioR ioU req True n2 = (e, n')"
        using 1(2) True by (simp add: releaseLoop.simps [of reg ops ioR ioU req unexported n] r u)
      then have "fence_step (rrVolumeId req) (nodeDir n2) (nodeDir n')"
        using 1(1) r u True None by simp
      then show ?thesis using s1 s2 fence_step_trans by blast
    next
      case (Some c)
      then show ?thesis using 1(2) True s1 s2 fence_step_trans by (auto simp: releaseLoop.simps [of reg] r u)
    qed
  qed
qed

end
