(* ===== verification/Recovery_Auth.thy ===== *)
theory Recovery_Auth
  imports Backend Sha256
begin

text \<open>
  The signed artifacts of ownership recovery, \<open>internal/recoveryauth/recoveryauth.go\<close>: the
  agent's \<open>RecoverySnapshot\<close>, the operator's \<open>RecoveryAuthorization\<close>, their digests, their
  verification and the time bounds they are held to.

  The deterministic protobuf encoding and the RSA and ECDSA primitives are not part of the
  repository: they are the functions of \<open>'k codec\<close>, and a key is of one of the two supported
  kinds or another. An instant is its number of nanoseconds since the epoch.
\<close>

section \<open>Artifacts\<close>

datatype recovery_error =
    ErrUnsupportedKeyType | ErrInvalidSignature | ErrExpired | ErrNotYetValid
  | ErrValidityWindowTooLong | ErrMissingField | ErrDigestMismatch | ErrIdentityMismatch
  | ErrKeyMismatch | ErrMalformed

record timestamp =
  tsSeconds :: int
  tsNanos :: int

definition CheckValid :: "timestamp \<Rightarrow> bool" where
  "CheckValid t \<longleftrightarrow> -62135596800 \<le> tsSeconds t \<and> tsSeconds t \<le> 253402300799 \<and>
     0 \<le> tsNanos t \<and> tsNanos t \<le> 999999999"

definition AsTime :: "timestamp \<Rightarrow> int" where
  "AsTime t = tsSeconds t * 1000000000 + tsNanos t"

text \<open>\<open>time.Time.Sub\<close> saturates at the bounds of a 64-bit duration.\<close>

definition timeSub :: "int \<Rightarrow> int \<Rightarrow> int" where
  "timeSub a b = max (- (2 ^ 63)) (min (2 ^ 63 - 1) (a - b))"

definition Second :: int where "Second = 1000000000"
definition Minute :: int where "Minute = 60 * Second"
definition Hour :: int where "Hour = 60 * Minute"

definition ClockSkew :: int where "ClockSkew = 2 * Minute"
definition MaxSnapshotAge :: int where "MaxSnapshotAge = 15 * Minute"
definition MaxAuthorizationLifetime :: int where "MaxAuthorizationLifetime = 24 * Hour"

lemmas time_bounds = ClockSkew_def MaxSnapshotAge_def MaxAuthorizationLifetime_def
  Hour_def Minute_def Second_def

record fence_observation =
  foExists :: bool
  foVolumeUid :: string
  foGeneration :: uint64
  foEnded :: bool
  foEndedUids :: "string list"
  foPreserveOriginal :: bool
  foLvmSource :: "lvm_identity option"
  foTransferAuthorizationDigest :: string
  foTransferFromUid :: string
  foTransferFromGeneration :: uint64
  foTransferToUid :: string
  foTransferToGeneration :: uint64

record export_observation =
  eoTargetId :: string
  eoNamespaceEnabled :: bool
  eoAclEnabled :: bool
  eoAllowedHosts :: "string list"

record recovery_snapshot =
  rsVolumeId :: string
  rsBackendType :: backend_type
  rsLvmSource :: "lvm_identity option"
  rsOldVolumeUid :: string
  rsOldGeneration :: uint64
  rsPreserveOriginal :: bool
  rsExclusiveClaim :: exclusive_claim
  rsConsumers :: "device_consumer list"
  rsExports :: "export_observation list"
  rsFence :: "fence_observation option"
  rsAgentIdentity :: string
  rsIssuedAt :: "timestamp option"
  rsSignature :: string

record recovery_authorization =
  raSnapshotDigest :: string
  raVolumeId :: string
  raBackendType :: backend_type
  raLvmSource :: "lvm_identity option"
  raOldVolumeUid :: string
  raOldGeneration :: uint64
  raNewVolumeUid :: string
  raNewGeneration :: uint64
  raPreserveOriginal :: "bool option"
  raIssuedAt :: "timestamp option"
  raExpiresAt :: "timestamp option"
  raSignature :: string

section \<open>Keys and codec\<close>

datatype 'k public_key = RSAPublicKey 'k | ECDSAPublicKey 'k | OtherPublicKey

record 'k codec =
  cdSnapshot :: "recovery_snapshot \<Rightarrow> string option"
  cdAuthorization :: "recovery_authorization \<Rightarrow> string option"
  cdVerify :: "'k public_key \<Rightarrow> string \<Rightarrow> string \<Rightarrow> bool"

record 'k signer =
  sgPublic :: "'k public_key"
  sgSign :: "string \<Rightarrow> string option"

record 'k certificate =
  ctCommonName :: string
  ctDNSNames :: "string list"
  ctPublicKey :: "'k public_key"

definition checkKeySupported :: "'k public_key \<Rightarrow> recovery_error option" where
  "checkKeySupported k =
     (case k of OtherPublicKey \<Rightarrow> Some ErrUnsupportedKeyType | _ \<Rightarrow> None)"

definition verifySignature ::
    "'k codec \<Rightarrow> 'k public_key \<Rightarrow> string \<Rightarrow> string \<Rightarrow> recovery_error option" where
  "verifySignature cd pub digest sig =
     (case checkKeySupported pub of
        Some e \<Rightarrow> Some e
      | None \<Rightarrow>
          if sig = [] then Some ErrMissingField
          else if cdVerify cd pub digest sig then None else Some ErrInvalidSignature)"

section \<open>Digests\<close>

definition DigestSize :: nat where
  "DigestSize = sha256_Size"

definition equalDigest :: "string \<Rightarrow> string \<Rightarrow> bool" where
  "equalDigest a b \<longleftrightarrow> length b = DigestSize \<and> a = b"

definition CanonicalSnapshotBytes ::
    "'k codec \<Rightarrow> recovery_snapshot option \<Rightarrow> recovery_error + string" where
  "CanonicalSnapshotBytes cd snap =
     (case snap of
        None \<Rightarrow> Inl ErrMissingField
      | Some s \<Rightarrow> (case cdSnapshot cd (s\<lparr>rsSignature := []\<rparr>) of
                    None \<Rightarrow> Inl ErrMalformed | Some b \<Rightarrow> Inr b))"

definition SnapshotDigest ::
    "'k codec \<Rightarrow> recovery_snapshot option \<Rightarrow> recovery_error + string" where
  "SnapshotDigest cd snap = map_sum id sha256 (CanonicalSnapshotBytes cd snap)"

definition CanonicalAuthorizationBytes ::
    "'k codec \<Rightarrow> recovery_authorization option \<Rightarrow> recovery_error + string" where
  "CanonicalAuthorizationBytes cd auth =
     (case auth of
        None \<Rightarrow> Inl ErrMissingField
      | Some a \<Rightarrow> (case cdAuthorization cd (a\<lparr>raSignature := []\<rparr>) of
                    None \<Rightarrow> Inl ErrMalformed | Some b \<Rightarrow> Inr b))"

definition AuthorizationDigest ::
    "'k codec \<Rightarrow> recovery_authorization option \<Rightarrow> recovery_error + string" where
  "AuthorizationDigest cd auth = map_sum id sha256 (CanonicalAuthorizationBytes cd auth)"

definition DigestHex :: "string \<Rightarrow> string" where
  "DigestHex d = hexEncode d"

definition ParseDigestHex :: "string \<Rightarrow> recovery_error + string" where
  "ParseDigestHex s =
     (case hexDecode s of
        None \<Rightarrow> Inl ErrMalformed
      | Some b \<Rightarrow> if length b \<noteq> DigestSize then Inl ErrMalformed else Inr b)"

section \<open>Signing\<close>

definition checkSignerSupported :: "'k signer option \<Rightarrow> recovery_error option" where
  "checkSignerSupported sg =
     (case sg of None \<Rightarrow> Some ErrMissingField | Some s \<Rightarrow> checkKeySupported (sgPublic s))"

text \<open>A failing signer returns an error outside the sentinels; \<open>None\<close> here.\<close>

definition SignSnapshot ::
    "'k codec \<Rightarrow> 'k signer option \<Rightarrow> recovery_snapshot option \<Rightarrow>
     recovery_error option + recovery_snapshot" where
  "SignSnapshot cd sg snap =
     (case checkSignerSupported sg of
        Some e \<Rightarrow> Inl (Some e)
      | None \<Rightarrow>
     (case CanonicalSnapshotBytes cd snap of
        Inl e \<Rightarrow> Inl (Some e)
      | Inr payload \<Rightarrow>
     (case sgSign (the sg) (sha256 payload) of
        None \<Rightarrow> Inl None
      | Some sig \<Rightarrow> Inr ((the snap)\<lparr>rsSignature := sig\<rparr>))))"

definition SignAuthorization ::
    "'k codec \<Rightarrow> 'k signer option \<Rightarrow> recovery_authorization option \<Rightarrow>
     recovery_error option + recovery_authorization" where
  "SignAuthorization cd sg auth =
     (case checkSignerSupported sg of
        Some e \<Rightarrow> Inl (Some e)
      | None \<Rightarrow>
     (case CanonicalAuthorizationBytes cd auth of
        Inl e \<Rightarrow> Inl (Some e)
      | Inr payload \<Rightarrow>
     (case sgSign (the sg) (sha256 payload) of
        None \<Rightarrow> Inl None
      | Some sig \<Rightarrow> Inr ((the auth)\<lparr>raSignature := sig\<rparr>))))"

section \<open>Verification\<close>

definition verifySnapshotFields :: "recovery_snapshot \<Rightarrow> recovery_error option" where
  "verifySnapshotFields s =
     (if rsVolumeId s = [] then Some ErrMissingField
      else if rsBackendType s \<noteq> BackendLvm then Some ErrMalformed
      else if rsLvmSource s = None then Some ErrMissingField
      else if rsOldVolumeUid s = [] then Some ErrMissingField
      else if rsAgentIdentity s = [] then Some ErrMissingField
      else (case rsIssuedAt s of
         None \<Rightarrow> Some ErrMissingField
       | Some issued \<Rightarrow>
          if \<not> CheckValid issued then Some ErrMalformed
          else (case rsFence s of
             None \<Rightarrow> None
           | Some f \<Rightarrow>
               if \<not> foExists f then None
               else if rsOldVolumeUid s \<noteq> foVolumeUid f then Some ErrMalformed
               else if rsOldGeneration s \<noteq> foGeneration f then Some ErrMalformed
               else None)))"

definition checkIssuedAt :: "int \<Rightarrow> int \<Rightarrow> recovery_error option" where
  "checkIssuedAt issued now =
     (if issued > now + ClockSkew then Some ErrNotYetValid
      else if issued < now + (- MaxSnapshotAge - ClockSkew) then Some ErrExpired
      else None)"

definition VerifySnapshot ::
    "'k codec \<Rightarrow> recovery_snapshot option \<Rightarrow> 'k public_key \<Rightarrow> int \<Rightarrow> recovery_error option" where
  "VerifySnapshot cd snap pub now =
     (case checkKeySupported pub of
        Some e \<Rightarrow> Some e
      | None \<Rightarrow>
     (case snap of
        None \<Rightarrow> Some ErrMissingField
      | Some s \<Rightarrow>
          orElse (verifySnapshotFields s)
         (orElse (checkIssuedAt (AsTime (the (rsIssuedAt s))) now)
            (case CanonicalSnapshotBytes cd snap of
               Inl e \<Rightarrow> Some e
             | Inr payload \<Rightarrow> verifySignature cd pub (sha256 payload) (rsSignature s)))))"

definition certificateIdentity :: "'k certificate \<Rightarrow> string" where
  "certificateIdentity c =
     (if ctCommonName c \<noteq> [] then ctCommonName c
      else case ctDNSNames c of [] \<Rightarrow> [] | d # _ \<Rightarrow> d)"

definition VerifySnapshotWithCertificate ::
    "'k codec \<Rightarrow> recovery_snapshot option \<Rightarrow> 'k certificate option \<Rightarrow> int \<Rightarrow> recovery_error option" where
  "VerifySnapshotWithCertificate cd snap cert now =
     (case cert of
        None \<Rightarrow> Some ErrMissingField
      | Some c \<Rightarrow>
          orElse
            (case snap of
               None \<Rightarrow> None
             | Some s \<Rightarrow>
                 if certificateIdentity c = [] then Some ErrMalformed
                 else if rsAgentIdentity s \<noteq> certificateIdentity c then Some ErrIdentityMismatch
                 else None)
            (VerifySnapshot cd snap (ctPublicKey c) now))"

definition verifyAuthorizationFields :: "recovery_authorization \<Rightarrow> recovery_error option" where
  "verifyAuthorizationFields a =
     (if length (raSnapshotDigest a) \<noteq> DigestSize then Some ErrMalformed
      else if raVolumeId a = [] then Some ErrMissingField
      else if raBackendType a \<noteq> BackendLvm then Some ErrMalformed
      else if raLvmSource a = None then Some ErrMissingField
      else if raOldVolumeUid a = [] then Some ErrMissingField
      else if raNewVolumeUid a = [] then Some ErrMissingField
      else if raNewVolumeUid a = raOldVolumeUid a then Some ErrMalformed
      else if raPreserveOriginal a = None then Some ErrMissingField
      else (case raIssuedAt a of
         None \<Rightarrow> Some ErrMissingField
       | Some issued \<Rightarrow>
      (case raExpiresAt a of
         None \<Rightarrow> Some ErrMissingField
       | Some expires \<Rightarrow>
          if \<not> CheckValid issued then Some ErrMalformed
          else if \<not> CheckValid expires then Some ErrMalformed
          else None)))"

definition checkValidityWindow :: "int \<Rightarrow> int \<Rightarrow> int \<Rightarrow> recovery_error option" where
  "checkValidityWindow issued expires now =
     (if \<not> expires > issued then Some ErrMalformed
      else if timeSub expires issued > MaxAuthorizationLifetime + ClockSkew
        then Some ErrValidityWindowTooLong
      else if issued > now + ClockSkew then Some ErrNotYetValid
      else if \<not> expires > now + (- ClockSkew) then Some ErrExpired
      else None)"

text \<open>The loop over the trust anchors: the first that verifies decides, otherwise the last error.\<close>

fun verifyAnyKey ::
    "'k codec \<Rightarrow> string \<Rightarrow> string \<Rightarrow> 'k public_key list \<Rightarrow> recovery_error option \<Rightarrow> recovery_error option" where
  "verifyAnyKey cd digest sig [] lastErr =
     (case lastErr of None \<Rightarrow> Some ErrInvalidSignature | Some e \<Rightarrow> Some e)"
| "verifyAnyKey cd digest sig (pub # keys) lastErr =
     (case checkKeySupported pub of
        Some e \<Rightarrow> verifyAnyKey cd digest sig keys (Some e)
      | None \<Rightarrow>
         (case verifySignature cd pub digest sig of
            None \<Rightarrow> None
          | Some e \<Rightarrow> verifyAnyKey cd digest sig keys (Some e)))"

definition VerifyAuthorization ::
    "'k codec \<Rightarrow> recovery_authorization option \<Rightarrow> 'k public_key list \<Rightarrow> int \<Rightarrow> recovery_error option" where
  "VerifyAuthorization cd auth keys now =
     (if keys = [] then Some ErrMissingField
      else (case auth of
        None \<Rightarrow> Some ErrMissingField
      | Some a \<Rightarrow>
          orElse (verifyAuthorizationFields a)
         (orElse (checkValidityWindow (AsTime (the (raIssuedAt a))) (AsTime (the (raExpiresAt a))) now)
            (case CanonicalAuthorizationBytes cd auth of
               Inl e \<Rightarrow> Some e
             | Inr payload \<Rightarrow> verifyAnyKey cd (sha256 payload) (raSignature a) keys None))))"

definition CheckAuthorizationMatchesSnapshot ::
    "'k codec \<Rightarrow> recovery_authorization option \<Rightarrow> recovery_snapshot option \<Rightarrow> recovery_error option" where
  "CheckAuthorizationMatchesSnapshot cd auth snap =
     (if auth = None \<or> snap = None then Some ErrMissingField
      else
        let a = the auth; s = the snap in
        (case SnapshotDigest cd snap of
           Inl e \<Rightarrow> Some e
         | Inr d \<Rightarrow>
             if \<not> equalDigest d (raSnapshotDigest a) then Some ErrDigestMismatch
             else if raVolumeId a \<noteq> rsVolumeId s \<or> raBackendType a \<noteq> rsBackendType s \<or>
                raOldVolumeUid a \<noteq> rsOldVolumeUid s \<or> raOldGeneration a \<noteq> rsOldGeneration s \<or>
                raLvmSource a \<noteq> rsLvmSource s
             then Some ErrMalformed else None))"

section \<open>Trust anchors\<close>

text \<open>
  A PEM file is the list of its decoded blocks; a block carries the key it parses to, \<open>None\<close>
  where parsing fails.
\<close>

datatype 'k pem_block = PublicKeyBlock "'k public_key option" | CertificateBlock "'k public_key option"
  | OtherBlock

fun collectKeys :: "'k pem_block list \<Rightarrow> 'k public_key list \<Rightarrow> recovery_error + 'k public_key list" where
  "collectKeys [] keys = Inr keys"
| "collectKeys (OtherBlock # bs) keys = collectKeys bs keys"
| "collectKeys (PublicKeyBlock None # bs) keys = Inl ErrMalformed"
| "collectKeys (CertificateBlock None # bs) keys = Inl ErrMalformed"
| "collectKeys (PublicKeyBlock (Some k) # bs) keys =
     (case checkKeySupported k of Some e \<Rightarrow> Inl e | None \<Rightarrow> collectKeys bs (keys @ [k]))"
| "collectKeys (CertificateBlock (Some k) # bs) keys =
     (case checkKeySupported k of Some e \<Rightarrow> Inl e | None \<Rightarrow> collectKeys bs (keys @ [k]))"

definition LoadPublicKeysPEM :: "'k pem_block list option \<Rightarrow> recovery_error + 'k public_key list" where
  "LoadPublicKeysPEM file =
     (case file of
        None \<Rightarrow> Inl ErrMalformed
      | Some blocks \<Rightarrow>
         (case collectKeys blocks [] of
            Inl e \<Rightarrow> Inl e
          | Inr keys \<Rightarrow> if keys = [] then Inl ErrMalformed else Inr keys))"

section \<open>What verification establishes\<close>

lemma verifySignature_None:
  "verifySignature cd pub digest sig = None \<longleftrightarrow>
     pub \<noteq> OtherPublicKey \<and> sig \<noteq> [] \<and> cdVerify cd pub digest sig"
  by (auto simp: verifySignature_def checkKeySupported_def split: public_key.splits)

lemma verifySignature_unsupported:
  "checkKeySupported pub = Some e \<Longrightarrow> verifySignature cd pub digest sig = Some e"
  by (simp add: verifySignature_def)

lemma verifyAnyKey_None:
  "verifyAnyKey cd digest sig keys lastErr = None \<longleftrightarrow>
     (\<exists>pub\<in>set keys. verifySignature cd pub digest sig = None)"
  by (induction cd digest sig keys lastErr rule: verifyAnyKey.induct)
    (auto simp: verifySignature_unsupported split: option.splits)

text \<open>The saturation of \<open>Sub\<close> never hides a window that is too long.\<close>

lemma timeSub_le: "0 \<le> c \<Longrightarrow> c < 2 ^ 63 - 1 \<Longrightarrow> timeSub a b \<le> c \<longleftrightarrow> a - b \<le> c"
  by (auto simp: timeSub_def)

lemma checkValidityWindow_None:
  "checkValidityWindow issued expires now = None \<longleftrightarrow>
     issued < expires \<and> expires - issued \<le> MaxAuthorizationLifetime + ClockSkew \<and>
     issued \<le> now + ClockSkew \<and> now - ClockSkew < expires"
proof -
  have "timeSub expires issued \<le> MaxAuthorizationLifetime + ClockSkew \<longleftrightarrow>
      expires - issued \<le> MaxAuthorizationLifetime + ClockSkew"
    by (rule timeSub_le) (simp_all add: time_bounds)
  then show ?thesis by (auto simp: checkValidityWindow_def)
qed

lemma checkIssuedAt_None:
  "checkIssuedAt issued now = None \<longleftrightarrow>
     issued \<le> now + ClockSkew \<and> now - MaxSnapshotAge - ClockSkew \<le> issued"
  by (auto simp: checkIssuedAt_def)

lemma verifyAuthorizationFields_None:
  "verifyAuthorizationFields a = None \<Longrightarrow>
     length (raSnapshotDigest a) = DigestSize \<and> raVolumeId a \<noteq> [] \<and> raBackendType a = BackendLvm \<and>
     raLvmSource a \<noteq> None \<and> raOldVolumeUid a \<noteq> [] \<and> raNewVolumeUid a \<noteq> [] \<and>
     raNewVolumeUid a \<noteq> raOldVolumeUid a \<and> raPreserveOriginal a \<noteq> None \<and>
     raIssuedAt a \<noteq> None \<and> raExpiresAt a \<noteq> None"
  by (auto simp: verifyAuthorizationFields_def split: if_splits option.splits)

lemma verifySnapshotFields_None:
  "verifySnapshotFields s = None \<Longrightarrow>
     rsVolumeId s \<noteq> [] \<and> rsBackendType s = BackendLvm \<and> rsLvmSource s \<noteq> None \<and>
     rsOldVolumeUid s \<noteq> [] \<and> rsAgentIdentity s \<noteq> [] \<and> rsIssuedAt s \<noteq> None"
  by (auto simp: verifySnapshotFields_def split: if_splits option.splits)

lemma VerifyAuthorization_None:
  assumes "VerifyAuthorization cd auth keys now = None"
  obtains a payload pub where "auth = Some a" "verifyAuthorizationFields a = None"
    "checkValidityWindow (AsTime (the (raIssuedAt a))) (AsTime (the (raExpiresAt a))) now = None"
    "cdAuthorization cd (a\<lparr>raSignature := []\<rparr>) = Some payload"
    "pub \<in> set keys" "pub \<noteq> OtherPublicKey" "cdVerify cd pub (sha256 payload) (raSignature a)"
  using assms
  by (auto simp: VerifyAuthorization_def CanonicalAuthorizationBytes_def verifyAnyKey_None
      verifySignature_None split: if_splits option.splits sum.splits)

lemma VerifySnapshot_None:
  assumes "VerifySnapshot cd snap pub now = None"
  obtains s payload where "snap = Some s" "verifySnapshotFields s = None"
    "checkIssuedAt (AsTime (the (rsIssuedAt s))) now = None"
    "cdSnapshot cd (s\<lparr>rsSignature := []\<rparr>) = Some payload"
    "pub \<noteq> OtherPublicKey" "cdVerify cd pub (sha256 payload) (rsSignature s)"
  using assms
  by (auto simp: VerifySnapshot_def CanonicalSnapshotBytes_def checkKeySupported_def
      verifySignature_None split: if_splits option.splits sum.splits public_key.splits)

text \<open>
  A snapshot that an authorization matches is the one the operator saw, if the encoding loses
  nothing and the digest has no collision between the two.
\<close>

lemma matches_binds:
  assumes "CheckAuthorizationMatchesSnapshot cd (Some a) (Some s) = None"
    and "CheckAuthorizationMatchesSnapshot cd (Some a) (Some t) = None"
    and "\<And>x y. sha256 x = sha256 y \<Longrightarrow> Some x = cdSnapshot cd (s\<lparr>rsSignature := []\<rparr>) \<Longrightarrow>
      Some y = cdSnapshot cd (t\<lparr>rsSignature := []\<rparr>) \<Longrightarrow> x = y"
    and "cdSnapshot cd (s\<lparr>rsSignature := []\<rparr>) = cdSnapshot cd (t\<lparr>rsSignature := []\<rparr>) \<Longrightarrow>
      s\<lparr>rsSignature := []\<rparr> = t\<lparr>rsSignature := []\<rparr>"
  shows "s\<lparr>rsSignature := []\<rparr> = t\<lparr>rsSignature := []\<rparr>"
proof -
  obtain x y where "cdSnapshot cd (s\<lparr>rsSignature := []\<rparr>) = Some x" "sha256 x = raSnapshotDigest a"
    "cdSnapshot cd (t\<lparr>rsSignature := []\<rparr>) = Some y" "sha256 y = raSnapshotDigest a"
    using assms(1,2)
    by (auto simp: CheckAuthorizationMatchesSnapshot_def SnapshotDigest_def CanonicalSnapshotBytes_def
        equalDigest_def Let_def split: if_splits option.splits sum.splits)
  then show ?thesis using assms(3) [of x y] assms(4) by simp
qed

lemma matches_fields:
  assumes "CheckAuthorizationMatchesSnapshot cd (Some a) (Some s) = None"
  shows "raVolumeId a = rsVolumeId s \<and> raBackendType a = rsBackendType s \<and>
    raOldVolumeUid a = rsOldVolumeUid s \<and> raOldGeneration a = rsOldGeneration s \<and>
    raLvmSource a = rsLvmSource s"
  using assms
  by (auto simp: CheckAuthorizationMatchesSnapshot_def Let_def split: if_splits sum.splits)

lemma signed_snapshot_verifies:
  assumes "SignSnapshot cd (Some sg) (Some s) = Inr s'"
    and "\<And>d sig. sgSign sg d = Some sig \<Longrightarrow> sig \<noteq> [] \<and> cdVerify cd (sgPublic sg) d sig"
    and "verifySnapshotFields s = None" "checkIssuedAt (AsTime (the (rsIssuedAt s))) now = None"
  shows "VerifySnapshot cd (Some s') (sgPublic sg) now = None"
proof -
  have "sgPublic sg \<noteq> OtherPublicKey"
    using assms(1) by (auto simp: SignSnapshot_def checkSignerSupported_def checkKeySupported_def)
  moreover obtain payload sig where "cdSnapshot cd (s\<lparr>rsSignature := []\<rparr>) = Some payload"
      "sgSign sg (sha256 payload) = Some sig" "s' = s\<lparr>rsSignature := sig\<rparr>"
    using assms(1)
    by (auto simp: SignSnapshot_def CanonicalSnapshotBytes_def split: option.splits sum.splits)
  ultimately show ?thesis
    using assms(2-4)
    by (auto simp: VerifySnapshot_def CanonicalSnapshotBytes_def verifySignature_None
        checkKeySupported_def verifySnapshotFields_def split: option.splits public_key.splits if_splits)
qed

lemma collectKeys_supported:
  "collectKeys bs keys = Inr ks \<Longrightarrow> OtherPublicKey \<notin> set keys \<Longrightarrow> OtherPublicKey \<notin> set ks"
  by (induction bs keys rule: collectKeys.induct)
    (auto simp: checkKeySupported_def split: option.splits public_key.splits)

lemma ParseDigestHex_DigestHex:
  "ParseDigestHex (DigestHex d) = (if length d = DigestSize then Inr d else Inl ErrMalformed)"
  by (simp add: ParseDigestHex_def DigestHex_def)

end
