(* ===== verification/Ownership_Transfer.thy ===== *)
theory Ownership_Transfer
  imports Fence Recovery_Auth
begin

text \<open>
  Ownership recovery on the agent, \<open>internal/agent/server_recovery.go\<close>: a volume's fencing mark
  moves to the lifecycle an operator authorized, after the live observation of the storage node
  proves that the recorded owner stopped. \<open>ownExports\<close> stands for \<open>inspectOwnExports\<close> of
  \<open>server_inspect.go\<close>, which reads the agent's own exports from configfs.
\<close>

record 'k recovery_config =
  rcSigner :: "'k signer option"
  rcCert :: "'k certificate option"
  rcAnchors :: "'k public_key list"

record transfer_request =
  tqSnapshot :: "recovery_snapshot option"
  tqAuthorization :: "recovery_authorization option"

datatype transfer_outcome = OutcomeCommitted | OutcomeAlreadyCommitted | OutcomeUnknown

type_synonym 'w own_exports = "'w \<Rightarrow> string \<Rightarrow> export_observation list option"

section \<open>Configuration and status\<close>

definition recoveryConfigured :: "'k recovery_config \<Rightarrow> bool" where
  "recoveryConfigured rc \<longleftrightarrow> rcSigner rc \<noteq> None \<and> rcCert rc \<noteq> None \<and> rcAnchors rc \<noteq> []"

definition RecoveryAgentIdentity :: "'k certificate option \<Rightarrow> string" where
  "RecoveryAgentIdentity cert = (case cert of None \<Rightarrow> [] | Some c \<Rightarrow> certificateIdentity c)"

definition recoveryIdentity :: "'k recovery_config \<Rightarrow> string" where
  "recoveryIdentity rc = RecoveryAgentIdentity (rcCert rc)"

fun recoveryStatus :: "recovery_error \<Rightarrow> grpc_code" where
  "recoveryStatus ErrInvalidSignature = Unauthenticated"
| "recoveryStatus ErrUnsupportedKeyType = Unauthenticated"
| "recoveryStatus ErrIdentityMismatch = Unauthenticated"
| "recoveryStatus ErrKeyMismatch = Unauthenticated"
| "recoveryStatus ErrMalformed = InvalidArgument"
| "recoveryStatus ErrMissingField = InvalidArgument"
| "recoveryStatus ErrDigestMismatch = InvalidArgument"
| "recoveryStatus _ = FailedPrecondition"

section \<open>Checks\<close>

definition checkTransferRequest :: "'k recovery_config \<Rightarrow> bool \<Rightarrow> transfer_request \<Rightarrow> err" where
  "checkTransferRequest rc verifiedPeer req =
     (if \<not> verifiedPeer then Some Unauthenticated
      else if \<not> recoveryConfigured rc \<or> recoveryIdentity rc = [] then Some Unavailable
      else (case (tqSnapshot req, tqAuthorization req) of
              (Some s, Some a) \<Rightarrow>
                if rsVolumeId s = [] \<or> rsVolumeId s \<noteq> raVolumeId a then Some InvalidArgument else None
            | _ \<Rightarrow> Some InvalidArgument))"

definition checkCommittedTransferRetry ::
    "mark_transfer option \<Rightarrow> recovery_authorization \<Rightarrow> string \<Rightarrow> err" where
  "checkCommittedTransferRetry tr a authDigestHex =
     (case tr of
        None \<Rightarrow> Some FailedPrecondition
      | Some t \<Rightarrow>
          if trAuthorizationDigest t \<noteq> authDigestHex then Some FailedPrecondition
          else if trToUID t \<noteq> raNewVolumeUid a \<or> trToGeneration t \<noteq> raNewGeneration a \<or>
             trFromUID t \<noteq> raOldVolumeUid a \<or> trFromGeneration t \<noteq> raOldGeneration a
          then Some FailedPrecondition else None)"

definition verifyTransferSignatures ::
    "'k codec \<Rightarrow> 'k recovery_config \<Rightarrow> recovery_snapshot \<Rightarrow> recovery_authorization \<Rightarrow> int \<Rightarrow> err" where
  "verifyTransferSignatures cd rc s a now =
     map_option recoveryStatus
       (orElse (VerifySnapshotWithCertificate cd (Some s) (rcCert rc) now)
       (orElse (VerifyAuthorization cd (Some a) (rcAnchors rc) now)
          (CheckAuthorizationMatchesSnapshot cd (Some a) (Some s))))"

definition exportAdmitsInitiators :: "export_observation \<Rightarrow> bool" where
  "exportAdmitsInitiators x \<longleftrightarrow>
     eoNamespaceEnabled x \<and> (\<not> eoAclEnabled x \<or> eoAllowedHosts x \<noteq> [])"

definition verifyTransferEvidence ::
    "'w registry \<Rightarrow> 'w own_exports \<Rightarrow> 'w \<Rightarrow> string \<Rightarrow> lvm_identity \<Rightarrow> err" where
  "verifyTransferEvidence reg ownExports w v pin =
     (case backendForType reg v BackendLvm of
        Inl _ \<Rightarrow> Some FailedPrecondition
      | Inr b \<Rightarrow>
     (case bInspectLV b of
        None \<Rightarrow> Some FailedPrecondition
      | Some inspector \<Rightarrow>
     (case inspector w v of
        Inl _ \<Rightarrow> Some FailedPrecondition
      | Inr obs \<Rightarrow>
          if \<exists>x\<in>set (obsExports obs). consumerDetail x \<notin> set (ownTargetIDs v) then Some FailedPrecondition
          else if obsIdentity obs \<noteq> pin then Some FailedPrecondition
          else if \<not> obsActive obs then Some FailedPrecondition
          else if obsExclusiveClaim obs \<noteq> ExclusiveClaimFree then Some FailedPrecondition
          else if obsConsumers obs \<noteq> [] then Some FailedPrecondition
          else (case ownExports w v of
             None \<Rightarrow> Some FailedPrecondition
           | Some xs \<Rightarrow>
               if \<exists>x\<in>set xs. exportAdmitsInitiators x then Some FailedPrecondition else None))))"

definition transferAdmittedMark ::
    "'w registry \<Rightarrow> 'w own_exports \<Rightarrow> 'w \<Rightarrow> string \<Rightarrow> fencing_mark \<Rightarrow> recovery_snapshot \<Rightarrow>
     recovery_authorization \<Rightarrow> fencing_mark result" where
  "transferAdmittedMark reg ownExports w v stored s a =
     (let preserve = (raPreserveOriginal a = Some True) in
      if mEnded stored then Inl FailedPrecondition
      else if mVolumeUID stored \<noteq> raOldVolumeUid a then Inl FailedPrecondition
      else if mGeneration stored \<noteq> raOldGeneration a then Inl FailedPrecondition
      else if raNewVolumeUid a \<in> set (mEndedUIDs stored) then Inl FailedPrecondition
      else (case mLVMSource stored of
         None \<Rightarrow> Inl FailedPrecondition
       | Some pin \<Rightarrow>
          if raLvmSource a \<noteq> Some pin then Inl FailedPrecondition
          else if rsOldVolumeUid s \<noteq> mVolumeUID stored \<or> rsOldGeneration s \<noteq> mGeneration stored
            then Inl FailedPrecondition
          else if mPreserveOriginal stored \<and> \<not> preserve then Inl FailedPrecondition
          else if rsPreserveOriginal s \<noteq> mPreserveOriginal stored then Inl FailedPrecondition
          else (case verifyTransferEvidence reg ownExports w v pin of
             Some e \<Rightarrow> Inl e
           | None \<Rightarrow>
               Inr (zero_mark\<lparr>mVolumeUID := raNewVolumeUid a, mGeneration := raNewGeneration a,
                 mEndedUIDs := (if mVolumeUID stored \<in> set (mEndedUIDs stored) then mEndedUIDs stored
                                else mEndedUIDs stored @ [mVolumeUID stored]),
                 mLVMSource := mLVMSource stored,
                 mPreserveOriginal := mPreserveOriginal stored \<or> preserve\<rparr>))))"

section \<open>The transfer\<close>

definition TransferVolumeOwnership ::
    "'w registry \<Rightarrow> 'w own_exports \<Rightarrow> 'k codec \<Rightarrow> 'k recovery_config \<Rightarrow> fence_io \<Rightarrow> bool \<Rightarrow> int \<Rightarrow>
     'w node \<Rightarrow> transfer_request \<Rightarrow> (transfer_outcome \<times> string) result \<times> 'w node" where
  "TransferVolumeOwnership reg ownExports cd rc io verifiedPeer now n req =
     (case checkTransferRequest rc verifiedPeer req of
        Some e \<Rightarrow> (Inl e, n)
      | None \<Rightarrow>
     let s = the (tqSnapshot req); a = the (tqAuthorization req); v = rsVolumeId s in
     (case AuthorizationDigest cd (Some a) of
        Inl _ \<Rightarrow> (Inl InternalError, n)
      | Inr digest \<Rightarrow>
     (case readFencingMark (ioRead io) (nodeDir n) v of
        Inl e \<Rightarrow> (Inl e, n)
      | Inr (stored, exists) \<Rightarrow>
          if \<not> exists then (Inl FailedPrecondition, n)
          else if mVolumeUID stored = raNewVolumeUid a then
            (case checkCommittedTransferRetry (mTransfer stored) a (DigestHex digest) of
               Some e \<Rightarrow> (Inl e, n)
             | None \<Rightarrow>
                (case writeFencingMarkOutcome (ioWrite io) (nodeDir n) v stored of
                   ((_, Some _), d) \<Rightarrow> (Inr (OutcomeUnknown, digest), n\<lparr>nodeDir := d\<rparr>)
                 | ((_, None), d) \<Rightarrow> (Inr (OutcomeAlreadyCommitted, digest), n\<lparr>nodeDir := d\<rparr>)))
          else (case verifyTransferSignatures cd rc s a now of
             Some e \<Rightarrow> (Inl e, n)
           | None \<Rightarrow>
          (case transferAdmittedMark reg ownExports (nodeWorld n) v stored s a of
             Inl e \<Rightarrow> (Inl e, n)
           | Inr newMark \<Rightarrow>
               let next = newMark\<lparr>mTransfer := Some \<lparr>trAuthorizationDigest = DigestHex digest,
                     trFromUID = mVolumeUID stored, trFromGeneration = mGeneration stored,
                     trToUID = raNewVolumeUid a, trToGeneration = raNewGeneration a\<rparr>\<rparr> in
               (case writeFencingMarkOutcome (ioWrite io) (nodeDir n) v next of
                  ((_, None), d) \<Rightarrow> (Inr (OutcomeCommitted, digest), n\<lparr>nodeDir := d\<rparr>)
                | ((True, Some _), d) \<Rightarrow> (Inr (OutcomeUnknown, digest), n\<lparr>nodeDir := d\<rparr>)
                | ((False, Some e), d) \<Rightarrow> (Inl e, n\<lparr>nodeDir := d\<rparr>)))))))"

section \<open>The snapshot of an inspection\<close>

definition fenceObservation :: "fencing_mark \<Rightarrow> bool \<Rightarrow> fence_observation" where
  "fenceObservation stored exists =
     (if \<not> exists then \<lparr>foExists = False, foVolumeUid = [], foGeneration = 0, foEnded = False,
        foEndedUids = [], foPreserveOriginal = False, foLvmSource = None,
        foTransferAuthorizationDigest = [], foTransferFromUid = [], foTransferFromGeneration = 0,
        foTransferToUid = [], foTransferToGeneration = 0\<rparr>
      else
        let o1 = \<lparr>foExists = True, foVolumeUid = mVolumeUID stored, foGeneration = mGeneration stored,
              foEnded = mEnded stored, foEndedUids = mEndedUIDs stored,
              foPreserveOriginal = mPreserveOriginal stored, foLvmSource = mLVMSource stored,
              foTransferAuthorizationDigest = [], foTransferFromUid = [],
              foTransferFromGeneration = 0, foTransferToUid = [], foTransferToGeneration = 0\<rparr>
        in case mTransfer stored of
             None \<Rightarrow> o1
           | Some t \<Rightarrow> o1\<lparr>foTransferAuthorizationDigest := trAuthorizationDigest t,
                foTransferFromUid := trFromUID t, foTransferFromGeneration := trFromGeneration t,
                foTransferToUid := trToUID t, foTransferToGeneration := trToGeneration t\<rparr>)"

definition recoverySnapshot ::
    "'k codec \<Rightarrow> 'k recovery_config \<Rightarrow> bool \<Rightarrow> timestamp \<Rightarrow> string \<Rightarrow> fencing_mark \<Rightarrow> bool \<Rightarrow>
     lv_observation \<Rightarrow> device_consumer list \<Rightarrow> export_observation list \<Rightarrow> recovery_snapshot option" where
  "recoverySnapshot cd rc verifiedPeer now v stored exists obs consumers exports =
     (if \<not> recoveryConfigured rc \<or> \<not> verifiedPeer \<or> \<not> exists \<or> mEnded stored \<or>
         mLVMSource stored = None then None
      else if recoveryIdentity rc = [] \<or> Some (obsIdentity obs) \<noteq> mLVMSource stored then None
      else (case SignSnapshot cd (rcSigner rc)
              (Some \<lparr>rsVolumeId = v, rsBackendType = BackendLvm, rsLvmSource = mLVMSource stored,
                rsOldVolumeUid = mVolumeUID stored, rsOldGeneration = mGeneration stored,
                rsPreserveOriginal = mPreserveOriginal stored,
                rsExclusiveClaim = obsExclusiveClaim obs, rsConsumers = consumers,
                rsExports = exports, rsFence = Some (fenceObservation stored exists),
                rsAgentIdentity = recoveryIdentity rc, rsIssuedAt = Some now, rsSignature = []\<rparr>) of
              Inl _ \<Rightarrow> None
            | Inr s \<Rightarrow> Some s))"

section \<open>What a transfer establishes\<close>

lemma transferAdmittedMark_le:
  assumes "transferAdmittedMark reg ox w v stored s a = Inr m" "mVolumeUID stored \<noteq> raNewVolumeUid a"
  shows "fence_le stored (m\<lparr>mTransfer := t\<rparr>)"
  using assms
  by (auto simp: transferAdmittedMark_def Let_def fence_le_def split: if_splits option.splits)

text \<open>The part under the fencing lock, once a mark was read that another lifecycle owns.\<close>

lemma Transfer_move:
  assumes "TransferVolumeOwnership reg ox cd rc io peer now n req = (r, n')"
    and req: "tqSnapshot req = Some s" "tqAuthorization req = Some a"
      "checkTransferRequest rc peer req = None" "AuthorizationDigest cd (Some a) = Inr digest"
    and read: "readFencingMark (ioRead io) (nodeDir n) (rsVolumeId s) = Inr (stored, True)"
    and other: "mVolumeUID stored \<noteq> raNewVolumeUid a"
  obtains e where "r = Inl e" "n' = n"
  | "next" wr we where "verifyTransferSignatures cd rc s a now = None"
      "transferAdmittedMark reg ox (nodeWorld n) (rsVolumeId s) stored s a = Inr next"
      "writeFencingMarkOutcome (ioWrite io) (nodeDir n) (rsVolumeId s)
         (next\<lparr>mTransfer := Some \<lparr>trAuthorizationDigest = DigestHex digest,
            trFromUID = mVolumeUID stored, trFromGeneration = mGeneration stored,
            trToUID = raNewVolumeUid a, trToGeneration = raNewGeneration a\<rparr>\<rparr>) = ((wr, we), nodeDir n')"
      "nodeWorld n' = nodeWorld n"
      "r = (case we of None \<Rightarrow> Inr (OutcomeCommitted, digest)
            | Some e \<Rightarrow> if wr then Inr (OutcomeUnknown, digest) else Inl e)"
proof (cases "verifyTransferSignatures cd rc s a now")
  case (Some e)
  then show ?thesis
    using assms by (intro that(1)) (auto simp: TransferVolumeOwnership_def)
next
  case sig: None
  show ?thesis
  proof (cases "transferAdmittedMark reg ox (nodeWorld n) (rsVolumeId s) stored s a")
    case (Inl e)
    then show ?thesis
      using assms sig by (intro that(1)) (auto simp: TransferVolumeOwnership_def)
  next
    case adm: (Inr "next")
    let ?next = "next\<lparr>mTransfer := Some \<lparr>trAuthorizationDigest = DigestHex digest,
            trFromUID = mVolumeUID stored, trFromGeneration = mGeneration stored,
            trToUID = raNewVolumeUid a, trToGeneration = raNewGeneration a\<rparr>\<rparr>"
    obtain wr we d where w: "writeFencingMarkOutcome (ioWrite io) (nodeDir n) (rsVolumeId s) ?next = ((wr, we), d)"
      by (metis prod.exhaust)
    have "TransferVolumeOwnership reg ox cd rc io peer now n req =
        (case we of None \<Rightarrow> Inr (OutcomeCommitted, digest)
         | Some e \<Rightarrow> if wr then Inr (OutcomeUnknown, digest) else Inl e, n\<lparr>nodeDir := d\<rparr>)"
      using other
      by (simp add: TransferVolumeOwnership_def Let_def req read adm sig w split: option.split bool.split)
    then show ?thesis
      using assms(1) w by (intro that(2) [OF sig adm]) simp_all
  qed
qed

lemma TransferVolumeOwnership_cases [consumes 1, case_names refused retried moved]:
  assumes "TransferVolumeOwnership reg ox cd rc io peer now n req = (r, n')"
  obtains e where "r = Inl e" "n' = n"
  | s a digest stored wr we where "tqSnapshot req = Some s" "tqAuthorization req = Some a"
      "checkTransferRequest rc peer req = None" "AuthorizationDigest cd (Some a) = Inr digest"
      "readFencingMark (ioRead io) (nodeDir n) (rsVolumeId s) = Inr (stored, True)"
      "mVolumeUID stored = raNewVolumeUid a"
      "checkCommittedTransferRetry (mTransfer stored) a (DigestHex digest) = None"
      "writeFencingMarkOutcome (ioWrite io) (nodeDir n) (rsVolumeId s) stored = ((wr, we), nodeDir n')"
      "nodeWorld n' = nodeWorld n"
      "r = Inr (if we = None then OutcomeAlreadyCommitted else OutcomeUnknown, digest)"
  | s a digest stored "next" wr we where "tqSnapshot req = Some s" "tqAuthorization req = Some a"
      "checkTransferRequest rc peer req = None" "AuthorizationDigest cd (Some a) = Inr digest"
      "readFencingMark (ioRead io) (nodeDir n) (rsVolumeId s) = Inr (stored, True)"
      "mVolumeUID stored \<noteq> raNewVolumeUid a"
      "verifyTransferSignatures cd rc s a now = None"
      "transferAdmittedMark reg ox (nodeWorld n) (rsVolumeId s) stored s a = Inr next"
      "writeFencingMarkOutcome (ioWrite io) (nodeDir n) (rsVolumeId s)
         (next\<lparr>mTransfer := Some \<lparr>trAuthorizationDigest = DigestHex digest,
            trFromUID = mVolumeUID stored, trFromGeneration = mGeneration stored,
            trToUID = raNewVolumeUid a, trToGeneration = raNewGeneration a\<rparr>\<rparr>) = ((wr, we), nodeDir n')"
      "nodeWorld n' = nodeWorld n"
      "r = (case we of None \<Rightarrow> Inr (OutcomeCommitted, digest)
            | Some e \<Rightarrow> if wr then Inr (OutcomeUnknown, digest) else Inl e)"
proof (cases "checkTransferRequest rc peer req")
  case (Some e)
  then show ?thesis using assms that(1) by (auto simp: TransferVolumeOwnership_def)
next
  case chk: None
  then obtain s a where sa: "tqSnapshot req = Some s" "tqAuthorization req = Some a"
    by (auto simp: checkTransferRequest_def split: if_splits option.splits)
  consider (none) "\<And>digest stored. AuthorizationDigest cd (Some a) = Inr digest \<Longrightarrow>
      readFencingMark (ioRead io) (nodeDir n) (rsVolumeId s) \<noteq> Inr (stored, True)"
    | (read) digest stored where "AuthorizationDigest cd (Some a) = Inr digest"
      "readFencingMark (ioRead io) (nodeDir n) (rsVolumeId s) = Inr (stored, True)"
    by blast
  then show ?thesis
  proof cases
    case none
    then show ?thesis
      using assms chk sa
      by (intro that(1) [of "the (case r of Inl e \<Rightarrow> Some e | Inr _ \<Rightarrow> None)"])
        (auto simp: TransferVolumeOwnership_def Let_def split: sum.splits prod.splits if_splits)
  next
    case read
    show ?thesis
    proof (cases "mVolumeUID stored = raNewVolumeUid a")
      case True
      show ?thesis
      proof (cases "checkCommittedTransferRetry (mTransfer stored) a (DigestHex digest)")
        case None
        then show ?thesis
          using assms that(2) [OF sa chk read True None]
          by (auto simp: TransferVolumeOwnership_def Let_def chk sa read True split: prod.splits option.splits)
      next
        case (Some e)
        then show ?thesis
          using assms that(1) by (auto simp: TransferVolumeOwnership_def Let_def chk sa read True)
      qed
    next
      case False
      show ?thesis
        using Transfer_move [OF assms sa chk read False] that(1) that(3) [OF sa chk read False] by metis
    qed
  qed
qed

lemma Transfer_world:
  "TransferVolumeOwnership reg ox cd rc io peer now n req = (r, n') \<Longrightarrow> nodeWorld n' = nodeWorld n"
  by (erule TransferVolumeOwnership_cases) simp_all

lemma Transfer_step:
  assumes "TransferVolumeOwnership reg ox cd rc io peer now n req = (r, n')"
  shows "\<exists>v. fence_step v (nodeDir n) (nodeDir n')"
  using assms
proof (cases rule: TransferVolumeOwnership_cases)
  case (retried s a digest stored wr we)
  have "writeFencingMark (ioWrite io) (nodeDir n) (rsVolumeId s) stored = (we, nodeDir n')"
    by (simp add: writeFencingMark_def retried(8))
  then show ?thesis using fence_step_write [OF retried(5) _ ] by blast
next
  case (moved s a digest stored "next" wr we)
  let ?next = "next\<lparr>mTransfer := Some \<lparr>trAuthorizationDigest = DigestHex digest,
            trFromUID = mVolumeUID stored, trFromGeneration = mGeneration stored,
            trToUID = raNewVolumeUid a, trToGeneration = raNewGeneration a\<rparr>\<rparr>"
  have "writeFencingMark (ioWrite io) (nodeDir n) (rsVolumeId s) ?next = (we, nodeDir n')"
    by (simp add: writeFencingMark_def moved(9))
  then show ?thesis
    using fence_step_write [OF moved(5) transferAdmittedMark_le [OF moved(8,6)]] by blast
qed auto

text \<open>The facts a committed transfer rests on.\<close>

lemma transferAdmittedMark_Inr:
  assumes "transferAdmittedMark reg ox w v stored s a = Inr m"
  obtains pin where "\<not> mEnded stored" "mVolumeUID stored = raOldVolumeUid a"
    "mGeneration stored = raOldGeneration a" "raNewVolumeUid a \<notin> set (mEndedUIDs stored)"
    "mLVMSource stored = Some pin" "raLvmSource a = Some pin"
    "verifyTransferEvidence reg ox w v pin = None"
    "mVolumeUID m = raNewVolumeUid a" "mGeneration m = raNewGeneration a"
    "mVolumeUID stored \<in> set (mEndedUIDs m)" "\<not> mEnded m" "mLVMSource m = Some pin"
    "mPreserveOriginal stored \<Longrightarrow> mPreserveOriginal m"
  using assms
  by (auto simp: transferAdmittedMark_def Let_def split: if_splits option.splits)

lemma verifyTransferEvidence_None:
  assumes "verifyTransferEvidence reg ox w v pin = None"
  obtains b inspector obs xs where "backendForType reg v BackendLvm = Inr b"
    "bInspectLV b = Some inspector" "inspector w v = Inr obs" "obsIdentity obs = pin"
    "obsActive obs" "obsExclusiveClaim obs = ExclusiveClaimFree" "obsConsumers obs = []"
    "\<forall>x\<in>set (obsExports obs). consumerDetail x \<in> set (ownTargetIDs v)"
    "ox w v = Some xs" "\<forall>x\<in>set xs. \<not> exportAdmitsInitiators x"
  using assms
  by (auto simp: verifyTransferEvidence_def split: sum.splits option.splits if_splits)

lemma verifyTransferSignatures_None:
  "verifyTransferSignatures cd rc s a now = None \<longleftrightarrow>
     VerifySnapshotWithCertificate cd (Some s) (rcCert rc) now = None \<and>
     VerifyAuthorization cd (Some a) (rcAnchors rc) now = None \<and>
     CheckAuthorizationMatchesSnapshot cd (Some a) (Some s) = None"
  by (simp add: verifyTransferSignatures_def)

end
