(* ===== verification/Agent_Properties.thy ===== *)
theory Agent_Properties
  imports Agent_Volume Ownership_Transfer
begin

text \<open>
  What the agent promises about fencing, over the operations of \<open>Fence\<close>, the RPCs of
  \<open>Agent_Volume\<close> and the transfer of \<open>Ownership_Transfer\<close>, each with an instance on a small storage node.
  A fault of the file system is an argument of every operation, so each property holds for
  every way the state directory fails.
\<close>

section \<open>A storage node to instantiate the properties on\<close>

text \<open>The rest of the node is a counter of the backend calls that changed it.\<close>

definition exVol :: string where
  "exVol = ''tank/vol''"

definition exMark :: fencing_mark where
  "exMark = zero_mark\<lparr>mVolumeUID := ''uid-1'', mGeneration := 5\<rparr>"

definition exSource :: lvm_identity where
  "exSource = \<lparr>VolumeGroup = ''tank'', LogicalVolume = ''vol'', VolumeGroupUUID = ''vg-1'',
     LogicalVolumeUUID = ''lv-1''\<rparr>"

definition exNode :: "fencing_mark \<Rightarrow> nat node" where
  "exNode m = \<lparr>nodeDir = \<lparr>dirExists = True, dirFiles = [(fencingFilename exVol, MarkJSON m)]\<rparr>,
     nodeWorld = 0\<rparr>"

definition exFresh :: "nat node" where
  "exFresh = \<lparr>nodeDir = \<lparr>dirExists = False, dirFiles = []\<rparr>, nodeWorld = 0\<rparr>"

definition exToken :: "string \<Rightarrow> uint64 \<Rightarrow> fencing_token option" where
  "exToken uid g = Some \<lparr>tVolumeUid = uid, tGeneration = g\<rparr>"

definition exObservation :: lv_observation where
  "exObservation = \<lparr>obsIdentity = exSource, obsActive = True, obsExclusiveClaim = ExclusiveClaimFree,
     obsConsumers = [], obsExports = []\<rparr>"

definition exBackend :: "backend_type \<Rightarrow> nat backend" where
  "exBackend t = \<lparr>bType = t, bDevicePath = (\<lambda>v. ''/dev/'' @ v),
     bCreate = (\<lambda>w v c. (Inr (''/dev/'' @ v, c), w + 1)), bDelete = (\<lambda>w v. (None, w + 1)),
     bExpand = (\<lambda>w v c. (Inr c, w + 1)), bVerifyLV = Some (\<lambda>w v s. None),
     bInspectLV = Some (\<lambda>w v. Inr exObservation),
     bImportLV = Some (\<lambda>w v c s. Inr (''/dev/'' @ v, c)), bImport = None,
     bExistingFilesystem = Some (\<lambda>w v. Inr None)\<rparr>"

definition exReg :: "backend_type \<Rightarrow> nat registry" where
  "exReg t = \<lparr>rBackends = [''tank'' \<mapsto> exBackend t], rVariants = (\<lambda>_. [])\<rparr>"

definition exChange :: "nat target_change" where
  "exChange w = (None, w + 1)"

definition exOps :: "nat target_ops" where
  "exOps = \<lparr>opDeviceReady = (\<lambda>_ _. True),
     opResolveIdentity = (\<lambda>_ _ _ w. (Inr \<lparr>idSerial = ''s'', idUUID = ''u'', idNGUID = ''n''\<rparr>, w)),
     opRemoveIdentity = (\<lambda>_. exChange), opNvmetApply = (\<lambda>_. exChange),
     opNvmetPrepare = (\<lambda>_. exChange), opNvmetLink = (\<lambda>_. exChange),
     opNvmetRevokeExcept = (\<lambda>_ _. exChange), opNvmetRemove = (\<lambda>_. exChange),
     opNvmetAllowHost = (\<lambda>_ _. exChange), opNvmetDenyHost = (\<lambda>_ _. exChange),
     opNvmetDisable = (\<lambda>_ w. (Inr ''/dev/nvme0n1'', w + 1)), opNvmetEnable = (\<lambda>_. exChange),
     opLioRemove = (\<lambda>_. exChange), opLioDeny = (\<lambda>_ _. exChange),
     opLioEnterLocal = (\<lambda>_ w. (Inr ''/dev/sda'', w + 1)), opLioLeaveLocal = (\<lambda>_ _. exChange),
     opNfsAvailable = True, opNfsRemove = (\<lambda>_. exChange), opNfsValidateClient = (\<lambda>_. True),
     opNfsChangeClient = (\<lambda>_ _ _. exChange)\<rparr>"

lemma exNode_simps [simp]:
  "markAt (nodeDir (exNode m)) exVol = Some (MarkJSON m)" "nodeWorld (exNode m) = 0"
  "nodeWorld exFresh = 0" "markAt (nodeDir exFresh) v = None"
  "makeDir (nodeDir (exNode m)) = nodeDir (exNode m)"
  by (simp_all add: exNode_def exFresh_def markAt_def fileAt_def makeDir_def)

lemma exReg_simps [simp]: "backendForType (exReg t) exVol u = Inr (exBackend t)"
  by (simp add: backendForType_def exReg_def poolFromVolumeID_def exVol_def)

text \<open>The directory after a write that did not fail.\<close>

definition putMark :: "mark_dir \<Rightarrow> string \<Rightarrow> fencing_mark \<Rightarrow> mark_dir" where
  "putMark d v m = snd (writeFencingMarkOutcome WriteOk d v m)"

lemma putMark_simps [simp]:
  "writeFencingMarkOutcome WriteOk d v m = ((True, None), putMark d v m)"
  "writeFencingMark WriteOk d v m = (None, putMark d v m)"
  "markAt (putMark d v m) u = (if u = v then Some (MarkJSON m) else markAt d u)"
proof -
  show w: "writeFencingMarkOutcome WriteOk d v m = ((True, None), putMark d v m)"
    by (simp add: putMark_def prod_eq_iff writeOutcome_WriteOk)
  then show "writeFencingMark WriteOk d v m = (None, putMark d v m)"
    by (simp add: writeFencingMark_def)
  show "markAt (putMark d v m) u = (if u = v then Some (MarkJSON m) else markAt d u)"
    using marks.store_self [OF w] marks.store_other [OF w] by simp
qed

lemma exBackend_simps [simp]:
  "bType (exBackend t) = t" "bDelete (exBackend t) w v = (None, w + 1)"
  "bCreate (exBackend t) w v c = (Inr (''/dev/'' @ v, c), w + 1)" "bExpand (exBackend t) w v c = (Inr c, w + 1)"
  "bVerifyLV (exBackend t) = Some (\<lambda>w v s. None)" "bInspectLV (exBackend t) = Some (\<lambda>w v. Inr exObservation)"
  "bImportLV (exBackend t) = Some (\<lambda>w v c s. Inr (''/dev/'' @ v, c))" "bImport (exBackend t) = None"
  "bExistingFilesystem (exBackend t) = Some (\<lambda>w v. Inr None)"
  by (simp_all add: exBackend_def)

lemmas ex_simps = exMark_def exToken_def exSource_def ioOk_def

section \<open>Fencing\<close>

definition stale :: "fencing_token option \<Rightarrow> fencing_mark \<Rightarrow> bool" where
  "stale token m \<longleftrightarrow> GetVolumeUid token \<in> set (mEndedUIDs m) \<or>
     GetVolumeUid token = mVolumeUID m \<and> GetGeneration token < mGeneration m \<or>
     GetVolumeUid token \<noteq> mVolumeUID m \<and> \<not> mEnded m"

lemma stale_rejected:
  assumes "stale token m"
  shows "\<exists>d. admitFencingToken token op m True = Inl (d, FailedPrecondition)"
  using assms admit_retired admit_superseded admit_other_owner unfolding stale_def by metis

lemma readFencingMark_stored:
  assumes "markAt d v = Some (MarkJSON m)"
  shows "readFencingMark f d v = Inr (m, True) \<or> readFencingMark f d v = Inl InternalError"
  using assms by (auto simp: readFencingMark_def markAt_def fileAt_def split: if_splits)

text \<open>
  C1: an operation whose token names a retired lifecycle, an older generation of the owner, or a
  lifecycle that does not own the volume is refused before its mutation runs: the marks and the
  storage node stay exactly as they were, for every kind of operation, every mutation and every
  read fault.
\<close>

theorem stale_token_changes_nothing:
  assumes "markAt (nodeDir n) v = Some (MarkJSON m)" and "stale token m"
  shows "\<exists>c\<in>{FailedPrecondition, InternalError}.
    fencedChecked reg io n v token op b check init mutate = ((Some c, init), n)"
proof -
  obtain d where "admitFencingToken token op m True = Inl (d, FailedPrecondition)"
    using stale_rejected [OF assms(2)] by blast
  then show ?thesis
    using readFencingMark_stored [OF assms(1), of "ioRead io"] by (auto simp: fencedChecked_def)
qed

theorem stale_token_changes_nothing_witness:
  "\<exists>c\<in>{FailedPrecondition, InternalError}.
     fencedChecked (exReg BackendLvm) ioOk (exNode exMark) exVol (exToken ''uid-1'' 4) fenceGrant None None ()
       (Some (\<lambda>w. ((None, ()), w + 1))) = ((Some c, ()), exNode exMark)"
  by (rule stale_token_changes_nothing [where m = exMark]) (simp_all add: stale_def ex_simps)

text \<open>
  C2: whenever a fenced operation changes the storage node, the mark on disk already carries
  exactly the token of that operation: the mutation runs only after the mark is durable, so a
  crash between the two cannot leave an unfenced change.
\<close>

theorem mutation_is_fenced:
  assumes "fencedChecked reg io n v token op b check init mutate = ((e, a), n')"
    and "nodeWorld n' \<noteq> nodeWorld n"
  shows "\<exists>m. markAt (nodeDir n') v = Some (MarkJSON m) \<and> mVolumeUID m = GetVolumeUid token \<and>
    mGeneration m = GetGeneration token \<and> GetVolumeUid token \<noteq> []"
proof -
  obtain stored "exists" adm m where
    "admitFencingToken token op stored exists = Inr adm" "markAt (nodeDir n') v = Some (MarkJSON m)"
    "mVolumeUID m = GetVolumeUid token" "mGeneration m = GetGeneration token"
    using assms by (elim fencedChecked_ran) auto
  then show ?thesis using admit_next_token by blast
qed

lemmas fence_eval = fencedChecked_def checkFencePreconditions_def verifyPinnedSource_def
  prepareFencingMark_def guardLegacyFilesystem_def persistFencingMark_def openStateRoot_def
  syncStateDirs_def runFencedMutation_def readFencingMark_ReadOk_absent readFencingMark_ReadOk
  admitFencingToken_def

lemma exRun:
  "fencedChecked (exReg BackendLvm) ioOk exFresh exVol (exToken ''uid-1'' 1) fenceGrant None None ()
     (Some (\<lambda>w. ((None, ()), w + 1))) =
   ((None, ()), \<lparr>nodeDir = putMark (nodeDir exFresh) exVol (zero_mark\<lparr>mVolumeUID := ''uid-1'', mGeneration := 1\<rparr>),
      nodeWorld = 1\<rparr>)"
  by (simp add: fence_eval ex_simps)

theorem mutation_is_fenced_witness:
  "\<exists>m. markAt (nodeDir (snd (fencedChecked (exReg BackendLvm) ioOk exFresh exVol (exToken ''uid-1'' 1)
      fenceGrant None None () (Some (\<lambda>w. ((None, ()), w + 1)))))) exVol = Some (MarkJSON m) \<and>
     mVolumeUID m = ''uid-1'' \<and> mGeneration m = 1"
  using mutation_is_fenced [OF exRun] by (simp only: exRun snd_conv) (simp add: exToken_def)

text \<open>
  C22: a lost response can be retried. After a fenced operation succeeded, the same token is
  admitted again for the same kind of operation and leaves the stored mark as it is; this
  includes a completed deletion.
\<close>

theorem retry_is_admitted:
  assumes "fencedChecked reg io n v token op b check init mutate = ((None, a), n')"
  shows "\<exists>m adm. markAt (nodeDir n') v = Some (MarkJSON m) \<and>
    admitFencingToken token op m True = Inr adm \<and> admNext adm = m \<and> \<not> admChanged adm"
  using assms
proof (cases rule: fencedChecked_cases)
  case (terminal stored d)
  then have "markAt (nodeDir n') v = Some (MarkJSON stored)"
    using persist_mark [OF terminal(8)] readFencingMark_present [OF terminal(4)] by simp
  moreover obtain adm where "admitFencingToken token op stored True = Inr adm"
    using assms terminal(3,4) by (auto simp: fencedChecked_def split: sum.splits)
  moreover from this have "admNext adm = stored \<and> \<not> admChanged adm"
    using terminal(3,5,7) by (auto simp: admitFencingToken_def Let_def split: if_splits)
  ultimately show ?thesis by blast
next
  case (ran stored "exists" adm "next" d)
  obtain m where m: "markAt (nodeDir n') v = Some (MarkJSON m)" "m = next\<lparr>mEnded := mEnded m\<rparr>"
      "op \<noteq> fenceDestroy \<longrightarrow> m = next"
    using runFencedMutation_mark [OF ran(7)] fenced_persisted [OF ran(1,2,5,6)] by auto
  have "mVolumeUID m = mVolumeUID next" "mGeneration m = mGeneration next" "mEndedUIDs m = mEndedUIDs next"
    by (subst m(2), simp)+
  moreover have "mEnded m \<longrightarrow> op \<noteq> fenceGrant"
    using m(3) prepared_token [OF ran(2,5)] admit_not_ended [OF ran(2)] admit_terminal_op [OF ran(2)]
    by (cases op) auto
  ultimately obtain x where "admitFencingToken token op m True =
      Inr \<lparr>admNext = m, admChanged = False, admDecision = x\<rparr>"
    using admit_same_token [of token m op] prepared_token [OF ran(2,5)] admit_next_token [OF ran(2)]
      admit_next_not_retired [OF ran(2)] by auto
  then show ?thesis using m(1) by fastforce
qed simp_all

theorem retry_is_admitted_witness:
  "\<exists>m adm. markAt (nodeDir (snd (fencedChecked (exReg BackendLvm) ioOk exFresh exVol (exToken ''uid-1'' 1)
      fenceGrant None None () (Some (\<lambda>w. ((None, ()), w + 1)))))) exVol = Some (MarkJSON m) \<and>
    admitFencingToken (exToken ''uid-1'' 1) fenceGrant m True = Inr adm \<and> admNext adm = m \<and> \<not> admChanged adm"
  using retry_is_admitted [OF exRun] by (simp only: exRun snd_conv)

section \<open>The volume RPCs\<close>

text \<open>A retired lifecycle or a newer generation keeps refusing a token in every later state.\<close>

lemma later_mark_rejects:
  assumes "markAt d v = Some (MarkJSON m)" "marks_grow d (nodeDir n)"
    and "\<And>m'. fence_le m m' \<Longrightarrow> \<exists>x. admitFencingToken token op m' True = Inl (x, FailedPrecondition)"
  shows "\<exists>c. fencedChecked reg io n v token op b check init mutate = ((Some c, init), n)"
proof -
  obtain m' where m': "markAt (nodeDir n) v = Some (MarkJSON m')" "fence_le m m'"
    using marks_growD [OF assms(2,1)] by blast
  then obtain x where "admitFencingToken token op m' True = Inl (x, FailedPrecondition)"
    using assms(3) by blast
  then show ?thesis
    using readFencingMark_stored [OF m'(1), of "ioRead io"] by (auto simp: fencedChecked_def)
qed

lemma ended_rejects:
  assumes "mEnded m" "mVolumeUID m = GetVolumeUid token" "fence_le m m'"
  shows "\<exists>x. admitFencingToken token fenceGrant m' True = Inl (x, FailedPrecondition)"
  using assms admit_retired [of token m'] admit_ended_grant [of token m'] unfolding fence_le_def by metis


definition exDelete :: "backend_type \<Rightarrow> uint64 \<Rightarrow> delete_request" where
  "exDelete t g = \<lparr>drVolumeId = exVol, drBackendType = t, drFence = exToken ''uid-1'' g,
     drFilesystemAdoption = None\<rparr>"

lemma exDeleted:
  "DeleteVolume (exReg BackendLvm) ops ad io ioOk (exNode exMark) (exDelete BackendLvm 6) =
     (None, \<lparr>nodeDir = putMark (putMark (nodeDir (exNode exMark)) exVol (exMark\<lparr>mGeneration := 6\<rparr>)) exVol
        (exMark\<lparr>mGeneration := 6, mEnded := True\<rparr>), nodeWorld = 1\<rparr>)"
  by (simp add: DeleteVolume_def exDelete_def withdrawNfsExport_def refusePreserved_def
      checkBackendType_def fence_eval ex_simps)


lemma import_mutation_world:
  "nodeWorld (snd (fencedImport io n v token src preserve init
     (Some (backendMutation f init (\<lambda>w. (g w, w)))))) = nodeWorld n"
  by (auto simp: fencedImport_def backendMutation_def split: sum.splits prod.splits option.splits)

lemma import_refused_marks:
  assumes "fencedImport io n v token src preserve init
      (Some (backendMutation f init (\<lambda>w. (g w, w)))) = ((Some e, a), n')" "ioWrite io = WriteOk"
  shows "n' = n"
proof -
  have "nodeWorld n' = nodeWorld n" using import_mutation_world assms(1) by (metis snd_conv)
  moreover have "nodeDir n' = nodeDir n"
    using assms(1)
  proof (cases rule: fencedImport_cases)
    case (admitted stored "exists" adm "next")
    then have "fst (persistFencingMark WriteOk (nodeDir n) v next (\<not> exists \<or> \<not> equalMarks next stored)) = Some e"
      using assms(2) by simp
    then show ?thesis by (simp add: persist_WriteOk)
  qed simp
  ultimately show ?thesis by simp
qed

definition imported_as :: "fencing_token option \<Rightarrow> lvm_identity option \<Rightarrow> bool \<Rightarrow> fencing_mark \<Rightarrow> bool" where
  "imported_as token src preserve m \<longleftrightarrow>
     mVolumeUID m = GetVolumeUid token \<and> mGeneration m = GetGeneration token \<and> \<not> mEnded m \<and>
     (src \<noteq> None \<longrightarrow> mLVMSource m = src) \<and> (src \<noteq> None \<and> preserve \<longrightarrow> mPreserveOriginal m)"

definition import_outcome ::
    "fence_io \<Rightarrow> 'w node \<Rightarrow> import_request \<Rightarrow> (string \<times> int64) result \<Rightarrow> 'w node \<Rightarrow> bool" where
  "import_outcome io n req r n' \<longleftrightarrow>
     nodeWorld n' = nodeWorld n \<and>
     (case r of
        Inl _ \<Rightarrow> ioWrite io = WriteOk \<longrightarrow> n' = n
      | Inr _ \<Rightarrow> \<exists>m. markAt (nodeDir n') (irVolumeId req) = Some (MarkJSON m) \<and>
          imported_as (irFence req) (irExpectedLvmSource req) (irPreserveOriginal req \<noteq> Some False) m)"

lemma fencedImport_readonly:
  assumes "fencedImport io n v token src preserve init
      (Some (backendMutation f init (\<lambda>w. (g w, w)))) = ((e, a), n')"
  shows "nodeWorld n' = nodeWorld n \<and>
    (case e of
       Some _ \<Rightarrow> ioWrite io = WriteOk \<longrightarrow> n' = n
     | None \<Rightarrow> \<exists>m. markAt (nodeDir n') v = Some (MarkJSON m) \<and> imported_as token src preserve m)"
proof -
  have "nodeWorld n' = nodeWorld n"
    using import_mutation_world [of io n v token src preserve init f g] by (simp add: assms)
  moreover have "e = Some c \<Longrightarrow> ioWrite io = WriteOk \<Longrightarrow> n' = n" for c
    using import_refused_marks [of io n v token src preserve init f g c a n'] assms by simp
  moreover have "e = None \<Longrightarrow> \<exists>m. markAt (nodeDir n') v = Some (MarkJSON m) \<and> imported_as token src preserve m"
    using fencedImport_success [of io n v token src preserve init _ a n'] assms
    unfolding imported_as_def by simp
  ultimately show ?thesis by (cases e) simp_all
qed

lemma preserve_default: "(p = None \<or> p = Some True) = (p \<noteq> Some False)"
  by (cases p) auto

lemma importLV_outcome:
  assumes "importLV io n req b = (r, n')"
  shows "import_outcome io n req r n'"
proof -
  consider (no) e where "r = Inl e" "n' = n"
    | (run) src importer e a where "irExpectedLvmSource req = Some src" "bImportLV b = Some importer"
      "fencedImport io n (irVolumeId req) (irFence req) (Some src) (irPreserveOriginal req \<noteq> Some False) ([], 0)
         (Some (backendMutation importVolumeError ([], 0)
            (\<lambda>w. (importer w (irVolumeId req) (irCapacityBytes req) src, w)))) = ((e, a), n')"
      "r = (case e of Some c \<Rightarrow> Inl c | None \<Rightarrow> Inr a)"
    using assms unfolding importLV_def preserve_default
    by (auto split: option.splits if_splits prod.splits)
  then show ?thesis
  proof cases
    case run
    show ?thesis
      using fencedImport_readonly [OF run(3)] run(1,4) by (cases e) (simp_all add: import_outcome_def)
  qed (simp add: import_outcome_def)
qed

lemma importPlain_outcome:
  assumes "fencedImport io n (irVolumeId req) (irFence req) None False ([], 0)
      (Some (backendMutation importVolumeError ([], 0) (\<lambda>w. (g w, w)))) = ((e, a), n')"
    and "irExpectedLvmSource req = None"
  shows "import_outcome io n req (case e of Some c \<Rightarrow> Inl c | None \<Rightarrow> Inr a) n'"
  using fencedImport_readonly [OF assms(1)] assms(2)
  by (cases e) (simp_all add: import_outcome_def imported_as_def)


definition exImport :: import_request where
  "exImport = \<lparr>irVolumeId = exVol, irBackendType = BackendLvm, irCapacityBytes = 10, irExpectedDataset = [],
     irExpectedLvmSource = Some exSource, irPreserveOriginal = None, irFence = exToken ''uid-1'' 1,
     irFilesystemAdoption = None\<rparr>"

lemma exImported:
  "ImportVolume (exReg BackendLvm) ad ioOk exFresh exImport =
     (Inr (''/dev/'' @ exVol, 10), \<lparr>nodeDir = putMark (nodeDir exFresh) exVol
        (zero_mark\<lparr>mVolumeUID := ''uid-1'', mGeneration := 1, mLVMSource := Some exSource,
           mPreserveOriginal := True\<rparr>), nodeWorld = 0\<rparr>)"
  by (simp add: ImportVolume_def importLV_def exImport_def completeLvmSource_def backendMutation_def
      fencedImport_def pinImportSource_def checkBackendType_def fence_eval ex_simps)


text \<open>A check that refuses the stored mark of an adopted LV stops the operation.\<close>

lemma check_refuses:
  assumes "fencedChecked reg io n v token op b (Some c) init mutate = ((e, a), n')"
    and "markAt (nodeDir n) v = Some (MarkJSON m)" "c m \<noteq> None" "mLVMSource m \<noteq> None"
    and "op \<noteq> fenceRevoke"
  shows "nodeWorld n' = nodeWorld n \<and> (op = fenceGrant \<longrightarrow> e \<noteq> None \<and> n' = n)"
  using assms(1)
proof (cases rule: fencedChecked_cases)
  case (unpersisted stored "exists" adm "next" changed x d)
  have "stored = m" "exists" using readFencingMark_stored [OF assms(2), of "ioRead io"] unpersisted(4) by auto
  show ?thesis
  proof (cases "admDecision adm = FenceAdmitTerminalRetry")
    case True
    then show ?thesis using admit_terminal_op [OF unpersisted(5)] unpersisted(1,3) by auto
  next
    case False
    have "fencedChecked reg io n v token op b (Some c) init mutate = ((c m, init), n)"
      using False assms(3) unpersisted(4,5) \<open>stored = m\<close>
      by (auto simp: fencedChecked_def checkFencePreconditions_def)
    then show ?thesis using assms(1,3) by auto
  qed
next
  case (ran stored "exists" adm "next" d)
  have stored: "stored = m" using readFencingMark_stored [OF assms(2), of "ioRead io"] ran(1) by auto
  have "admDecision adm = FenceAdmitTerminalRetry"
    using ran(4) assms(3) stored by (auto simp: checkFencePreconditions_def)
  then show ?thesis
    using ran(3) assms(4,5) stored admit_terminal_op [OF ran(2)] by (cases op) auto
qed simp_all

lemma DeleteVolume_block:
  assumes "DeleteVolume reg ops ad ioU io n req = (e, n')" "drFilesystemAdoption req = None"
    and "drBackendType req \<noteq> BackendZfsDataset"
  shows "e \<noteq> None \<and> n' = n \<or>
    (\<exists>b. backendForType reg (drVolumeId req) (drBackendType req) = Inr b \<and>
      fencedChecked reg io n (drVolumeId req) (drFence req) fenceDestroy (Some b) (Some refusePreserved) ()
        (Some (\<lambda>w. case bDelete b w (drVolumeId req) of
           (e, w') \<Rightarrow> ((map_option (\<lambda>_. InternalError) e, ()), w'))) = ((e, ()), n'))"
proof (cases "backendForType reg (drVolumeId req) (drBackendType req)")
  case (Inr b)
  show ?thesis
  proof (cases "checkBackendType (drBackendType req) (bType b)")
    case None
    then have "withdrawNfsExport reg ops b ioU n v f = (None, n)" for v f
      using assms(3) by (auto simp: withdrawNfsExport_def)
    then show ?thesis using assms(1,2) Inr None by (auto simp: DeleteVolume_def simp del: checkBackendType_None)
  qed (use assms(1,2) Inr in \<open>auto simp: DeleteVolume_def\<close>)
qed (use assms(1,2) in \<open>auto simp: DeleteVolume_def\<close>)

text \<open>
  C15: the original LV of an adoption that keeps it is never deleted or resized. Whatever token is
  presented, \<open>DeleteVolume\<close> of the LVM volume leaves the storage node as it was, and
  \<open>ExpandVolume\<close> fails without changing anything.
\<close>

theorem preserved_original_untouched:
  assumes "markAt (nodeDir n) v = Some (MarkJSON m)" "mPreserveOriginal m" "mLVMSource m \<noteq> None"
    and "drVolumeId dreq = v" "drBackendType dreq = BackendLvm" "drFilesystemAdoption dreq = None"
    and "xrVolumeId xreq = v"
  shows "nodeWorld (snd (DeleteVolume reg ops ad ioU io n dreq)) = nodeWorld n \<and>
    (\<exists>c. ExpandVolume reg resize io n xreq = (Inl c, n))"
proof
  have refuse: "refusePreserved m \<noteq> None" using assms(2) by (simp add: refusePreserved_def)
  obtain e n' where del: "DeleteVolume reg ops ad ioU io n dreq = (e, n')" by fastforce
  have "nodeWorld n' = nodeWorld n"
    using DeleteVolume_block [OF del assms(6)] assms(1,3-5) refuse check_refuses [where c = refusePreserved]
    by fastforce
  then show "nodeWorld (snd (DeleteVolume reg ops ad ioU io n dreq)) = nodeWorld n" by (simp add: del)
  have "e \<noteq> None \<and> n' = n"
    if "fencedChecked reg io n v token fenceGrant b (Some refusePreserved) init mutate = ((e, a), n')"
    for token b init mutate e a n'
    using check_refuses [OF that assms(1) refuse assms(3)] by simp
  then show "\<exists>c. ExpandVolume reg resize io n xreq = (Inl c, n)"
    unfolding ExpandVolume_def assms(7)
    by (fastforce split: sum.splits option.splits prod.splits)
qed

definition exExpand :: expand_request where
  "exExpand = \<lparr>xrVolumeId = exVol, xrBackendType = BackendLvm, xrRequestedBytes = 20,
     xrFence = exToken ''uid-1'' 6\<rparr>"

definition exPinned :: fencing_mark where
  "exPinned = exMark\<lparr>mLVMSource := Some exSource, mPreserveOriginal := True\<rparr>"

theorem preserved_original_untouched_witness:
  "nodeWorld (snd (DeleteVolume (exReg BackendLvm) exOps undefined ioOk ioOk (exNode exPinned)
       (exDelete BackendLvm 6))) = 0 \<and>
   (\<exists>c. ExpandVolume (exReg BackendLvm) (\<lambda>_ w. (None, w + 1)) ioOk (exNode exPinned) exExpand =
     (Inl c, exNode exPinned))"
  using preserved_original_untouched [of "exNode exPinned" exVol exPinned "exDelete BackendLvm 6" exExpand]
  by (simp add: exPinned_def exDelete_def exExpand_def)

text \<open>
  C16: \<open>CreateVolume\<close> never runs on a volume whose mark pins an adopted LV, in any lifecycle and
  for every token: it fails and changes neither the marks nor the storage node.
\<close>

theorem pinned_source_not_recreated:
  assumes "markAt (nodeDir n) (crVolumeId req) = Some (MarkJSON m)" "mLVMSource m \<noteq> None"
  shows "\<exists>c. CreateVolume reg io n req = (Inl c, n)"
proof -
  have refuse: "refusePinnedCreate m \<noteq> None" using assms(2) by (simp add: refusePinnedCreate_def)
  have "e \<noteq> None \<and> n' = n"
    if "fencedChecked reg io n (crVolumeId req) token fenceGrant b (Some refusePinnedCreate) init mutate = ((e, a), n')"
    for token b init mutate e a n'
    using check_refuses [OF that assms(1) refuse assms(2)] by simp
  then show ?thesis
    unfolding CreateVolume_def by (fastforce split: sum.splits option.splits prod.splits)
qed

definition exCreate :: "backend_type \<Rightarrow> create_request" where
  "exCreate t = \<lparr>crVolumeId = exVol, crBackendType = t, crCapacityBytes = 10, crFence = exToken ''uid-1'' 6\<rparr>"

theorem pinned_source_not_recreated_witness:
  "\<exists>c. CreateVolume (exReg BackendLvm) ioOk (exNode exPinned) (exCreate BackendLvm) = (Inl c, exNode exPinned)"
  by (rule pinned_source_not_recreated [where m = exPinned]) (simp_all add: exCreate_def exPinned_def)

lemma releaseLoop_retires:
  "releaseLoop reg ops ioR ioU req unexported n = (None, n') \<Longrightarrow>
     \<exists>m. markAt (nodeDir n') (rrVolumeId req) = Some (MarkJSON m) \<and>
       GetVolumeUid (rrFence req) \<in> set (mEndedUIDs m)"
proof (induction reg ops ioR ioU req unexported n arbitrary: n' rule: releaseLoop.induct)
  case (1 reg ops ioR ioU req unexported n)
  obtain owned x n1 where r: "retireFence (ioR unexported) n (rrVolumeId req) (rrFence req) unexported
      (Some (verifyPinnedRelease reg (nodeWorld n) (rrVolumeId req))) = ((owned, x), n1)"
    by (metis prod.exhaust)
  have x: "x = None" using 1(2) by (auto simp: releaseLoop.simps [of reg] r split: option.splits bool.splits)
  show ?case
  proof (cases owned)
    case False
    then have "n' = n1" using 1(2) x by (auto simp: releaseLoop.simps [of reg] r)
    then show ?thesis using retireFence_retires [of "ioR unexported" n] r x False by simp
  next
    case True
    obtain y n2 where u: "handlerUnexport reg ops (rrProtocolType req) (ioU unexported) n1
        (rrVolumeId req) (rrFence req) = (y, n2)" by fastforce
    have "y = None" "releaseLoop reg ops ioR ioU req True n2 = (None, n')"
      using 1(2) x True by (auto simp: releaseLoop.simps [of reg ops ioR ioU req unexported n] r u split: option.splits)
    then show ?thesis using 1(1) r u x True by simp
  qed
qed


definition exRelease :: release_request where
  "exRelease = \<lparr>rrVolumeId = exVol, rrProtocolType = ProtocolNvmeofTcp, rrFence = exToken ''uid-1'' 5,
     rrFilesystemAdoption = None\<rparr>"

lemma exReleased:
  "ReleaseVolume (exReg BackendZfsZvol) exOps ad (\<lambda>_. ioOk) (\<lambda>_. ioOk) (exNode exMark) exRelease =
     (None, \<lparr>nodeDir = putMark (nodeDir (exNode exMark)) exVol
        (exMark\<lparr>mEnded := True, mEndedUIDs := [''uid-1'']\<rparr>), nodeWorld = 2\<rparr>)"
  by (simp add: ReleaseVolume_def exRelease_def releaseLoop.simps retireFence_def handlerUnexport_def
      handlerForProtocol_def nvmeUnexport_def nvmeTargetID_def volumeTargetID_def fenced_def exOps_def exChange_def
      asMutation_def verifyPinnedRelease_def Let_def fence_eval ex_simps del: map_prod_fst_id)


text \<open>
  C17: a managed ZFS volume is not created over a dataset that an adopted filesystem owns. When the
  backend reports the native identity of an active adopted lifecycle, \<open>CreateVolume\<close> fails and
  changes neither the marks nor the storage node, whatever part of the scan fails.
\<close>

theorem adopted_dataset_not_created_over:
  assumes "backendForType reg (crVolumeId req) (crBackendType req) = Inr b"
    and "bType b \<in> {BackendZfsDataset, BackendZfsZvol}"
    and "bExistingFilesystem b = Some inspector" "inspector (nodeWorld n) (crVolumeId req) = Inr (Some identity)"
    and "faKind identity = filesystemAdoptionKindZFSDataset" "filesystemFenceKey identity = Inr key"
    and "markAt (nodeDir n) key = Some (MarkJSON m)" "\<not> mEnded m" "mFilesystem m = Some fs"
    and "faKind fs = filesystemAdoptionKindZFSDataset" "filesystemFenceKey fs = Inr key"
  shows "\<exists>c. CreateVolume reg io n req = (Inl c, n)"
proof -
  have guard: "guardLegacyFilesystem sf f (nodeDir n) (nodeWorld n) (Some b) (crVolumeId req) \<noteq> None" for sf f
    by (rule guardLegacyFilesystem_refuses [OF assms(2-)])
  obtain x where "guardLegacyFilesystem (ioScan io) (ioOwner io) (nodeDir n) (nodeWorld n) (Some b) (crVolumeId req) = Some x"
    using guard by fastforce
  then have prep: "\<exists>e. prepareFencingMark io n (Some b) (crVolumeId req) token fenceGrant stored exists adm = Inl e"
    for token stored "exists" adm
    by (simp add: prepareFencingMark_def)
  have "e \<noteq> None \<and> n' = n"
    if "fencedChecked reg io n (crVolumeId req) token fenceGrant (Some b) check init mutate = ((e, a), n')"
    for token check init mutate e a n'
    using that
  proof (cases rule: fencedChecked_cases)
    case (unpersisted stored "exists" adm "next" changed c d)
    then show ?thesis using prep by (metis Inl_Inr_False)
  next
    case (ran stored "exists" adm "next" d)
    then show ?thesis using prep by (metis Inl_Inr_False)
  qed simp_all
  then show ?thesis
    using assms(1) unfolding CreateVolume_def by (fastforce split: option.splits prod.splits)
qed

definition exAdoption :: filesystem_adoption where
  "exAdoption = \<lparr>faKind = ''zfs-dataset'', faCanonicalSource = ''tank/vol'', faResourceId = ''guid-7'',
     faHostPath = ''/tank/vol'', faFilesystemType = ''zfs'', faFilesystemId = [], faInode = 0, faProjectId = 0\<rparr>"

definition exOwned :: "nat node" where
  "exOwned = \<lparr>nodeDir = \<lparr>dirExists = True, dirFiles = [(fencingFilename (FilesystemFenceID exAdoption),
     MarkJSON (exMark\<lparr>mFilesystem := Some exAdoption\<rparr>))]\<rparr>, nodeWorld = 0\<rparr>"

definition exOwnedReg :: "nat registry" where
  "exOwnedReg = \<lparr>rBackends = [''tank'' \<mapsto> (exBackend BackendZfsDataset)\<lparr>bExistingFilesystem :=
     Some (\<lambda>w v. Inr (Some exAdoption))\<rparr>], rVariants = (\<lambda>_. [])\<rparr>"

lemma exAdoption_key: "filesystemFenceKey exAdoption = Inr (FilesystemFenceID exAdoption)"
  by (simp add: filesystemFenceKey_def exAdoption_def FilesystemFenceID_def filesystemAdoptionKindDirectory_def
      filesystemAdoptionKindZFSDataset_def validZFSDatasetAdoption_def isAbs_def pathClean_def Let_def)

lemma exAdoption_kind: "faKind exAdoption = filesystemAdoptionKindZFSDataset"
  by (simp add: exAdoption_def filesystemAdoptionKindZFSDataset_def)

theorem adopted_dataset_not_created_over_witness:
  "\<exists>c. CreateVolume exOwnedReg ioOk exOwned (exCreate BackendZfsDataset) = (Inl c, exOwned)"
  by (rule adopted_dataset_not_created_over [where fs = exAdoption and identity = exAdoption and
        inspector = "\<lambda>w v. Inr (Some exAdoption)" and m = "exMark\<lparr>mFilesystem := Some exAdoption\<rparr>" and
        b = "(exBackend BackendZfsDataset)\<lparr>bExistingFilesystem := Some (\<lambda>w v. Inr (Some exAdoption))\<rparr>",
        OF _ _ _ _ _ exAdoption_key])
    (simp_all add: exCreate_def exOwnedReg_def backendForType_def poolFromVolumeID_def exVol_def exOwned_def
      exMark_def markAt_def fileAt_def exAdoption_key exAdoption_kind)

end
