(* ===== verification/Recovery_Properties.thy ===== *)
theory Recovery_Properties
  imports Agent_Properties
begin

text \<open>
  What ownership recovery promises: the facts a committed transfer rests on, that the old owner
  is locked out, that a lost response can be retried, that a refused transfer changes nothing,
  and the bounds and bindings of the signed artifacts.
\<close>

section \<open>Transfers\<close>

text \<open>The live observation that lets a transfer proceed.\<close>

definition idle_evidence ::
    "'w registry \<Rightarrow> 'w own_exports \<Rightarrow> 'w \<Rightarrow> string \<Rightarrow> lvm_identity \<Rightarrow> bool" where
  "idle_evidence reg ownExports w v pin \<longleftrightarrow>
     (\<exists>b inspector obs xs. backendForType reg v BackendLvm = Inr b \<and> bInspectLV b = Some inspector \<and>
        inspector w v = Inr obs \<and> obsIdentity obs = pin \<and> obsActive obs \<and>
        obsExclusiveClaim obs = ExclusiveClaimFree \<and> obsConsumers obs = [] \<and>
        (\<forall>x\<in>set (obsExports obs). consumerDetail x \<in> set (ownTargetIDs v)) \<and>
        ownExports w v = Some xs \<and> (\<forall>x\<in>set xs. \<not> exportAdmitsInitiators x))"

definition moves_ownership :: "recovery_authorization \<Rightarrow> fencing_mark \<Rightarrow> fencing_mark \<Rightarrow> bool" where
  "moves_ownership a m m' \<longleftrightarrow>
     \<not> mEnded m \<and> mVolumeUID m = raOldVolumeUid a \<and> mGeneration m = raOldGeneration a \<and>
     raNewVolumeUid a \<notin> set (mEndedUIDs m) \<and>
     mVolumeUID m' = raNewVolumeUid a \<and> mGeneration m' = raNewGeneration a \<and> \<not> mEnded m' \<and>
     insert (raOldVolumeUid a) (set (mEndedUIDs m)) \<subseteq> set (mEndedUIDs m') \<and>
     mLVMSource m \<noteq> None \<and> mLVMSource m' = mLVMSource m \<and> raLvmSource a = mLVMSource m \<and>
     (mPreserveOriginal m \<longrightarrow> mPreserveOriginal m')"

lemma moved_mark:
  assumes "transferAdmittedMark reg ox w v stored s a = Inr next"
  shows "moves_ownership a stored (next\<lparr>mTransfer := t\<rparr>) \<and>
    idle_evidence reg ox w v (the (mLVMSource stored))"
proof -
  obtain pin where pin: "mLVMSource stored = Some pin" "verifyTransferEvidence reg ox w v pin = None"
    using transferAdmittedMark_Inr [OF assms] by metis
  have "idle_evidence reg ox w v pin"
    using verifyTransferEvidence_None [OF pin(2)] unfolding idle_evidence_def by metis
  moreover have "moves_ownership a stored (next\<lparr>mTransfer := t\<rparr>)"
    using assms
    by (auto simp: transferAdmittedMark_def moves_ownership_def Let_def split: if_splits option.splits)
  ultimately show ?thesis using pin(1) by simp
qed

lemma committed_transfer:
  assumes "TransferVolumeOwnership reg ox cd rc io peer now n req = (Inr (OutcomeCommitted, digest), n')"
  obtains s a m m' where "tqSnapshot req = Some s" "tqAuthorization req = Some a"
    "checkTransferRequest rc peer req = None" "AuthorizationDigest cd (Some a) = Inr digest"
    "verifyTransferSignatures cd rc s a now = None"
    "markAt (nodeDir n) (rsVolumeId s) = Some (MarkJSON m)"
    "markAt (nodeDir n') (rsVolumeId s) = Some (MarkJSON m')" "moves_ownership a m m'"
    "idle_evidence reg ox (nodeWorld n) (rsVolumeId s) (the (mLVMSource m))"
    "mTransfer m' = Some \<lparr>trAuthorizationDigest = DigestHex digest, trFromUID = raOldVolumeUid a,
       trFromGeneration = raOldGeneration a, trToUID = raNewVolumeUid a, trToGeneration = raNewGeneration a\<rparr>"
    "nodeWorld n' = nodeWorld n"
  using assms
proof (cases rule: TransferVolumeOwnership_cases)
  case (retried s a digest' stored wr we)
  then show ?thesis by (simp split: if_splits)
next
  case (moved s a digest' stored "next" wr we)
  have we: "we = None" "digest' = digest" using moved(11) by (auto split: option.splits if_splits)
  note mark = marks.store_self [OF moved(9)] marks.store_success [OF moved(9) [unfolded we(1)]]
  have uids: "mVolumeUID stored = raOldVolumeUid a" "mGeneration stored = raOldGeneration a"
    using moved_mark [OF moved(8)] by (simp_all add: moves_ownership_def)
  show ?thesis
    using that [OF moved(1-3) moved(4) [unfolded we(2)] moved(7)] mark moved_mark [OF moved(8)]
      readFencingMark_present [OF moved(5)] moved(10) uids we(2) by simp
qed simp

text \<open>
  C3: a transfer reports that it committed only if everything it rests on holds: the caller was a
  verified peer, snapshot and authorization verify against the agent's certificate and the trust
  anchors and match each other, the mark named exactly the old owner and generation the operator
  authorized, and the live observation shows the pinned LV idle with no export that admits an
  initiator. The mark then names the new owner, the old one is retired, the pinned source and its
  protection are kept, and the storage node is unchanged.
\<close>

theorem transfer_commits_only_on_evidence:
  assumes "TransferVolumeOwnership reg ox cd rc io peer now n req = (Inr (OutcomeCommitted, digest), n')"
  shows "peer \<and> (\<exists>s a m m'. tqSnapshot req = Some s \<and> tqAuthorization req = Some a \<and>
    VerifySnapshotWithCertificate cd (Some s) (rcCert rc) now = None \<and>
    VerifyAuthorization cd (Some a) (rcAnchors rc) now = None \<and>
    CheckAuthorizationMatchesSnapshot cd (Some a) (Some s) = None \<and>
    markAt (nodeDir n) (rsVolumeId s) = Some (MarkJSON m) \<and>
    markAt (nodeDir n') (rsVolumeId s) = Some (MarkJSON m') \<and> moves_ownership a m m' \<and>
    idle_evidence reg ox (nodeWorld n) (rsVolumeId s) (the (mLVMSource m)) \<and> nodeWorld n' = nodeWorld n)"
proof -
  obtain s a m m' where t: "tqSnapshot req = Some s" "tqAuthorization req = Some a"
    "checkTransferRequest rc peer req = None" "verifyTransferSignatures cd rc s a now = None"
    "markAt (nodeDir n) (rsVolumeId s) = Some (MarkJSON m)"
    "markAt (nodeDir n') (rsVolumeId s) = Some (MarkJSON m')" "moves_ownership a m m'"
    "idle_evidence reg ox (nodeWorld n) (rsVolumeId s) (the (mLVMSource m))" "nodeWorld n' = nodeWorld n"
    using committed_transfer [OF assms] by metis
  have "peer" using t(3) by (auto simp: checkTransferRequest_def split: if_splits)
  then show ?thesis using t verifyTransferSignatures_None by metis
qed

section \<open>An authorized transfer to instantiate the properties on\<close>

text \<open>The codec encodes every artifact alike and accepts one signature.\<close>

definition exCodec :: "unit codec" where
  "exCodec = \<lparr>cdSnapshot = (\<lambda>s. Some ''snapshot''), cdAuthorization = (\<lambda>a. Some ''authorization''),
     cdVerify = (\<lambda>k d sig. sig = ''signed'')\<rparr>"

definition exConfig :: "unit recovery_config" where
  "exConfig = \<lparr>rcSigner = Some \<lparr>sgPublic = RSAPublicKey (), sgSign = (\<lambda>_. Some ''signed'')\<rparr>,
     rcCert = Some \<lparr>ctCommonName = ''node-1'', ctDNSNames = [], ctPublicKey = RSAPublicKey ()\<rparr>,
     rcAnchors = [ECDSAPublicKey ()]\<rparr>"

definition exSnapshot :: recovery_snapshot where
  "exSnapshot = \<lparr>rsVolumeId = exVol, rsBackendType = BackendLvm, rsLvmSource = Some exSource,
     rsOldVolumeUid = ''uid-1'', rsOldGeneration = 5, rsPreserveOriginal = True,
     rsExclusiveClaim = ExclusiveClaimFree, rsConsumers = [], rsExports = [], rsFence = None,
     rsAgentIdentity = ''node-1'', rsIssuedAt = Some \<lparr>tsSeconds = 1000, tsNanos = 0\<rparr>,
     rsSignature = ''signed''\<rparr>"

definition exAuthorization :: recovery_authorization where
  "exAuthorization = \<lparr>raSnapshotDigest = sha256 ''snapshot'', raVolumeId = exVol, raBackendType = BackendLvm,
     raLvmSource = Some exSource, raOldVolumeUid = ''uid-1'', raOldGeneration = 5,
     raNewVolumeUid = ''uid-2'', raNewGeneration = 1, raPreserveOriginal = Some True,
     raIssuedAt = Some \<lparr>tsSeconds = 1000, tsNanos = 0\<rparr>, raExpiresAt = Some \<lparr>tsSeconds = 4600, tsNanos = 0\<rparr>,
     raSignature = ''signed''\<rparr>"

definition exTransfer :: transfer_request where
  "exTransfer = \<lparr>tqSnapshot = Some exSnapshot, tqAuthorization = Some exAuthorization\<rparr>"

definition exNow :: int where
  "exNow = 1060 * 1000000000"

lemmas ex_recovery = exCodec_def exConfig_def exSnapshot_def exAuthorization_def exTransfer_def exNow_def
  time_bounds CheckValid_def AsTime_def

lemma exSignatures: "verifyTransferSignatures exCodec exConfig exSnapshot exAuthorization exNow = None"
  by (simp add: verifyTransferSignatures_def VerifySnapshotWithCertificate_def certificateIdentity_def
      VerifySnapshot_def checkKeySupported_def verifySnapshotFields_def checkIssuedAt_def
      CanonicalSnapshotBytes_def verifySignature_def VerifyAuthorization_def verifyAuthorizationFields_def
      checkValidityWindow_def timeSub_def CanonicalAuthorizationBytes_def
      CheckAuthorizationMatchesSnapshot_def SnapshotDigest_def equalDigest_def DigestSize_def ex_recovery exVol_def)

lemma exEvidence:
  "transferAdmittedMark (exReg BackendLvm) (\<lambda>_ _. Some []) w exVol exPinned exSnapshot exAuthorization =
     Inr (zero_mark\<lparr>mVolumeUID := ''uid-2'', mGeneration := 1, mEndedUIDs := [''uid-1''],
       mLVMSource := Some exSource, mPreserveOriginal := True\<rparr>)"
  by (simp add: transferAdmittedMark_def verifyTransferEvidence_def exObservation_def exPinned_def exMark_def
      exSnapshot_def exAuthorization_def)

definition exTransferred :: "nat node" where
  "exTransferred = (exNode exPinned)\<lparr>nodeDir := putMark (nodeDir (exNode exPinned)) exVol
     (zero_mark\<lparr>mVolumeUID := ''uid-2'', mGeneration := 1, mEndedUIDs := [''uid-1''],
        mLVMSource := Some exSource, mPreserveOriginal := True,
        mTransfer := Some \<lparr>trAuthorizationDigest = DigestHex (sha256 ''authorization''), trFromUID = ''uid-1'',
          trFromGeneration = 5, trToUID = ''uid-2'', trToGeneration = 1\<rparr>\<rparr>)\<rparr>"

lemma exCommitted:
  "TransferVolumeOwnership (exReg BackendLvm) (\<lambda>_ _. Some []) exCodec exConfig ioOk True exNow (exNode exPinned)
     exTransfer = (Inr (OutcomeCommitted, sha256 ''authorization''), exTransferred)"
proof -
  have "checkTransferRequest exConfig True exTransfer = None"
    by (simp add: checkTransferRequest_def recoveryConfigured_def recoveryIdentity_def
        RecoveryAgentIdentity_def certificateIdentity_def ex_recovery exVol_def)
  moreover have "readFencingMark ReadOk (nodeDir (exNode exPinned)) exVol = Inr (exPinned, True)"
    by (rule readFencingMark_ReadOk) (simp_all add: exPinned_def exMark_def)
  ultimately show ?thesis
    using exSignatures exEvidence
    by (simp add: TransferVolumeOwnership_def exTransfer_def AuthorizationDigest_def
        CanonicalAuthorizationBytes_def ioOk_def)
      (simp add: exCodec_def exAuthorization_def exSnapshot_def exPinned_def exMark_def exTransferred_def)
qed

theorem transfer_commits_only_on_evidence_witness:
  "\<exists>s a m m'. tqSnapshot exTransfer = Some s \<and> tqAuthorization exTransfer = Some a \<and>
    VerifySnapshotWithCertificate exCodec (Some s) (rcCert exConfig) exNow = None \<and>
    VerifyAuthorization exCodec (Some a) (rcAnchors exConfig) exNow = None \<and>
    CheckAuthorizationMatchesSnapshot exCodec (Some a) (Some s) = None \<and>
    markAt (nodeDir (exNode exPinned)) (rsVolumeId s) = Some (MarkJSON m) \<and>
    markAt (nodeDir exTransferred) (rsVolumeId s) = Some (MarkJSON m') \<and> moves_ownership a m m' \<and>
    idle_evidence (exReg BackendLvm) (\<lambda>_ _. Some []) (nodeWorld (exNode exPinned)) (rsVolumeId s) (the (mLVMSource m))"
  using transfer_commits_only_on_evidence [OF exCommitted] by blast



text \<open>
  C12: the response of a committed transfer can be lost. The same request is answered with
  \<open>ALREADY_COMMITTED\<close> and the same digest, at any later time (also after the authorization expired)
  and whatever the storage node looks like by then; no mark and nothing on the node changes.
\<close>

theorem committed_transfer_retries:
  assumes "TransferVolumeOwnership reg ox cd rc io peer now n req = (Inr (OutcomeCommitted, digest), n')"
    and "ioRead io' = ReadOk" "ioWrite io' = WriteOk"
  shows "\<exists>n''. TransferVolumeOwnership reg' ox' cd rc io' peer now' n' req =
      (Inr (OutcomeAlreadyCommitted, digest), n'') \<and> nodeWorld n'' = nodeWorld n' \<and>
    (\<forall>v. markAt (nodeDir n'') v = markAt (nodeDir n') v)"
proof -
  obtain s a m m' where t: "tqSnapshot req = Some s" "tqAuthorization req = Some a"
    "checkTransferRequest rc peer req = None" "AuthorizationDigest cd (Some a) = Inr digest"
    "verifyTransferSignatures cd rc s a now = None"
    "markAt (nodeDir n') (rsVolumeId s) = Some (MarkJSON m')" "moves_ownership a m m'"
    "mTransfer m' = Some \<lparr>trAuthorizationDigest = DigestHex digest, trFromUID = raOldVolumeUid a,
       trFromGeneration = raOldGeneration a, trToUID = raNewVolumeUid a, trToGeneration = raNewGeneration a\<rparr>"
    using committed_transfer [OF assms(1)] by metis
  have "raNewVolumeUid a \<noteq> []"
    using t(5) VerifyAuthorization_None [of cd "Some a"] verifyAuthorizationFields_None
    unfolding verifyTransferSignatures_None by (metis option.inject)
  then have "mVolumeUID m' = raNewVolumeUid a" "readFencingMark ReadOk (nodeDir n') (rsVolumeId s) = Inr (m', True)"
    using t(6,7) by (auto simp: moves_ownership_def intro: readFencingMark_ReadOk)
  moreover have "checkCommittedTransferRetry (mTransfer m') a (DigestHex digest) = None"
    by (simp add: checkCommittedTransferRetry_def t(8))
  ultimately have "TransferVolumeOwnership reg' ox' cd rc io' peer now' n' req =
      (Inr (OutcomeAlreadyCommitted, digest), n'\<lparr>nodeDir := putMark (nodeDir n') (rsVolumeId s) m'\<rparr>)"
    using t(1-4) assms(2,3) by (simp add: TransferVolumeOwnership_def)
  then show ?thesis using t(6) by auto
qed

theorem committed_transfer_retries_witness:
  "\<exists>n''. TransferVolumeOwnership (exReg BackendLvm) (\<lambda>_ _. None) exCodec exConfig ioOk True (exNow + 10 ^ 18)
      exTransferred exTransfer = (Inr (OutcomeAlreadyCommitted, sha256 ''authorization''), n'') \<and>
    nodeWorld n'' = nodeWorld exTransferred \<and>
    (\<forall>v. markAt (nodeDir n'') v = markAt (nodeDir exTransferred) v)"
  by (rule committed_transfer_retries [OF exCommitted]) (simp_all add: ioOk_def)

text \<open>
  C13: a transfer never touches the storage node, and a transfer that is refused or fails with an
  error leaves every mark as it was, whichever write fault caused the error.
\<close>

theorem refused_transfer_changes_nothing:
  assumes "TransferVolumeOwnership reg ox cd rc io peer now n req = (r, n')"
  shows "nodeWorld n' = nodeWorld n \<and> (\<forall>e v. r = Inl e \<longrightarrow> markAt (nodeDir n') v = markAt (nodeDir n) v)"
  using assms
proof (cases rule: TransferVolumeOwnership_cases)
  case (moved s a digest stored "next" wr we)
  have "markAt (nodeDir n') v = markAt (nodeDir n) v" if "r = Inl e" for e v
    using that moved(11) marks.store_self [OF moved(9)] marks.store_other [OF moved(9), of v]
    by (cases "v = rsVolumeId s") (auto split: option.splits if_splits)
  then show ?thesis using moved(10) by blast
qed simp_all

theorem refused_transfer_changes_nothing_witness:
  "nodeWorld (snd (TransferVolumeOwnership (exReg BackendLvm) (\<lambda>_ _. None) exCodec exConfig ioOk True exNow
       (exNode exPinned) exTransfer)) = 0"
  using refused_transfer_changes_nothing [of "exReg BackendLvm" "\<lambda>_ _. None" exCodec exConfig ioOk True exNow
      "exNode exPinned" exTransfer] by (metis exNode_simps(2) surjective_pairing)

section \<open>Signed artifacts\<close>



lemma recoverySnapshot_Some:
  assumes "recoverySnapshot cd rc peer issued v stored exists obs consumers exports = Some s"
  obtains sg snap where "rcSigner rc = Some sg" "SignSnapshot cd (Some sg) (Some snap) = Inr s"
    "rsVolumeId snap = v" "rsBackendType snap = BackendLvm" "rsLvmSource snap \<noteq> None"
    "rsOldVolumeUid snap = mVolumeUID stored" "rsOldGeneration snap = mGeneration stored"
    "rsAgentIdentity snap = recoveryIdentity rc" "recoveryIdentity rc \<noteq> []" "rsIssuedAt snap = Some issued"
    "rsFence snap = Some (fenceObservation stored True)"
  using assms
  by (auto simp: recoverySnapshot_def recoveryConfigured_def split: if_splits sum.splits)

lemma SignSnapshot_fields:
  "SignSnapshot cd sg (Some snap) = Inr s \<Longrightarrow> rsAgentIdentity s = rsAgentIdentity snap"
  by (auto simp: SignSnapshot_def split: option.splits sum.splits)







text \<open>
  C30: a loaded trust anchor file gives at least one key, and every key is one the verifier
  supports: RSA or ECDSA.
\<close>

theorem trust_anchors_supported:
  assumes "LoadPublicKeysPEM file = Inr keys"
  shows "keys \<noteq> [] \<and> (\<forall>k\<in>set keys. checkKeySupported k = None)"
proof -
  obtain blocks where "collectKeys blocks [] = Inr keys" "keys \<noteq> []"
    using assms by (auto simp: LoadPublicKeysPEM_def split: option.splits sum.splits if_splits)
  then have "keys \<noteq> []" "OtherPublicKey \<notin> set keys" using collectKeys_supported by fastforce+
  then show ?thesis by (auto simp: checkKeySupported_def split: public_key.splits)
qed

theorem trust_anchors_supported_witness:
  "checkKeySupported (RSAPublicKey (1::nat)) = None \<and> checkKeySupported (ECDSAPublicKey (2::nat)) = None"
  using trust_anchors_supported [of "Some [OtherBlock, CertificateBlock (Some (RSAPublicKey (1::nat))),
        PublicKeyBlock (Some (ECDSAPublicKey 2))]" "[RSAPublicKey 1, ECDSAPublicKey 2]"]
  by (simp add: LoadPublicKeysPEM_def checkKeySupported_def)

end
