(* ===== verification/Publication.thy ===== *)
theory Publication
  imports Fence_Admission
begin

text \<open>
  The controller's durable record of a volume, \<open>internal/csi/volume_fencing.go\<close>: the
  \<open>PillarVolumeState\<close> object, the status changes of publish, unpublish, create and delete, and
  the compare-and-swap loop that commits them and hands out fencing tokens.

  A status change is a function of the object read; \<open>NoStatusChange\<close> is the sentinel
  \<open>errNoStatusChange\<close>. The Kubernetes API is a record of functions on its own state: reading
  an object, and replacing its status if the resource version is still the one that was read.
\<close>

section \<open>The volume state object\<close>

record publication =
  pubNodeID :: string
  pubInitiatorID :: string
  pubAccessMode :: string
  pubReadonly :: bool
  pubRevoking :: bool
  pubLocal :: bool

record fs_descriptor =
  dKind :: string
  dCanonicalSource :: string
  dResourceID :: string
  dHostPath :: string
  dFilesystemType :: string
  dFilesystemID :: string
  dInode :: string
  dProjectID :: "32 word"

record resolved =
  rvLocalAttach :: bool
  rvBackend :: string

record volume_spec =
  spVolumeID :: string
  spAgentVolumeID :: string
  spAgentRef :: string
  spBackendType :: string
  spProtocolType :: string
  spCapacityBytes :: int64
  spImportedFrom :: string
  spHasLVMSource :: bool
  spFilesystemAdoption :: "fs_descriptor option"
  spResolved :: "resolved option"
  spHasRecovery :: bool

record export_info =
  eiTargetID :: string
  eiAddress :: string
  eiPort :: "32 word"
  eiVolumeRef :: string

record volume_status =
  stPhase :: string
  stPublicationGeneration :: int64
  stPublishedNodes :: "publication list"
  stDeleting :: bool
  stLocalAttachNode :: string
  stImportAcquired :: bool
  stBackendDevicePath :: string
  stExportSpec :: "string option"
  stExportInfo :: "export_info option"
  stPartialFailure :: "string option"

record pvs =
  pvName :: string
  pvUID :: string
  pvResourceVersion :: nat
  pvSpec :: volume_spec
  pvStatus :: volume_status

text \<open>
  What a Go function of this file returns as an error: a gRPC status, the API server's conflict,
  another API error, or the nil dereference of a caller that got no object.
\<close>

datatype api_err = StatusErr grpc_code | ConflictErr | RawErr | NilDereference

datatype 'a status_change = Change 'a | NoStatusChange | Refuse api_err

definition updStatus :: "(volume_status \<Rightarrow> volume_status) \<Rightarrow> pvs \<Rightarrow> pvs" where
  "updStatus f p = p\<lparr>pvStatus := f (pvStatus p)\<rparr>"

abbreviation published :: "pvs \<Rightarrow> publication list" where
  "published p \<equiv> stPublishedNodes (pvStatus p)"

abbreviation generation :: "pvs \<Rightarrow> int64" where
  "generation p \<equiv> stPublicationGeneration (pvStatus p)"

lemma updStatus_simps [simp]:
  "pvName (updStatus f p) = pvName p" "pvUID (updStatus f p) = pvUID p"
  "pvResourceVersion (updStatus f p) = pvResourceVersion p" "pvSpec (updStatus f p) = pvSpec p"
  "pvStatus (updStatus f p) = f (pvStatus p)"
  by (simp_all add: updStatus_def)

section \<open>Publication conflicts\<close>

definition canSharePublication :: "publication \<Rightarrow> publication \<Rightarrow> bool" where
  "canSharePublication a b \<longleftrightarrow>
     pubAccessMode a = pubAccessMode b \<and>
     (pubAccessMode a \<in> {''MULTI_NODE_READER_ONLY'', ''MULTI_NODE_MULTI_WRITER''} \<or>
      pubAccessMode a = ''MULTI_NODE_SINGLE_WRITER'' \<and> (pubReadonly a \<or> pubReadonly b))"

definition checkPublicationConflict :: "publication \<Rightarrow> publication \<Rightarrow> err" where
  "checkPublicationConflict cur pub =
     (if pubNodeID cur \<noteq> pubNodeID pub then
        (if canSharePublication cur pub then None else Some FailedPrecondition)
      else if pubRevoking cur then Some Aborted
      else if cur = pub then None
      else if pubLocal cur \<noteq> pubLocal pub then Some FailedPrecondition
      else if pubInitiatorID cur \<noteq> pubInitiatorID pub then Some FailedPrecondition
      else Some AlreadyExists)"

definition refuseDeleting :: "pvs \<Rightarrow> err" where
  "refuseDeleting p = (if stDeleting (pvStatus p) then Some FailedPrecondition else None)"

text \<open>The loop over the recorded publications: a conflict, an identical record, or neither.\<close>

datatype scan = ScanConflict grpc_code | ScanIdentical | ScanFree

fun scanPublications :: "publication list \<Rightarrow> publication \<Rightarrow> scan" where
  "scanPublications [] pub = ScanFree"
| "scanPublications (cur # rest) pub =
     (case checkPublicationConflict cur pub of
        Some e \<Rightarrow> ScanConflict e
      | None \<Rightarrow> if cur = pub then ScanIdentical else scanPublications rest pub)"

section \<open>Status changes\<close>

definition reserveMutation :: "publication \<Rightarrow> pvs \<Rightarrow> pvs status_change" where
  "reserveMutation pub p =
     (case refuseDeleting p of
        Some e \<Rightarrow> Refuse (StatusErr e)
      | None \<Rightarrow>
         let p1 = (if pubLocal pub \<and> spFilesystemAdoption (pvSpec p) = None
                   then updStatus (\<lambda>s. s\<lparr>stLocalAttachNode := pubNodeID pub\<rparr>) p else p)
         in case scanPublications (published p1) pub of
              ScanConflict e \<Rightarrow> Refuse (StatusErr e)
            | ScanIdentical \<Rightarrow> Change p1
            | ScanFree \<Rightarrow> Change (updStatus (\<lambda>s. s\<lparr>stPublishedNodes := stPublishedNodes s @ [pub]\<rparr>) p1))"

definition claimMutation :: "pvs \<Rightarrow> pvs status_change" where
  "claimMutation p =
     (case refuseDeleting p of Some e \<Rightarrow> Refuse (StatusErr e) | None \<Rightarrow> Change p)"

definition clearLocalAttachMutation :: "string \<Rightarrow> pvs \<Rightarrow> pvs status_change" where
  "clearLocalAttachMutation node p =
     (if stLocalAttachNode (pvStatus p) \<noteq> node then NoStatusChange
      else if \<exists>pub\<in>set (published p). pubLocal pub then Refuse (StatusErr Aborted)
      else Change (updStatus (\<lambda>s. s\<lparr>stLocalAttachNode := []\<rparr>) p))"

text \<open>\<open>fencePublication\<close> marks the first record equal to the expected one.\<close>

fun markRevoking :: "publication \<Rightarrow> publication list \<Rightarrow> publication list" where
  "markRevoking expected [] = []"
| "markRevoking expected (x # xs) =
     (if x = expected then x\<lparr>pubRevoking := True\<rparr> # xs else x # markRevoking expected xs)"

definition fencePublicationMutation :: "publication \<Rightarrow> pvs \<Rightarrow> pvs status_change" where
  "fencePublicationMutation expected p =
     Change (updStatus (\<lambda>s. s\<lparr>stPublishedNodes := markRevoking expected (stPublishedNodes s)\<rparr>) p)"

definition selected :: "string \<Rightarrow> publication \<Rightarrow> bool" where
  "selected nodeID pub \<longleftrightarrow> nodeID = [] \<or> pubNodeID pub = nodeID"

definition revokeList :: "string \<Rightarrow> publication list \<Rightarrow> publication list" where
  "revokeList nodeID pubs =
     map (\<lambda>x. x\<lparr>pubRevoking := True\<rparr>) (filter (selected nodeID) pubs)"

definition fencePublicationsMutation :: "string \<Rightarrow> pvs \<Rightarrow> pvs status_change" where
  "fencePublicationsMutation nodeID p =
     (if revokeList nodeID (published p) = [] then NoStatusChange
      else Change (updStatus (\<lambda>s. s\<lparr>stPublishedNodes :=
             map (\<lambda>x. if selected nodeID x then x\<lparr>pubRevoking := True\<rparr> else x) (stPublishedNodes s)\<rparr>) p))"

definition fenceToken :: "pvs \<Rightarrow> api_err + fencing_token" where
  "fenceToken p =
     (if pvUID p = [] \<or> generation p <s 0 then Inl (StatusErr InternalError)
      else Inr \<lparr>tVolumeUid = pvUID p, tGeneration = generation p\<rparr>)"

definition releaseMutation :: "string list \<Rightarrow> fencing_token option \<Rightarrow> pvs \<Rightarrow> pvs status_change" where
  "releaseMutation nodeIDs fence p =
     (case (case fence of
              None \<Rightarrow> None
            | Some f \<Rightarrow>
               (case fenceToken p of
                  Inl e \<Rightarrow> Some e
                | Inr current \<Rightarrow>
                    if tGeneration current \<noteq> tGeneration f then Some (StatusErr Aborted) else None)) of
        Some e \<Rightarrow> Refuse e
      | None \<Rightarrow>
         let kept = filter (\<lambda>x. pubNodeID x \<notin> set nodeIDs) (published p) in
         if length kept = length (published p) then NoStatusChange
         else Change (updStatus (\<lambda>s. s\<lparr>stPublishedNodes := kept\<rparr>) p))"

definition recoveryPending :: "pvs \<Rightarrow> bool" where
  "recoveryPending p \<longleftrightarrow> spHasRecovery (pvSpec p) \<and> stExportInfo (pvStatus p) = None"

definition refuseRecoveryPending :: "pvs \<Rightarrow> err" where
  "refuseRecoveryPending p = (if recoveryPending p then Some FailedPrecondition else None)"

definition foreignHandle :: "string \<Rightarrow> pvs \<Rightarrow> bool" where
  "foreignHandle volumeID p \<longleftrightarrow>
     (spFilesystemAdoption (pvSpec p) \<noteq> None \<or> spVolumeID (pvSpec p) \<noteq> []) \<and>
     spVolumeID (pvSpec p) \<noteq> volumeID"

definition markVolumeDeletingMutation ::
    "string \<Rightarrow> (pvs \<Rightarrow> api_err option) option \<Rightarrow> pvs \<Rightarrow> pvs status_change" where
  "markVolumeDeletingMutation volumeID admit p =
     (if foreignHandle volumeID p then Refuse (StatusErr Aborted)
      else (case refuseRecoveryPending p of
        Some e \<Rightarrow> Refuse (StatusErr e)
      | None \<Rightarrow>
          if stDeleting (pvStatus p) then NoStatusChange
          else if published p \<noteq> [] then Refuse (StatusErr FailedPrecondition)
          else (case (case admit of None \<Rightarrow> None | Some f \<Rightarrow> f p) of
             Some e \<Rightarrow> Refuse e
           | None \<Rightarrow> Change (updStatus (\<lambda>s. s\<lparr>stDeleting := True\<rparr>) p))))"

definition createPartialMutation :: "string \<Rightarrow> string option \<Rightarrow> pvs \<Rightarrow> pvs status_change" where
  "createPartialMutation devicePath exportSpec p =
     Change (updStatus (\<lambda>s. s\<lparr>stPhase := ''CreatePartial'', stBackendDevicePath := devicePath,
        stExportSpec := exportSpec,
        stImportAcquired := stImportAcquired s \<or> spImportedFrom (pvSpec p) \<noteq> [] \<or>
          spHasLVMSource (pvSpec p) \<or> spFilesystemAdoption (pvSpec p) \<noteq> None,
        stPartialFailure := Some ''ExportVolume''\<rparr>) p)"

definition localOnlyFilesystem :: "pvs \<Rightarrow> bool" where
  "localOnlyFilesystem p \<longleftrightarrow>
     spFilesystemAdoption (pvSpec p) \<noteq> None \<and>
     (case spResolved (pvSpec p) of None \<Rightarrow> False | Some r \<Rightarrow> rvLocalAttach r)"

definition volumeReadyMutation :: "export_info option \<Rightarrow> pvs \<Rightarrow> pvs status_change" where
  "volumeReadyMutation info p =
     (if stDeleting (pvStatus p) then Refuse (StatusErr FailedPrecondition)
      else if info = None \<and> (\<not> localOnlyFilesystem p \<or> \<not> stImportAcquired (pvStatus p))
        then Refuse (StatusErr FailedPrecondition)
      else Change (updStatus (\<lambda>s. s\<lparr>stPhase := ''Ready'', stPartialFailure := None,
         stBackendDevicePath := [], stExportInfo := info,
         stExportSpec := (if info = None then None else stExportSpec s)\<rparr>) p))"

section \<open>Filesystem lifecycle handles\<close>

definition filesystemVolumeIDBase :: "volume_spec \<Rightarrow> string" where
  "filesystemVolumeIDBase s =
     joinWith (CHR ''/'') [spAgentRef s, spProtocolType s, spBackendType s, spAgentVolumeID s]"

definition lowerHex :: "char \<Rightarrow> bool" where
  "lowerHex c \<longleftrightarrow> (let n = of_char c :: nat in 48 \<le> n \<and> n \<le> 57 \<or> 97 \<le> n \<and> n \<le> 102)"

definition validFilesystemLifecycleNonce :: "string \<Rightarrow> bool" where
  "validFilesystemLifecycleNonce nonce \<longleftrightarrow> length nonce = 32 \<and> list_all lowerHex nonce"

definition isFilesystemVolumeID :: "volume_spec \<Rightarrow> bool" where
  "isFilesystemVolumeID s \<longleftrightarrow>
     spFilesystemAdoption s \<noteq> None \<and>
     spAgentRef s \<noteq> [] \<and> spProtocolType s \<noteq> [] \<and> spBackendType s \<noteq> [] \<and> spAgentVolumeID s \<noteq> [] \<and>
     prefix (filesystemVolumeIDBase s) (spVolumeID s) \<and>
     (let suffix = drop (length (filesystemVolumeIDBase s)) (spVolumeID s) in
      length suffix = 33 \<and> hd suffix = CHR ''.'' \<and> validFilesystemLifecycleNonce (tl suffix))"

text \<open>\<open>newFilesystemVolumeID\<close> with the 16 random bytes it reads.\<close>

definition newFilesystemVolumeID :: "string \<Rightarrow> string \<Rightarrow> string" where
  "newFilesystemVolumeID base nonce = base @ ''.'' @ hexEncode nonce"

definition validateFilesystemRetryIdentity :: "pvs \<Rightarrow> volume_spec \<Rightarrow> err" where
  "validateFilesystemRetryIdentity p spec =
     (if \<not> isFilesystemVolumeID (pvSpec p) then Some FailedPrecondition
      else if spVolumeID spec \<noteq> filesystemVolumeIDBase spec \<and> \<not> isFilesystemVolumeID spec
        then Some FailedPrecondition
      else if spFilesystemAdoption spec = None \<or>
         spFilesystemAdoption (pvSpec p) \<noteq> spFilesystemAdoption spec \<or>
         spAgentVolumeID (pvSpec p) \<noteq> spAgentVolumeID spec \<or>
         spAgentRef (pvSpec p) \<noteq> spAgentRef spec \<or>
         spBackendType (pvSpec p) \<noteq> spBackendType spec \<or>
         spProtocolType (pvSpec p) \<noteq> spProtocolType spec \<or>
         spImportedFrom (pvSpec p) \<noteq> spImportedFrom spec
        then Some FailedPrecondition
      else None)"

definition validateFilesystemRetryLayout :: "pvs \<Rightarrow> volume_spec \<Rightarrow> err" where
  "validateFilesystemRetryLayout p spec =
     (case (spResolved (pvSpec p), spResolved spec) of
        (None, None) \<Rightarrow> None
      | (Some a, Some b) \<Rightarrow>
          if rvLocalAttach a \<noteq> rvLocalAttach b \<or> rvBackend a \<noteq> rvBackend b
          then Some FailedPrecondition else None
      | _ \<Rightarrow> Some FailedPrecondition)"

definition validateFilesystemRetrySpec :: "pvs \<Rightarrow> volume_spec \<Rightarrow> err" where
  "validateFilesystemRetrySpec p spec =
     (if spFilesystemAdoption (pvSpec p) = None then None
      else orElse (validateFilesystemRetryIdentity p spec)
          (orElse (if spCapacityBytes (pvSpec p) \<noteq> spCapacityBytes spec then Some AlreadyExists else None)
             (validateFilesystemRetryLayout p spec)))"

definition provisioningMutation :: "volume_spec \<Rightarrow> pvs \<Rightarrow> pvs status_change" where
  "provisioningMutation spec p =
     (case validateFilesystemRetrySpec p spec of
        Some e \<Rightarrow> Refuse (StatusErr e)
      | None \<Rightarrow>
          if stPhase (pvStatus p) \<noteq> [] then NoStatusChange
          else Change (updStatus (\<lambda>s. s\<lparr>stPhase := ''Provisioning''\<rparr>) p))"

section \<open>Drivers\<close>

definition DefaultCSIDriver :: string where
  "DefaultCSIDriver = ''pillar-csi.bhyoo.com''"

definition FileCSIDriver :: string where
  "FileCSIDriver = ''files.pillar-csi.bhyoo.com''"

definition effectiveDriverName :: "string \<Rightarrow> string" where
  "effectiveDriverName driver = (if driver = [] then DefaultCSIDriver else driver)"

definition scopedDriverForVolume :: "volume_spec \<Rightarrow> string" where
  "scopedDriverForVolume s =
     (if spFilesystemAdoption s \<noteq> None then FileCSIDriver else DefaultCSIDriver)"

definition validateVolumeDriver :: "string \<Rightarrow> volume_spec \<Rightarrow> err" where
  "validateVolumeDriver driver s =
     (if scopedDriverForVolume s \<noteq> effectiveDriverName driver then Some NotFound else None)"

definition validateVolumeStateForUpdate :: "string \<Rightarrow> pvs \<Rightarrow> err" where
  "validateVolumeStateForUpdate driver p =
     orElse (validateVolumeDriver driver (pvSpec p))
       (if spFilesystemAdoption (pvSpec p) \<noteq> None \<and> \<not> isFilesystemVolumeID (pvSpec p)
        then Some FailedPrecondition else None)"

section \<open>The compare-and-swap loop\<close>

record 's kube =
  kGet :: "'s \<Rightarrow> string \<Rightarrow> unit + pvs option"
  kUpdateStatus :: "'s \<Rightarrow> pvs \<Rightarrow> (api_err + pvs) \<times> 's"

text \<open>
  One attempt. \<open>s\<close> is the API server's state at the read; \<open>env\<close> is what other clients do to it
  between the read and the write.
\<close>

definition updateVolumeStateAttempt ::
    "'s kube \<Rightarrow> string \<Rightarrow> ('s \<Rightarrow> 's) \<Rightarrow> 's \<Rightarrow> string \<Rightarrow> string \<Rightarrow> bool \<Rightarrow>
     (pvs \<Rightarrow> pvs status_change) \<Rightarrow> (api_err + pvs option) \<times> 's" where
  "updateVolumeStateAttempt k driver env s name uid bump mutate =
     (case kGet k s name of
        Inl _ \<Rightarrow> (Inl (StatusErr InternalError), s)
      | Inr found \<Rightarrow>
          if found = None \<or> uid \<noteq> [] \<and> pvUID (the found) \<noteq> uid then
            (if uid = [] then (Inr None, s) else (Inl (StatusErr Aborted), s))
          else
            let p = the found in
            (case validateVolumeStateForUpdate driver p of
               Some e \<Rightarrow> (Inl (StatusErr e), s)
             | None \<Rightarrow>
                (case mutate p of
                   NoStatusChange \<Rightarrow> (Inr (Some p), s)
                 | Refuse e \<Rightarrow> (Inl e, s)
                 | Change q \<Rightarrow>
                     let q' = (if bump then updStatus (\<lambda>t. t\<lparr>stPublicationGeneration :=
                                 stPublicationGeneration t + 1\<rparr>) q else q)
                     in case kUpdateStatus k (env s) q' of
                          (Inl e, s') \<Rightarrow> (Inl e, s')
                        | (Inr r, s') \<Rightarrow> (Inr (Some r), s'))))"

text \<open>
  \<open>retry.RetryOnConflict\<close>: at most \<open>steps\<close> attempts, another one only after a conflict. The
  \<open>i\<close>-th attempt meets the interference \<open>env i\<close>, and \<open>idle i\<close> happens before it.
\<close>

fun retryOnConflict ::
    "nat \<Rightarrow> (nat \<Rightarrow> 's \<Rightarrow> 's) \<Rightarrow> (nat \<Rightarrow> 's \<Rightarrow> (api_err + 'a) \<times> 's) \<Rightarrow> nat \<Rightarrow> 's \<Rightarrow> (api_err + 'a) \<times> 's" where
  "retryOnConflict 0 idle attempt i s = (Inl ConflictErr, s)"
| "retryOnConflict (Suc steps) idle attempt i s =
     (case attempt i (idle i s) of
        (Inl ConflictErr, s') \<Rightarrow> retryOnConflict steps idle attempt (Suc i) s'
      | r \<Rightarrow> r)"

definition publicationRecordError :: "api_err \<Rightarrow> api_err" where
  "publicationRecordError e =
     (case e of ConflictErr \<Rightarrow> StatusErr InternalError | RawErr \<Rightarrow> StatusErr InternalError | _ \<Rightarrow> e)"

text \<open>
  A controller's view of the API: its driver name, the number of attempts of a conflict retry,
  and what other clients do before and during the \<open>i\<close>-th attempt.
\<close>

record 's controller =
  cKube :: "'s kube"
  cDriver :: string
  cSteps :: nat
  cIdle :: "nat \<Rightarrow> 's \<Rightarrow> 's"
  cEnv :: "nat \<Rightarrow> 's \<Rightarrow> 's"

definition updateVolumeState ::
    "'s controller \<Rightarrow> 's \<Rightarrow> string \<Rightarrow> string \<Rightarrow> bool \<Rightarrow> (pvs \<Rightarrow> pvs status_change) \<Rightarrow>
     (api_err + pvs option) \<times> 's" where
  "updateVolumeState c s name uid bump mutate =
     (case retryOnConflict (cSteps c) (cIdle c)
             (\<lambda>i s. updateVolumeStateAttempt (cKube c) (cDriver c) (cEnv c i) s name uid bump mutate) 0 s of
        (r, s') \<Rightarrow> (map_sum publicationRecordError id r, s'))"

definition committedToken ::
    "'s controller \<Rightarrow> 's \<Rightarrow> string \<Rightarrow> string \<Rightarrow> (pvs \<Rightarrow> pvs status_change) \<Rightarrow>
     (api_err + fencing_token) \<times> 's" where
  "committedToken c s name uid mutate =
     (case updateVolumeState c s name uid True mutate of
        (Inl e, s') \<Rightarrow> (Inl e, s')
      | (Inr None, s') \<Rightarrow> (Inl NilDereference, s')
      | (Inr (Some p), s') \<Rightarrow> (fenceToken p, s'))"

definition claimOperation ::
    "'s controller \<Rightarrow> 's \<Rightarrow> string \<Rightarrow> string \<Rightarrow> (api_err + fencing_token) \<times> 's" where
  "claimOperation c s name uid = committedToken c s name uid claimMutation"

definition reservePublication ::
    "'s controller \<Rightarrow> 's \<Rightarrow> string \<Rightarrow> string \<Rightarrow> publication \<Rightarrow> (api_err + fencing_token) \<times> 's" where
  "reservePublication c s name uid pub = committedToken c s name uid (reserveMutation pub)"

definition clearLocalAttachNode ::
    "'s controller \<Rightarrow> 's \<Rightarrow> string \<Rightarrow> string \<Rightarrow> string \<Rightarrow> (api_err + fencing_token) \<times> 's" where
  "clearLocalAttachNode c s name uid node =
     (case committedToken c s name uid (clearLocalAttachMutation node) of
        (Inl e, s') \<Rightarrow> (Inl (publicationRecordError e), s')
      | (Inr t, s') \<Rightarrow> (Inr t, s'))"

definition currentToken ::
    "'s controller \<Rightarrow> 's \<Rightarrow> string \<Rightarrow> api_err + fencing_token" where
  "currentToken c s name =
     (case kGet (cKube c) s name of
        Inl _ \<Rightarrow> Inl (StatusErr InternalError)
      | Inr None \<Rightarrow> Inl (StatusErr NotFound)
      | Inr (Some p) \<Rightarrow>
         (case orElse (validateVolumeDriver (cDriver c) (pvSpec p)) (refuseDeleting p) of
            Some e \<Rightarrow> Inl (StatusErr e)
          | None \<Rightarrow> fenceToken p))"

definition fencePublications ::
    "'s controller \<Rightarrow> 's \<Rightarrow> string \<Rightarrow> string \<Rightarrow> string \<Rightarrow>
     (api_err + (fencing_token \<times> publication list) option) \<times> 's" where
  "fencePublications c s name uid nodeID =
     (case updateVolumeState c s name uid True (fencePublicationsMutation nodeID) of
        (Inl e, s') \<Rightarrow> (Inl e, s')
      | (Inr None, s') \<Rightarrow> (Inr None, s')
      | (Inr (Some p), s') \<Rightarrow>
          let revoke = filter (selected nodeID) (published p) in
          if revoke = [] then (Inr None, s')
          else (case fenceToken p of
                  Inl e \<Rightarrow> (Inl e, s') | Inr t \<Rightarrow> (Inr (Some (t, revoke)), s')))"

definition releasePublication ::
    "'s controller \<Rightarrow> 's \<Rightarrow> string \<Rightarrow> string \<Rightarrow> string list \<Rightarrow> fencing_token option \<Rightarrow>
     (api_err + nat) \<times> 's" where
  "releasePublication c s name uid nodeIDs fence =
     (case updateVolumeState c s name uid True (releaseMutation nodeIDs fence) of
        (Inl e, s') \<Rightarrow> (Inl (publicationRecordError e), s')
      | (Inr None, s') \<Rightarrow> (Inr 0, s')
      | (Inr (Some p), s') \<Rightarrow> (Inr (length (published p)), s'))"

definition markVolumeDeleting ::
    "'s controller \<Rightarrow> 's \<Rightarrow> ('s \<Rightarrow> 's) \<Rightarrow> string \<Rightarrow> string \<Rightarrow> (pvs \<Rightarrow> api_err option) option \<Rightarrow>
     (api_err + (pvs \<times> fencing_token) option) \<times> 's" where
  "markVolumeDeleting c s idle name volumeID admit =
     (case kGet (cKube c) s name of
        Inl _ \<Rightarrow> (Inl (StatusErr InternalError), s)
      | Inr None \<Rightarrow> (Inr None, s)
      | Inr (Some current) \<Rightarrow>
          if foreignHandle volumeID current then (Inr None, s)
          else (case updateVolumeState c (idle s) name (pvUID current) True
                       (markVolumeDeletingMutation volumeID admit) of
             (Inl e, s') \<Rightarrow> (Inl e, s')
           | (Inr None, s') \<Rightarrow> (Inr None, s')
           | (Inr (Some p), s') \<Rightarrow>
               (case fenceToken p of Inl e \<Rightarrow> (Inl e, s') | Inr t \<Rightarrow> (Inr (Some (p, t)), s'))))"

definition persistCreatePartial ::
    "'s controller \<Rightarrow> 's \<Rightarrow> string \<Rightarrow> string \<Rightarrow> string \<Rightarrow> string option \<Rightarrow> api_err option \<times> 's" where
  "persistCreatePartial c s name uid devicePath exportSpec =
     (case updateVolumeState c s name uid False (createPartialMutation devicePath exportSpec) of
        (Inl e, s') \<Rightarrow> (Some e, s') | (Inr _, s') \<Rightarrow> (None, s'))"

definition persistVolumeReady ::
    "'s controller \<Rightarrow> 's \<Rightarrow> string \<Rightarrow> string \<Rightarrow> export_info option \<Rightarrow> api_err option \<times> 's" where
  "persistVolumeReady c s name uid info =
     (case updateVolumeState c s name uid False (volumeReadyMutation info) of
        (Inl e, s') \<Rightarrow> (Some e, s') | (Inr _, s') \<Rightarrow> (None, s'))"

section \<open>Committed changes of one object\<close>

definition bumpStatus :: "bool \<Rightarrow> volume_status \<Rightarrow> volume_status" where
  "bumpStatus b t = (if b then t\<lparr>stPublicationGeneration := stPublicationGeneration t + 1\<rparr> else t)"

text \<open>\<open>r\<close> is the object after the change of \<open>p\<close> was written.\<close>

definition committed :: "bool \<Rightarrow> (pvs \<Rightarrow> pvs status_change) \<Rightarrow> pvs \<Rightarrow> pvs \<Rightarrow> bool" where
  "committed bump mutate p r \<longleftrightarrow>
     (\<exists>q. mutate p = Change q \<and> pvStatus r = bumpStatus bump (pvStatus q)) \<and>
     pvSpec r = pvSpec p \<and> pvUID r = pvUID p \<and> pvName r = pvName p"

inductive volume_step :: "pvs \<Rightarrow> pvs \<Rightarrow> bool" where
  claim: "committed True claimMutation p q \<Longrightarrow> volume_step p q"
| reserve: "committed True (reserveMutation pub) p q \<Longrightarrow> pubNodeID pub \<noteq> [] \<Longrightarrow> volume_step p q"
| clearLocal: "committed True (clearLocalAttachMutation node) p q \<Longrightarrow> volume_step p q"
| fenceOne: "committed True (fencePublicationMutation expected) p q \<Longrightarrow> volume_step p q"
| fenceMany: "committed True (fencePublicationsMutation nodeID) p q \<Longrightarrow> volume_step p q"
| release: "committed True (releaseMutation nodeIDs fence) p q \<Longrightarrow> volume_step p q"
| deleting: "committed True (markVolumeDeletingMutation volumeID admit) p q \<Longrightarrow> volume_step p q"
| partly: "committed False (createPartialMutation devicePath exportSpec) p q \<Longrightarrow> volume_step p q"
| ready: "committed False (volumeReadyMutation info) p q \<Longrightarrow> volume_step p q"
| provisioning: "committed False (provisioningMutation spec) p q \<Longrightarrow> volume_step p q"

section \<open>The invariant of a volume's publications\<close>

definition pairwise_shared :: "publication list \<Rightarrow> bool" where
  "pairwise_shared pubs \<longleftrightarrow>
     (\<forall>a\<in>set pubs. \<forall>b\<in>set pubs. pubNodeID a \<noteq> pubNodeID b \<longrightarrow> canSharePublication a b)"

definition pub_wf :: "pvs \<Rightarrow> bool" where
  "pub_wf p \<longleftrightarrow>
     distinct (map pubNodeID (published p)) \<and> pairwise_shared (published p) \<and>
     (stDeleting (pvStatus p) \<longrightarrow> published p = []) \<and>
     (spFilesystemAdoption (pvSpec p) = None \<longrightarrow> (\<exists>x\<in>set (published p). pubLocal x) \<longrightarrow>
        stLocalAttachNode (pvStatus p) \<noteq> [])"

lemma bumpStatus_simps [simp]:
  "stPublishedNodes (bumpStatus b t) = stPublishedNodes t" "stDeleting (bumpStatus b t) = stDeleting t"
  "stLocalAttachNode (bumpStatus b t) = stLocalAttachNode t" "stPhase (bumpStatus b t) = stPhase t"
  "stPublicationGeneration (bumpStatus b t) =
     (if b then stPublicationGeneration t + 1 else stPublicationGeneration t)"
  by (simp_all add: bumpStatus_def)

lemma canSharePublication_sym: "canSharePublication a b = canSharePublication b a"
  by (auto simp: canSharePublication_def)

lemma canSharePublication_revoking [simp]:
  "canSharePublication (a\<lparr>pubRevoking := x\<rparr>) b = canSharePublication a b"
  "canSharePublication a (b\<lparr>pubRevoking := x\<rparr>) = canSharePublication a b"
  by (simp_all add: canSharePublication_def)

lemma scanPublications_free:
  "scanPublications pubs pub = ScanFree \<Longrightarrow> x \<in> set pubs \<Longrightarrow>
     pubNodeID x \<noteq> pubNodeID pub \<and> canSharePublication x pub"
  by (induction pubs) (auto simp: checkPublicationConflict_def split: option.splits if_splits)

lemma pairwise_shared_snoc:
  assumes "pairwise_shared pubs" "scanPublications pubs pub = ScanFree"
  shows "pairwise_shared (pubs @ [pub])"
  using assms scanPublications_free [OF assms(2)] canSharePublication_sym
  by (auto simp: pairwise_shared_def)

text \<open>Marking records as revoking and dropping records keep the invariant of the list.\<close>

lemma markRevoking_map:
  "map pubNodeID (markRevoking e pubs) = map pubNodeID pubs"
  "map pubLocal (markRevoking e pubs) = map pubLocal pubs"
  by (induction pubs) auto

lemma markRevoking_mem:
  "x \<in> set (markRevoking e pubs) \<Longrightarrow> \<exists>y\<in>set pubs. x = y \<or> x = y\<lparr>pubRevoking := True\<rparr>"
  by (induction pubs) (auto split: if_splits)

lemma pairwise_shared_image:
  assumes "pairwise_shared pubs" "\<And>x. x \<in> set pubs' \<Longrightarrow> \<exists>y\<in>set pubs. x = y \<or> x = y\<lparr>pubRevoking := True\<rparr>"
  shows "pairwise_shared pubs'"
  unfolding pairwise_shared_def
proof (intro ballI impI)
  fix a b assume "a \<in> set pubs'" "b \<in> set pubs'" and ne: "pubNodeID a \<noteq> pubNodeID b"
  then obtain a' b' where "a' \<in> set pubs" "a = a' \<or> a = a'\<lparr>pubRevoking := True\<rparr>"
    "b' \<in> set pubs" "b = b' \<or> b = b'\<lparr>pubRevoking := True\<rparr>"
    using assms(2) by metis
  then show "canSharePublication a b"
    using assms(1) ne unfolding pairwise_shared_def by auto
qed

section \<open>Every committed change keeps the invariant\<close>

lemma pub_wf_cong:
  assumes "published r = published q" "stDeleting (pvStatus r) = stDeleting (pvStatus q)"
    "stLocalAttachNode (pvStatus r) = stLocalAttachNode (pvStatus q)" "pvSpec r = pvSpec q"
  shows "pub_wf r = pub_wf q"
  using assms by (simp add: pub_wf_def)

lemma committed_wf:
  assumes "committed b f p r" "pub_wf p"
    and "\<And>q. f p = Change q \<Longrightarrow> pub_wf q \<and> pvSpec q = pvSpec p"
  shows "pub_wf r"
proof -
  obtain q where q: "f p = Change q" "pvStatus r = bumpStatus b (pvStatus q)" "pvSpec r = pvSpec p"
    using assms(1) by (auto simp: committed_def)
  then have "pub_wf q" "pvSpec q = pvSpec p" using assms(3) by blast+
  then show ?thesis using q pub_wf_cong [of r q] by simp
qed

lemma reserveMutation_wf:
  assumes "reserveMutation pub p = Change q" "pub_wf p" "pubNodeID pub \<noteq> []"
  shows "pub_wf q \<and> pvSpec q = pvSpec p"
proof -
  define p1 where "p1 = (if pubLocal pub \<and> spFilesystemAdoption (pvSpec p) = None
    then updStatus (\<lambda>s. s\<lparr>stLocalAttachNode := pubNodeID pub\<rparr>) p else p)"
  have p1: "published p1 = published p" "pvSpec p1 = pvSpec p"
      "stDeleting (pvStatus p1) = stDeleting (pvStatus p)" "pub_wf p1"
    using assms(2,3) by (auto simp: p1_def pub_wf_def)
  have live: "\<not> stDeleting (pvStatus p)"
    using assms(1) by (auto simp: reserveMutation_def refuseDeleting_def split: if_splits)
  have "q = p1 \<or> scanPublications (published p) pub = ScanFree \<and>
      q = updStatus (\<lambda>s. s\<lparr>stPublishedNodes := stPublishedNodes s @ [pub]\<rparr>) p1"
    using assms(1) p1(1) unfolding reserveMutation_def p1_def [symmetric] Let_def
    by (auto split: option.splits scan.splits)
  then show ?thesis
  proof
    assume "q = p1"
    then show ?thesis using p1 by simp
  next
    assume free: "scanPublications (published p) pub = ScanFree \<and>
      q = updStatus (\<lambda>s. s\<lparr>stPublishedNodes := stPublishedNodes s @ [pub]\<rparr>) p1"
    have local: "pubLocal pub \<Longrightarrow> spFilesystemAdoption (pvSpec p) = None \<Longrightarrow>
        stLocalAttachNode (pvStatus p1) = pubNodeID pub"
      by (simp add: p1_def)
    have fresh: "pubNodeID pub \<notin> pubNodeID ` set (published p)"
      using free scanPublications_free [of "published p" pub] by force
    show ?thesis
      using free p1 live local fresh assms(3) pairwise_shared_snoc [of "published p" pub]
      by (auto simp: pub_wf_def)
  qed
qed

lemma clearLocalAttachMutation_wf:
  "clearLocalAttachMutation node p = Change q \<Longrightarrow> pub_wf p \<Longrightarrow> pub_wf q \<and> pvSpec q = pvSpec p"
  by (auto simp: clearLocalAttachMutation_def pub_wf_def split: if_splits)

lemma revoking_wf:
  assumes "pub_wf p" "map pubNodeID pubs = map pubNodeID (published p)"
    "map pubLocal pubs = map pubLocal (published p)"
    and "\<And>x. x \<in> set pubs \<Longrightarrow> \<exists>y\<in>set (published p). x = y \<or> x = y\<lparr>pubRevoking := True\<rparr>"
  shows "pub_wf (updStatus (\<lambda>s. s\<lparr>stPublishedNodes := pubs\<rparr>) p)"
proof -
  have "pubs = [] \<longleftrightarrow> published p = []" using assms(2) by (metis map_is_Nil_conv)
  moreover have "(\<exists>x\<in>set pubs. pubLocal x) \<longleftrightarrow> (\<exists>x\<in>set (published p). pubLocal x)"
    using arg_cong [OF assms(3), of set] by (simp add: set_eq_iff image_iff) metis
  ultimately show ?thesis
    using assms(1,2) pairwise_shared_image [OF _ assms(4)] by (simp add: pub_wf_def)
qed

lemma fencePublicationMutation_wf:
  "fencePublicationMutation e p = Change q \<Longrightarrow> pub_wf p \<Longrightarrow> pub_wf q \<and> pvSpec q = pvSpec p"
  using revoking_wf [of p "markRevoking e (published p)"]
  by (auto simp: fencePublicationMutation_def markRevoking_map updStatus_def dest: markRevoking_mem)

lemma fencePublicationsMutation_wf:
  assumes "fencePublicationsMutation nodeID p = Change q" "pub_wf p"
  shows "pub_wf q \<and> pvSpec q = pvSpec p"
proof -
  let ?f = "\<lambda>x. if selected nodeID x then x\<lparr>pubRevoking := True\<rparr> else x"
  have "q = updStatus (\<lambda>s. s\<lparr>stPublishedNodes := map ?f (published p)\<rparr>) p"
    using assms(1) by (auto simp: fencePublicationsMutation_def updStatus_def split: if_splits)
  moreover have "pub_wf (updStatus (\<lambda>s. s\<lparr>stPublishedNodes := map ?f (published p)\<rparr>) p)"
    using assms(2) by (rule revoking_wf) auto
  ultimately show ?thesis by simp
qed

lemma releaseMutation_wf:
  "releaseMutation ids fence p = Change q \<Longrightarrow> pub_wf p \<Longrightarrow> pub_wf q \<and> pvSpec q = pvSpec p"
  by (auto simp: releaseMutation_def Let_def pub_wf_def pairwise_shared_def distinct_map_filter
      split: option.splits if_splits)

lemma markVolumeDeletingMutation_wf:
  "markVolumeDeletingMutation v admit p = Change q \<Longrightarrow> pub_wf p \<Longrightarrow> pub_wf q \<and> pvSpec q = pvSpec p"
  by (auto simp: markVolumeDeletingMutation_def pub_wf_def split: option.splits if_splits)

lemma phase_mutations_wf:
  "claimMutation p = Change q \<Longrightarrow> pub_wf p \<Longrightarrow> pub_wf q \<and> pvSpec q = pvSpec p"
  "createPartialMutation d x p = Change q \<Longrightarrow> pub_wf p \<Longrightarrow> pub_wf q \<and> pvSpec q = pvSpec p"
  "volumeReadyMutation i p = Change q \<Longrightarrow> pub_wf p \<Longrightarrow> pub_wf q \<and> pvSpec q = pvSpec p"
  "provisioningMutation spec p = Change q \<Longrightarrow> pub_wf p \<Longrightarrow> pub_wf q \<and> pvSpec q = pvSpec p"
  by (auto simp: claimMutation_def createPartialMutation_def volumeReadyMutation_def
      provisioningMutation_def pub_wf_def split: option.splits if_splits)

lemmas mutation_wf = reserveMutation_wf clearLocalAttachMutation_wf fencePublicationMutation_wf
  fencePublicationsMutation_wf releaseMutation_wf markVolumeDeletingMutation_wf phase_mutations_wf

lemma volume_step_wf: "volume_step p q \<Longrightarrow> pub_wf p \<Longrightarrow> pub_wf q"
  by (induction rule: volume_step.induct)
    (erule committed_wf, assumption, (erule mutation_wf; assumption))+

lemma volume_steps_wf: "volume_step\<^sup>*\<^sup>* p q \<Longrightarrow> pub_wf p \<Longrightarrow> pub_wf q"
  by (induction rule: rtranclp_induct) (auto intro: volume_step_wf)

section \<open>Generations\<close>

definition meta_kept :: "(pvs \<Rightarrow> pvs status_change) \<Rightarrow> bool" where
  "meta_kept f \<longleftrightarrow> (\<forall>p q. f p = Change q \<longrightarrow>
     pvName q = pvName p \<and> pvUID q = pvUID p \<and> pvResourceVersion q = pvResourceVersion p \<and>
     generation q = generation p)"

lemma meta_kept_mutations:
  "meta_kept claimMutation" "meta_kept (reserveMutation pub)" "meta_kept (clearLocalAttachMutation node)"
  "meta_kept (fencePublicationMutation e)" "meta_kept (fencePublicationsMutation nodeID)"
  "meta_kept (releaseMutation ids fence)" "meta_kept (markVolumeDeletingMutation v admit)"
  "meta_kept (createPartialMutation d x)" "meta_kept (volumeReadyMutation i)"
  "meta_kept (provisioningMutation spec)"
  by (auto simp: meta_kept_def claimMutation_def reserveMutation_def clearLocalAttachMutation_def
      fencePublicationMutation_def fencePublicationsMutation_def releaseMutation_def
      markVolumeDeletingMutation_def createPartialMutation_def volumeReadyMutation_def
      provisioningMutation_def Let_def split: option.splits if_splits scan.splits)

lemma committed_generation:
  assumes "committed bump f p r" "meta_kept f"
  shows "generation r = (if bump then generation p + 1 else generation p) \<and> pvUID r = pvUID p"
proof -
  obtain q where "f p = Change q" "pvStatus r = bumpStatus bump (pvStatus q)"
    using assms(1) by (auto simp: committed_def)
  then show ?thesis using assms by (auto simp: committed_def meta_kept_def)
qed

lemma volume_step_generation:
  "volume_step p q \<Longrightarrow> (generation q = generation p \<or> generation q = generation p + 1) \<and> pvUID q = pvUID p"
  by (induction rule: volume_step.induct)
    (drule committed_generation, rule meta_kept_mutations, simp)+

section \<open>A committed update is atomic\<close>

text \<open>
  What the code relies on of the API server: a read returns the stored object, an accepted status
  update replaces the status of the object whose resource version the client read and stores
  nothing else, and other clients never bring back a resource version with another content.
\<close>

definition cas_kube :: "'s kube \<Rightarrow> ('s \<Rightarrow> string \<Rightarrow> pvs option) \<Rightarrow> bool" where
  "cas_kube k current \<longleftrightarrow>
     (\<forall>s name x. kGet k s name = Inr x \<longrightarrow> x = current s name) \<and>
     (\<forall>s name p. current s name = Some p \<longrightarrow> pvName p = name) \<and>
     (\<forall>s p r s'. kUpdateStatus k s p = (Inr r, s') \<longrightarrow>
        (\<exists>q. current s (pvName p) = Some q \<and> pvResourceVersion q = pvResourceVersion p \<and>
           pvName r = pvName q \<and> pvUID r = pvUID q \<and> pvSpec r = pvSpec q \<and> pvStatus r = pvStatus p \<and>
           current s' = (current s)(pvName p \<mapsto> r)))"

definition honest_env :: "('s \<Rightarrow> string \<Rightarrow> pvs option) \<Rightarrow> ('s \<Rightarrow> 's) \<Rightarrow> bool" where
  "honest_env current env \<longleftrightarrow>
     (\<forall>s name p q. current s name = Some p \<longrightarrow> current (env s) name = Some q \<longrightarrow>
        pvResourceVersion q = pvResourceVersion p \<longrightarrow> q = p)"

lemma cas_kube_update:
  assumes "cas_kube k current" "kUpdateStatus k s p = (Inr r, s')"
  shows "\<exists>q. current s (pvName p) = Some q \<and> pvResourceVersion q = pvResourceVersion p \<and>
    pvName r = pvName q \<and> pvUID r = pvUID q \<and> pvSpec r = pvSpec q \<and> pvStatus r = pvStatus p \<and>
    current s' = (current s)(pvName p \<mapsto> r)"
  using assms unfolding cas_kube_def by blast

lemma attempt_atomic:
  assumes k: "cas_kube k current" and env: "honest_env current env" and f: "meta_kept f"
    and att: "updateVolumeStateAttempt k driver env s name uid bump f = (Inr (Some r), s')"
  shows "(\<exists>p. current s name = Some p \<and> f p = NoStatusChange \<and> r = p \<and> s' = s \<and> (uid \<noteq> [] \<longrightarrow> pvUID p = uid)) \<or>
    (\<exists>p. current (env s) name = Some p \<and> committed bump f p r \<and>
       current s' = (current (env s))(name \<mapsto> r) \<and> (uid \<noteq> [] \<longrightarrow> pvUID p = uid))"
proof -
  obtain p where get: "kGet k s name = Inr (Some p)" "uid = [] \<or> pvUID p = uid"
      "validateVolumeStateForUpdate driver p = None"
    using att by (auto simp: updateVolumeStateAttempt_def Let_def split: sum.splits if_splits option.splits)
  have cur: "current s name = Some p"
    using k get(1) unfolding cas_kube_def by metis
  then have name: "pvName p = name"
    using k unfolding cas_kube_def by blast
  show ?thesis
  proof (cases "f p")
    case NoStatusChange
    then show ?thesis using att get cur by (auto simp: updateVolumeStateAttempt_def Let_def)
  next
    case (Refuse e)
    then show ?thesis using att get by (auto simp: updateVolumeStateAttempt_def Let_def)
  next
    case (Change q)
    let ?q = "if bump then updStatus (\<lambda>t. t\<lparr>stPublicationGeneration := stPublicationGeneration t + 1\<rparr>) q else q"
    have upd: "kUpdateStatus k (env s) ?q = (Inr r, s')"
      using att get Change
      by (auto simp: updateVolumeStateAttempt_def Let_def split: prod.splits sum.splits if_splits)
    have q: "pvName ?q = name" "pvResourceVersion ?q = pvResourceVersion p"
      using f Change name by (auto simp: meta_kept_def)
    obtain p' where p': "current (env s) name = Some p'" "pvResourceVersion p' = pvResourceVersion p"
        "pvName r = pvName p'" "pvUID r = pvUID p'" "pvSpec r = pvSpec p'" "pvStatus r = pvStatus ?q"
        "current s' = (current (env s))(name \<mapsto> r)"
      using cas_kube_update [OF k upd] unfolding q by blast
    then have "p' = p" using env cur unfolding honest_env_def by blast
    then show ?thesis using p' Change get(2) by (auto simp: committed_def bumpStatus_def)
  qed
qed

lemma retry_success:
  "retryOnConflict steps idle attempt i s = (Inr x, s') \<Longrightarrow>
     \<exists>j s0. i \<le> j \<and> j < i + steps \<and> attempt j s0 = (Inr x, s')"
proof (induction steps idle attempt i s rule: retryOnConflict.induct)
  case (2 steps idle attempt i s)
  show ?case
  proof (cases "\<exists>s1. attempt i (idle i s) = (Inl ConflictErr, s1)")
    case True
    then obtain s1 where s1: "attempt i (idle i s) = (Inl ConflictErr, s1)" by blast
    then have "retryOnConflict steps idle attempt (Suc i) s1 = (Inr x, s')" using 2(2) by simp
    then obtain j s0 where "Suc i \<le> j" "j < Suc i + steps" "attempt j s0 = (Inr x, s')"
      using 2(1) [OF s1 [symmetric]] by auto
    then show ?thesis by (intro exI [of _ j] exI [of _ s0]) simp
  next
    case False
    then have "attempt i (idle i s) = (Inr x, s')"
      using 2(2) by (auto split: prod.splits sum.splits api_err.splits)
    then show ?thesis by auto
  qed
qed simp

lemma updateVolumeState_atomic:
  assumes "cas_kube (cKube c) current" "\<And>i. honest_env current (cEnv c i)" "meta_kept f"
    and "updateVolumeState c s name uid bump f = (Inr (Some r), s')"
  shows "\<exists>s0 p. current s0 name = Some p \<and> (uid \<noteq> [] \<longrightarrow> pvUID p = uid) \<and>
    (f p = NoStatusChange \<and> r = p \<and> s' = s0 \<or>
     committed bump f p r \<and> current s' = (current s0)(name \<mapsto> r))"
proof -
  obtain j s0 where "updateVolumeStateAttempt (cKube c) (cDriver c) (cEnv c j) s0 name uid bump f = (Inr (Some r), s')"
    using assms(4) by (auto simp: updateVolumeState_def map_sum_def
        dest!: retry_success split: prod.splits sum.splits)
  from attempt_atomic [OF assms(1) assms(2) assms(3) this] show ?thesis by blast
qed

end
