(* ===== verification/Publication_Properties.thy ===== *)
theory Publication_Properties
  imports Publication
begin

text \<open>
  What the controller promises about a volume's durable record: who may hold the volume at the
  same time, that a fencing token is the generation of a committed change, that deletion is
  final, and that the handles of adopted filesystems are unique per lifecycle.
\<close>

section \<open>An object to instantiate the properties on\<close>

definition exSpec :: volume_spec where
  "exSpec = \<lparr>spVolumeID = ''agent/nvmeof-tcp/zfs-zvol/tank/vol'', spAgentVolumeID = ''tank/vol'', spAgentRef = ''agent'',
     spBackendType = ''zfs-zvol'', spProtocolType = ''nvmeof-tcp'', spCapacityBytes = 10, spImportedFrom = [],
     spHasLVMSource = False, spFilesystemAdoption = None, spResolved = None, spHasRecovery = False\<rparr>"

definition exStatus :: volume_status where
  "exStatus = \<lparr>stPhase = ''Ready'', stPublicationGeneration = 3, stPublishedNodes = [], stDeleting = False,
     stLocalAttachNode = [], stImportAcquired = False, stBackendDevicePath = [], stExportSpec = None,
     stExportInfo = None, stPartialFailure = None\<rparr>"

definition exVolume :: pvs where
  "exVolume = \<lparr>pvName = ''pvc-1'', pvUID = ''uid-1'', pvResourceVersion = 7, pvSpec = exSpec, pvStatus = exStatus\<rparr>"

definition exPub :: "string \<Rightarrow> publication" where
  "exPub node = \<lparr>pubNodeID = node, pubInitiatorID = ''nqn.'' @ node, pubAccessMode = ''MULTI_NODE_SINGLE_WRITER'',
     pubReadonly = (node \<noteq> ''n1''), pubRevoking = False, pubLocal = False\<rparr>"

text \<open>An API server that stores one object and rejects a write with an old resource version.\<close>

definition exKube :: "pvs kube" where
  "exKube = \<lparr>kGet = (\<lambda>s name. Inr (if name = pvName s then Some s else None)),
     kUpdateStatus = (\<lambda>s p. if pvName p \<noteq> pvName s \<or> pvResourceVersion p \<noteq> pvResourceVersion s
        then (Inl ConflictErr, s)
        else (let r = s\<lparr>pvStatus := pvStatus p, pvResourceVersion := pvResourceVersion s + 1\<rparr> in (Inr r, r)))\<rparr>"

definition exCurrent :: "pvs \<Rightarrow> string \<Rightarrow> pvs option" where
  "exCurrent s name = (if name = pvName s then Some s else None)"

definition exController :: "pvs controller" where
  "exController = \<lparr>cKube = exKube, cDriver = [], cSteps = 5, cIdle = (\<lambda>_ s. s), cEnv = (\<lambda>_ s. s)\<rparr>"

lemma retryOnConflict_numeral:
  "retryOnConflict (numeral k) idle attempt i s =
     (case attempt i (idle i s) of
        (Inl ConflictErr, s') \<Rightarrow> retryOnConflict (pred_numeral k) idle attempt (Suc i) s'
      | r \<Rightarrow> r)"
  by (simp add: numeral_eq_Suc)

lemma exKube_cas: "cas_kube (cKube exController) exCurrent" "honest_env exCurrent (cEnv exController i)"
proof -
  show "cas_kube (cKube exController) exCurrent"
    unfolding cas_kube_def
    by (auto simp: exController_def exKube_def exCurrent_def Let_def fun_eq_iff split: if_splits)
  show "honest_env exCurrent (cEnv exController i)"
    by (auto simp: honest_env_def exController_def exCurrent_def split: if_splits)
qed

section \<open>Publications\<close>

text \<open>
  C4: access modes are enforced by the durable record alone. After any sequence of committed
  changes, in any interleaving of controllers, two records are of different nodes and of one
  multi-node access mode, and with a single writer at least one of the two is read-only.
\<close>

theorem publications_exclusive:
  assumes "volume_step\<^sup>*\<^sup>* p q" "pub_wf p" "a \<in> set (published q)" "b \<in> set (published q)" "a \<noteq> b"
  shows "pubNodeID a \<noteq> pubNodeID b \<and> pubAccessMode a = pubAccessMode b \<and>
    pubAccessMode a \<in> {''MULTI_NODE_READER_ONLY'', ''MULTI_NODE_SINGLE_WRITER'', ''MULTI_NODE_MULTI_WRITER''} \<and>
    (pubAccessMode a = ''MULTI_NODE_SINGLE_WRITER'' \<longrightarrow> pubReadonly a \<or> pubReadonly b)"
proof -
  have wf: "pub_wf q" using assms(1,2) by (rule volume_steps_wf)
  then have "inj_on pubNodeID (set (published q))" by (simp add: pub_wf_def distinct_map)
  then have "pubNodeID a \<noteq> pubNodeID b" using assms(3-5) by (auto dest: inj_onD)
  moreover from this have "canSharePublication a b"
    using wf assms(3,4) by (auto simp: pub_wf_def pairwise_shared_def)
  ultimately show ?thesis by (auto simp: canSharePublication_def)
qed

definition exPublished :: pvs where
  "exPublished = updStatus (\<lambda>s. s\<lparr>stPublishedNodes := [exPub ''n1'', exPub ''n2''], stPublicationGeneration := 5\<rparr>) exVolume"

lemma exPublished_steps: "volume_step\<^sup>*\<^sup>* exVolume exPublished"
proof -
  let ?mid = "updStatus (\<lambda>s. s\<lparr>stPublishedNodes := [exPub ''n1''], stPublicationGeneration := 4\<rparr>) exVolume"
  have "volume_step exVolume ?mid"
    by (rule volume_step.reserve [where pub = "exPub ''n1''"])
      (simp_all add: committed_def reserveMutation_def refuseDeleting_def exVolume_def exStatus_def exPub_def bumpStatus_def)
  moreover have "volume_step ?mid exPublished"
    by (rule volume_step.reserve [where pub = "exPub ''n2''"])
      (simp_all add: committed_def reserveMutation_def refuseDeleting_def exVolume_def exStatus_def exPub_def bumpStatus_def
        exPublished_def checkPublicationConflict_def canSharePublication_def)
  ultimately show ?thesis by simp
qed

theorem publications_exclusive_witness:
  "pubNodeID (exPub ''n1'') \<noteq> pubNodeID (exPub ''n2'') \<and> pubAccessMode (exPub ''n1'') = pubAccessMode (exPub ''n2'') \<and>
   (pubReadonly (exPub ''n1'') \<or> pubReadonly (exPub ''n2''))"
  using publications_exclusive [OF exPublished_steps, of "exPub ''n1''" "exPub ''n2''"]
  by (simp add: exPublished_def exVolume_def exStatus_def pub_wf_def pairwise_shared_def exPub_def)

section \<open>Tokens\<close>

lemma committedToken_committed:
  assumes "cas_kube (cKube c) current" "\<And>i. honest_env current (cEnv c i)" "meta_kept f"
    and "committedToken c s name uid f = (Inr t, s')"
  obtains s0 p r where "current s0 name = Some p" "uid \<noteq> [] \<longrightarrow> pvUID p = uid" "current s' name = Some r"
    "fenceToken r = Inr t" "f p = NoStatusChange \<and> r = p \<or> committed True f p r"
proof -
  obtain r where r: "updateVolumeState c s name uid True f = (Inr (Some r), s')" "fenceToken r = Inr t"
    using assms(4) by (auto simp: committedToken_def split: prod.splits sum.splits option.splits)
  then show ?thesis using updateVolumeState_atomic [OF assms(1-3) r(1)] that by fastforce
qed

lemma fenceToken_Inr:
  "fenceToken r = Inr t \<Longrightarrow> tVolumeUid t = pvUID r \<and> tGeneration t = generation r \<and> pvUID r \<noteq> [] \<and> 0 \<le>s generation r"
  by (auto simp: fenceToken_def word_sless_alt word_sle_eq split: if_splits)

lemma mutation_changes [simp]:
  "reserveMutation pub p \<noteq> NoStatusChange" "claimMutation p \<noteq> NoStatusChange"
  by (auto simp: reserveMutation_def claimMutation_def Let_def split: option.splits scan.splits)

lemma reserved_member:
  assumes "committed True (reserveMutation pub) p r"
  shows "pub \<in> set (published r) \<and> \<not> stDeleting (pvStatus r) \<and> set (published p) \<subseteq> set (published r)"
proof -
  have "scanPublications pubs pub = ScanIdentical \<Longrightarrow> pub \<in> set pubs" for pubs
    by (induction pubs) (auto split: option.splits if_splits)
  then show ?thesis
    using assms
    by (auto simp: committed_def reserveMutation_def refuseDeleting_def Let_def split: option.splits scan.splits if_splits)
qed


lemma exReserved:
  "reservePublication exController exVolume ''pvc-1'' ''uid-1'' (exPub ''n1'') =
     (Inr \<lparr>tVolumeUid = ''uid-1'', tGeneration = 4\<rparr>,
      exVolume\<lparr>pvResourceVersion := 8, pvStatus := exStatus\<lparr>stPublishedNodes := [exPub ''n1''], stPublicationGeneration := 4\<rparr>\<rparr>)"
  by (simp add: reservePublication_def committedToken_def updateVolumeState_def exController_def Let_def
      retryOnConflict_numeral
      updateVolumeStateAttempt_def exKube_def exVolume_def exStatus_def exSpec_def validateVolumeStateForUpdate_def
      validateVolumeDriver_def scopedDriverForVolume_def effectiveDriverName_def reserveMutation_def
      refuseDeleting_def exPub_def updStatus_def fenceToken_def word_sless_alt)


section \<open>Revocation and deletion\<close>

lemma volume_step_deleting:
  assumes "volume_step p q" "stDeleting (pvStatus p)"
  shows "stDeleting (pvStatus q)"
  using assms
proof (induction rule: volume_step.induct)
qed (auto simp: committed_def claimMutation_def reserveMutation_def clearLocalAttachMutation_def refuseDeleting_def
    fencePublicationMutation_def fencePublicationsMutation_def releaseMutation_def markVolumeDeletingMutation_def
    createPartialMutation_def volumeReadyMutation_def provisioningMutation_def Let_def
    split: option.splits if_splits scan.splits)

lemma volume_steps_deleting:
  "volume_step\<^sup>*\<^sup>* p q \<Longrightarrow> stDeleting (pvStatus p) \<Longrightarrow> stDeleting (pvStatus q)"
  by (induction rule: rtranclp_induct) (auto intro: volume_step_deleting)

text \<open>
  C24: deletion is final and only an unpublished volume is deleted. A change that marks a volume
  as deleting found no publication; afterwards, in every later committed state, the volume stays
  marked, stays unpublished, refuses every reservation and every operation token, and cannot
  become ready.
\<close>

theorem deletion_is_final:
  assumes "committed True (markVolumeDeletingMutation volumeID admit) p q" "volume_step\<^sup>*\<^sup>* q r" "pub_wf p"
  shows "published p = [] \<and> stDeleting (pvStatus r) \<and> published r = [] \<and>
    reserveMutation pub r = Refuse (StatusErr FailedPrecondition) \<and>
    claimMutation r = Refuse (StatusErr FailedPrecondition) \<and>
    volumeReadyMutation info r = Refuse (StatusErr FailedPrecondition)"
proof -
  have marked: "published p = []" "stDeleting (pvStatus q)"
    using assms(1) by (auto simp: committed_def markVolumeDeletingMutation_def split: option.splits if_splits)
  have "pub_wf q" by (rule volume_step_wf [OF volume_step.deleting [OF assms(1)] assms(3)])
  then have "pub_wf r" using assms(2) volume_steps_wf by blast
  moreover have "stDeleting (pvStatus r)" using volume_steps_deleting [OF assms(2) marked(2)] .
  ultimately show ?thesis
    using marked(1)
    by (simp add: pub_wf_def reserveMutation_def claimMutation_def volumeReadyMutation_def refuseDeleting_def)
qed

definition exDeletingVolume :: pvs where
  "exDeletingVolume = updStatus (\<lambda>s. s\<lparr>stDeleting := True, stPublicationGeneration := 4\<rparr>) exVolume"

theorem deletion_is_final_witness:
  "published exDeletingVolume = [] \<and> reserveMutation (exPub ''n1'') exDeletingVolume = Refuse (StatusErr FailedPrecondition)"
  using deletion_is_final [of "spVolumeID exSpec" None exVolume exDeletingVolume exDeletingVolume "exPub ''n1''" None]
  by (simp add: committed_def markVolumeDeletingMutation_def foreignHandle_def refuseRecoveryPending_def
      recoveryPending_def exDeletingVolume_def exVolume_def exStatus_def exSpec_def bumpStatus_def pub_wf_def
      pairwise_shared_def)

lemma fenceMany_marks:
  assumes "committed True (fencePublicationsMutation nodeID) p q"
  shows "published q = map (\<lambda>x. if selected nodeID x then x\<lparr>pubRevoking := True\<rparr> else x) (published p)"
  using assms by (auto simp: committed_def fencePublicationsMutation_def updStatus_def split: if_splits)

lemma length_filter_eq: "length (filter P xs) = length xs \<longleftrightarrow> (\<forall>x\<in>set xs. P x)"
  by (metis filter_True filter_id_conv length_filter_less less_irrefl)

lemma releaseMutation_outcome:
  "case releaseMutation ids (Some t) r of
     Change r' \<Rightarrow> generation r = tGeneration t \<and> published r' = filter (\<lambda>x. pubNodeID x \<notin> set ids) (published r)
   | NoStatusChange \<Rightarrow> generation r = tGeneration t \<and> (\<forall>x\<in>set (published r). pubNodeID x \<notin> set ids)
   | Refuse e \<Rightarrow> e = StatusErr Aborted \<and> generation r \<noteq> tGeneration t \<or>
       e = StatusErr InternalError \<and> (pvUID r = [] \<or> generation r <s 0)"
proof (cases "fenceToken r")
  case (Inl e)
  then have "e = StatusErr InternalError \<and> (pvUID r = [] \<or> generation r <s 0)"
    by (auto simp: fenceToken_def split: if_splits)
  then show ?thesis using Inl by (simp add: releaseMutation_def)
next
  case (Inr cur)
  then have "tGeneration cur = generation r" using fenceToken_Inr by blast
  then show ?thesis using Inr by (simp add: releaseMutation_def Let_def length_filter_eq)
qed

text \<open>
  C25: unpublishing is two committed changes with the revocation on the agents in between. The
  first marks exactly the selected records and advances the generation. The second, which carries
  the token of the first, removes exactly the records of the named nodes, and only while the
  generation is still the one of that token; when a newer token was handed out it is refused as
  aborted and the records stay.
\<close>

theorem release_needs_latest_fence:
  assumes "committed True (fencePublicationsMutation nodeID) p q" "fenceToken q = Inr t"
  shows "map pubRevoking (published q) = map (\<lambda>x. pubRevoking x \<or> selected nodeID x) (published p) \<and>
    map pubNodeID (published q) = map pubNodeID (published p) \<and> tGeneration t = generation p + 1 \<and>
    (case releaseMutation ids (Some t) r of
       Change r' \<Rightarrow> generation r = generation q \<and>
         published r' = filter (\<lambda>x. pubNodeID x \<notin> set ids) (published r)
     | NoStatusChange \<Rightarrow> generation r = generation q \<and> (\<forall>x\<in>set (published r). pubNodeID x \<notin> set ids)
     | Refuse e \<Rightarrow> e = StatusErr Aborted \<and> generation r \<noteq> generation q \<or>
         e = StatusErr InternalError \<and> (pvUID r = [] \<or> generation r <s 0))"
proof -
  have "generation q = generation p + 1"
    using committed_generation [OF assms(1) meta_kept_mutations(5)] by simp
  moreover have "tGeneration t = generation q" using fenceToken_Inr [OF assms(2)] by simp
  moreover have "map pubRevoking (published q) = map (\<lambda>x. pubRevoking x \<or> selected nodeID x) (published p)"
    "map pubNodeID (published q) = map pubNodeID (published p)"
    by (auto simp: fenceMany_marks [OF assms(1)])
  ultimately show ?thesis
    using releaseMutation_outcome [where ids = ids and t = t and r = r] by (simp split: status_change.splits)
qed

definition exRevoking :: pvs where
  "exRevoking = updStatus (\<lambda>s. s\<lparr>stPublishedNodes := [exPub ''n1''\<lparr>pubRevoking := True\<rparr>, exPub ''n2''],
     stPublicationGeneration := 6\<rparr>) exPublished"

theorem release_needs_latest_fence_witness:
  "releaseMutation [''n1''] (Some \<lparr>tVolumeUid = ''uid-1'', tGeneration = 6\<rparr>)
     (updStatus (\<lambda>s. s\<lparr>stPublicationGeneration := 7\<rparr>) exRevoking) = Refuse (StatusErr Aborted)"
  using release_needs_latest_fence [where nodeID = "''n1''" and p = exPublished and q = exRevoking and
      t = "\<lparr>tVolumeUid = ''uid-1'', tGeneration = 6\<rparr>" and ids = "[''n1'']" and
      r = "updStatus (\<lambda>s. s\<lparr>stPublicationGeneration := 7\<rparr>) exRevoking"]
  by (simp add: committed_def fencePublicationsMutation_def revokeList_def selected_def exRevoking_def exPublished_def
      exVolume_def exStatus_def exPub_def bumpStatus_def fenceToken_def word_sless_alt releaseMutation_def)

section \<open>Lifecycle handles\<close>

lemma lowerHex_hexDigit: "n < 16 \<Longrightarrow> lowerHex (hexDigit n)"
  by (drule less_16_cases) (auto simp: hexDigit_def hexDigits_def lowerHex_def)

lemma lowerHex_hexEncode: "list_all lowerHex (hexEncode s)"
  by (induction s) (simp_all add: lowerHex_hexDigit)

text \<open>
  C36: a handle made for an adopted filesystem from 16 random bytes is recognized as a handle of
  its volume, and two lifecycles of the same volume never have the same handle unless the random
  bytes repeat.
\<close>

theorem filesystem_handles_unique:
  assumes "spFilesystemAdoption s \<noteq> None" "length nonce = 16"
    and "spAgentRef s \<noteq> []" "spProtocolType s \<noteq> []" "spBackendType s \<noteq> []" "spAgentVolumeID s \<noteq> []"
  shows "isFilesystemVolumeID (s\<lparr>spVolumeID := newFilesystemVolumeID (filesystemVolumeIDBase s) nonce\<rparr>) \<and>
    (newFilesystemVolumeID (filesystemVolumeIDBase s) nonce = newFilesystemVolumeID (filesystemVolumeIDBase s) nonce' \<longleftrightarrow>
       nonce = nonce')"
proof -
  have "filesystemVolumeIDBase (s\<lparr>spVolumeID := x\<rparr>) = filesystemVolumeIDBase s" for x
    by (simp add: filesystemVolumeIDBase_def)
  then show ?thesis
    using assms
    by (simp add: isFilesystemVolumeID_def newFilesystemVolumeID_def validFilesystemLifecycleNonce_def
        lowerHex_hexEncode)
qed

definition exFsSpec :: volume_spec where
  "exFsSpec = exSpec\<lparr>spFilesystemAdoption := Some \<lparr>dKind = ''directory'', dCanonicalSource = ''/data'',
     dResourceID = ''r'', dHostPath = ''/data'', dFilesystemType = ''xfs'', dFilesystemID = ''f'', dInode = ''1'',
     dProjectID = 7\<rparr>\<rparr>"

theorem filesystem_handles_unique_witness:
  "isFilesystemVolumeID (exFsSpec\<lparr>spVolumeID := newFilesystemVolumeID (filesystemVolumeIDBase exFsSpec)
     (replicate 16 (CHR ''x''))\<rparr>)"
  using filesystem_handles_unique [of exFsSpec "replicate 16 (CHR ''x'')"]
  by (simp add: exFsSpec_def exSpec_def)

end
