(* ===== verification/State_Machine.thy ===== *)
theory State_Machine
  imports Prelude
begin

text \<open>
  The volume lifecycle of \<open>internal/csi/statemachine.go\<close>: the table of legal transitions and the
  machine that applies it, one state per volume ID. The table is \<open>legalTransitions\<close>; the map of
  states forgets a volume that does not exist.
\<close>

section \<open>States and operations\<close>

datatype volume_state =
    StateNonExistent | StateCreated | StateControllerPublished | StateNodeStaged
  | StateNodePublished | StateNodeStagePartial | StateCreatePartial

datatype volume_operation =
    OpCreateVolume | OpCreateVolumeBackend | OpDeleteVolume | OpControllerPublish
  | OpControllerUnpublish | OpNodeStage | OpNodeStageConnected | OpNodeUnstage
  | OpNodePublish | OpNodeUnpublish

record transition_result =
  trTo :: volume_state
  trIsNoop :: bool

definition move :: "volume_state \<Rightarrow> transition_result option" where
  "move s = Some \<lparr>trTo = s, trIsNoop = False\<rparr>"

definition stay :: "volume_state \<Rightarrow> transition_result option" where
  "stay s = Some \<lparr>trTo = s, trIsNoop = True\<rparr>"

fun legalTransitions :: "volume_state \<Rightarrow> volume_operation \<Rightarrow> transition_result option" where
  "legalTransitions StateNonExistent OpCreateVolume = move StateCreated"
| "legalTransitions StateCreated OpCreateVolume = stay StateCreated"
| "legalTransitions StateNonExistent OpCreateVolumeBackend = move StateCreatePartial"
| "legalTransitions StateCreatePartial OpCreateVolumeBackend = stay StateCreatePartial"
| "legalTransitions StateCreatePartial OpCreateVolume = move StateCreated"
| "legalTransitions StateCreatePartial OpDeleteVolume = move StateNonExistent"
| "legalTransitions StateCreated OpDeleteVolume = move StateNonExistent"
| "legalTransitions StateNonExistent OpDeleteVolume = stay StateNonExistent"
| "legalTransitions StateCreated OpControllerPublish = move StateControllerPublished"
| "legalTransitions StateControllerPublished OpControllerPublish = stay StateControllerPublished"
| "legalTransitions StateControllerPublished OpControllerUnpublish = move StateCreated"
| "legalTransitions StateCreated OpControllerUnpublish = stay StateCreated"
| "legalTransitions StateControllerPublished OpNodeStage = move StateNodeStaged"
| "legalTransitions StateNodeStaged OpNodeStage = stay StateNodeStaged"
| "legalTransitions StateControllerPublished OpNodeStageConnected = move StateNodeStagePartial"
| "legalTransitions StateNodeStagePartial OpNodeStage = move StateNodeStaged"
| "legalTransitions StateNodeStagePartial OpNodeUnstage = move StateControllerPublished"
| "legalTransitions StateNodeStaged OpNodeUnstage = move StateControllerPublished"
| "legalTransitions StateControllerPublished OpNodeUnstage = stay StateControllerPublished"
| "legalTransitions StateNodeStaged OpNodePublish = move StateNodePublished"
| "legalTransitions StateNodePublished OpNodePublish = stay StateNodePublished"
| "legalTransitions StateNodePublished OpNodeUnpublish = move StateNodeStaged"
| "legalTransitions StateNodeStaged OpNodeUnpublish = stay StateNodeStaged"
| "legalTransitions _ _ = None"

section \<open>The machine\<close>

type_synonym machine = "string \<rightharpoonup> volume_state"

definition GetState :: "machine \<Rightarrow> string \<Rightarrow> volume_state" where
  "GetState m v = (case m v of Some s \<Rightarrow> s | None \<Rightarrow> StateNonExistent)"

definition setState :: "machine \<Rightarrow> string \<Rightarrow> volume_state \<Rightarrow> machine" where
  "setState m v s = (if s = StateNonExistent then m(v := None) else m(v \<mapsto> s))"

definition Transition :: "machine \<Rightarrow> string \<Rightarrow> volume_operation \<Rightarrow> bool result \<times> machine" where
  "Transition m v op =
     (case legalTransitions (GetState m v) op of
        None \<Rightarrow> (Inl FailedPrecondition, m)
      | Some r \<Rightarrow> (Inr (trIsNoop r), if trIsNoop r then m else setState m v (trTo r)))"

definition ForceState :: "machine \<Rightarrow> string \<Rightarrow> volume_state \<Rightarrow> machine" where
  "ForceState m v s = setState m v s"

text \<open>The machine a sequence of requests leaves; a refused request changes nothing.\<close>

fun runOperations :: "machine \<Rightarrow> (string \<times> volume_operation) list \<Rightarrow> machine" where
  "runOperations m [] = m"
| "runOperations m ((v, op) # ops) = runOperations (snd (Transition m v op)) ops"

text \<open>
  The depth of the attach stack a state stands for: the backend volume, its publication, the
  node's staging, the node's mount.
\<close>

fun depth :: "volume_state \<Rightarrow> nat" where
  "depth StateNonExistent = 0"
| "depth StateCreatePartial = 1"
| "depth StateCreated = 1"
| "depth StateControllerPublished = 2"
| "depth StateNodeStagePartial = 3"
| "depth StateNodeStaged = 3"
| "depth StateNodePublished = 4"

lemma move_stay_simps [simp]:
  "move s = Some r \<longleftrightarrow> r = \<lparr>trTo = s, trIsNoop = False\<rparr>"
  "stay s = Some r \<longleftrightarrow> r = \<lparr>trTo = s, trIsNoop = True\<rparr>" "move s \<noteq> None" "stay s \<noteq> None"
  by (auto simp: move_def stay_def)

lemma GetState_setState [simp]:
  "GetState (setState m v s) u = (if u = v then s else GetState m u)"
  by (simp add: GetState_def setState_def)

lemma legal_noop: "legalTransitions s op = Some r \<Longrightarrow> trIsNoop r \<longleftrightarrow> trTo r = s"
  by (cases s; cases op) auto

lemma legal_repeat:
  "legalTransitions s op = Some r \<Longrightarrow> op \<noteq> OpNodeStageConnected \<Longrightarrow>
     legalTransitions (trTo r) op = stay (trTo r)"
  by (cases s; cases op) auto

lemma legal_depth:
  "legalTransitions s op = Some r \<Longrightarrow> depth (trTo r) \<le> depth s + 1 \<and> depth s \<le> depth (trTo r) + 1"
  by (cases s; cases op) auto

lemma legal_delete: "legalTransitions s OpDeleteVolume \<noteq> None \<longleftrightarrow> depth s \<le> 1"
  by (cases s) auto

lemma legal_create: "depth s = 0 \<Longrightarrow> legalTransitions s op = Some r \<Longrightarrow> depth (trTo r) \<noteq> 0 \<Longrightarrow>
    op \<in> {OpCreateVolume, OpCreateVolumeBackend}"
  by (cases s; cases op) auto

lemma Transition_frame: "Transition m v op = (r, m') \<Longrightarrow> u \<noteq> v \<Longrightarrow> GetState m' u = GetState m u"
  by (auto simp: Transition_def split: option.splits if_splits)

lemma Transition_state:
  "Transition m v op = (Inr noop, m') \<Longrightarrow>
     \<exists>r. legalTransitions (GetState m v) op = Some r \<and> noop = trIsNoop r \<and> GetState m' v = trTo r"
  by (auto simp: Transition_def legal_noop split: option.splits if_splits)

lemma runOperations_snoc:
  "runOperations m (ops @ [(v, op)]) = snd (Transition (runOperations m ops) v op)"
  by (induction m ops rule: runOperations.induct) simp_all

text \<open>The requests that must have happened, in this order, before a volume is in a state.\<close>

fun required :: "volume_state \<Rightarrow> volume_operation list" where
  "required StateNonExistent = []"
| "required StateCreatePartial = [OpCreateVolumeBackend]"
| "required StateCreated = [OpCreateVolume]"
| "required StateControllerPublished = [OpCreateVolume, OpControllerPublish]"
| "required StateNodeStagePartial = [OpCreateVolume, OpControllerPublish, OpNodeStageConnected]"
| "required StateNodeStaged = [OpCreateVolume, OpControllerPublish, OpNodeStage]"
| "required StateNodePublished = [OpCreateVolume, OpControllerPublish, OpNodeStage, OpNodePublish]"

lemma legal_required: "legalTransitions s op = Some r \<Longrightarrow> subseq (required (trTo r)) (required s @ [op])"
  by (cases s; cases op) auto

lemma Transition_required:
  assumes "subseq (required (GetState m v)) ops"
  shows "subseq (required (GetState (snd (Transition m v op)) v)) (ops @ [op])"
proof (cases "legalTransitions (GetState m v) op")
  case None
  then show ?thesis using assms list_emb_append2 [of _ _ "[]"] by (simp add: Transition_def list_emb_prefix)
next
  case (Some r)
  have "subseq (required (GetState m v) @ [op]) (ops @ [op])"
    using assms by (simp add: list_emb_append_mono)
  moreover have "GetState (snd (Transition m v op)) v = trTo r"
    using Some by (simp add: Transition_def legal_noop)
  ultimately show ?thesis using legal_required [OF Some] subseq_order.trans by metis
qed

section \<open>Properties\<close>




text \<open>
  C33: a volume is deleted only while nothing above the backend holds it: the request is refused
  with \<open>FailedPrecondition\<close>, and the machine unchanged, from every published, staged or mounted
  state, and otherwise ends in \<open>NonExistent\<close>. No request moves a volume by more than one layer.
\<close>

theorem delete_needs_detached:
  "(fst (Transition m v OpDeleteVolume) = Inl FailedPrecondition \<and> snd (Transition m v OpDeleteVolume) = m \<longleftrightarrow>
      GetState m v \<in> {StateControllerPublished, StateNodeStaged, StateNodePublished, StateNodeStagePartial}) \<and>
   (GetState m v \<in> {StateNonExistent, StateCreated, StateCreatePartial} \<longleftrightarrow>
      ok (fst (Transition m v OpDeleteVolume)) \<and> GetState (snd (Transition m v OpDeleteVolume)) v = StateNonExistent) \<and>
   depth (GetState (snd (Transition m v op)) v) \<le> depth (GetState m v) + 1 \<and>
   depth (GetState m v) \<le> depth (GetState (snd (Transition m v op)) v) + 1"
proof -
  have "depth (GetState (snd (Transition m v op)) v) \<le> depth (GetState m v) + 1 \<and>
      depth (GetState m v) \<le> depth (GetState (snd (Transition m v op)) v) + 1"
  proof (cases "legalTransitions (GetState m v) op")
    case (Some r)
    then show ?thesis using legal_depth [OF Some] by (simp add: Transition_def legal_noop)
  qed (simp add: Transition_def)
  then show ?thesis by (cases "GetState m v") (auto simp: Transition_def move_def stay_def)
qed



end
