(* ===== verification/Netip.thy ===== *)
theory Netip
  imports Prelude "HOL-Library.Char_ord" "HOL-Library.List_Lexorder"
begin

text \<open>
  IP addresses as Go's \<open>net/netip\<close> reads and prints them. The agent stores NFS clients and bind
  addresses in the form \<open>ip.Unmap().String()\<close> and reads them back with \<open>netip.ParseAddr\<close>, so
  the development needs both directions and that they agree (\<open>parseAddr_addrString\<close>). An IPv4
  address is its four bytes, an IPv6 address its eight 16-bit groups and its zone.
\<close>

section \<open>Addresses\<close>

datatype addr = Addr4 "nat list" | Addr6 "nat list" string

fun addr_wf :: "addr \<Rightarrow> bool" where
  "addr_wf (Addr4 bs) \<longleftrightarrow> length bs = 4 \<and> list_all (\<lambda>b. b < 256) bs"
| "addr_wf (Addr6 gs z) \<longleftrightarrow> length gs = 8 \<and> list_all (\<lambda>g. g < 65536) gs"

fun Is4 :: "addr \<Rightarrow> bool" where
  "Is4 (Addr4 _) = True"
| "Is4 (Addr6 _ _) = False"

fun Is4In6 :: "addr \<Rightarrow> bool" where
  "Is4In6 (Addr4 _) = False"
| "Is4In6 (Addr6 gs _) \<longleftrightarrow> take 6 gs = [0, 0, 0, 0, 0, 65535]"

fun addrZone :: "addr \<Rightarrow> string" where
  "addrZone (Addr4 _) = []"
| "addrZone (Addr6 _ z) = z"

definition groupBytes :: "nat list \<Rightarrow> nat list" where
  "groupBytes gs = concat (map (\<lambda>g. [g div 256, g mod 256]) gs)"

fun Unmap :: "addr \<Rightarrow> addr" where
  "Unmap (Addr4 bs) = Addr4 bs"
| "Unmap (Addr6 gs z) = (if Is4In6 (Addr6 gs z) then Addr4 (groupBytes (drop 6 gs)) else Addr6 gs z)"

definition IsUnspecified :: "addr \<Rightarrow> bool" where
  "IsUnspecified a \<longleftrightarrow> a = Addr4 [0, 0, 0, 0] \<or> a = Addr6 (replicate 8 0) []"

text \<open>\<open>IsMulticast\<close> looks at the IPv4 address inside a mapped one; \<open>IsUnspecified\<close> does not.\<close>

definition IsMulticast :: "addr \<Rightarrow> bool" where
  "IsMulticast a \<longleftrightarrow>
     (case Unmap a of
        Addr4 bs \<Rightarrow> hd bs div 16 = 14
      | Addr6 gs _ \<Rightarrow> hd gs div 256 = 255)"

section \<open>Parsing\<close>

definition digitValue :: "char \<Rightarrow> nat option" where
  "digitValue c = (let n = of_char c :: nat in if 48 \<le> n \<and> n \<le> 57 then Some (n - 48) else None)"

text \<open>
  \<open>parseIPv4Fields\<close>: the value and the number of digits of the field being read, and the fields
  before it. A dot needs a digit before it and a character after it.
\<close>

fun parseIPv4Fields :: "string \<Rightarrow> nat \<Rightarrow> nat \<Rightarrow> nat list \<Rightarrow> nat list option" where
  "parseIPv4Fields [] val digLen acc = (if length acc < 3 then None else Some (acc @ [val]))"
| "parseIPv4Fields (c # cs) val digLen acc =
     (case digitValue c of
        Some d \<Rightarrow>
          if digLen = 1 \<and> val = 0 then None
          else if val * 10 + d > 255 then None
          else parseIPv4Fields cs (val * 10 + d) (Suc digLen) acc
      | None \<Rightarrow>
          if c = CHR ''.'' then
            (if digLen = 0 \<or> cs = [] then None
             else if length acc = 3 then None
             else parseIPv4Fields cs 0 0 (acc @ [val]))
          else None)"

definition parseIPv4 :: "string \<Rightarrow> addr option" where
  "parseIPv4 s = map_option Addr4 (parseIPv4Fields s 0 0 [])"

text \<open>The hexadecimal digits of one group: their number, their value, and what follows.\<close>

fun scanHex :: "string \<Rightarrow> nat \<Rightarrow> nat \<Rightarrow> (nat \<times> nat \<times> string) option" where
  "scanHex [] off acc = Some (off, acc, [])"
| "scanHex (c # cs) off acc =
     (case hexValue c of
        None \<Rightarrow> Some (off, acc, c # cs)
      | Some d \<Rightarrow> if off > 3 then None else scanHex cs (Suc off) (16 * acc + d))"

definition joinGroups :: "nat list \<Rightarrow> nat list" where
  "joinGroups bs = [256 * bs ! 0 + bs ! 1, 256 * bs ! 2 + bs ! 3]"

text \<open>
  The loop of \<open>parseIPv6\<close>, with the number of groups that are left, the position of the ellipsis
  and the groups read so far. It returns the unread rest.
\<close>

fun parseIPv6Loop ::
    "nat \<Rightarrow> string \<Rightarrow> nat option \<Rightarrow> nat list \<Rightarrow> (string \<times> nat option \<times> nat list) option" where
  "parseIPv6Loop 0 s ell acc = Some (s, ell, acc)"
| "parseIPv6Loop (Suc k) s ell acc =
     (case scanHex s 0 0 of
        None \<Rightarrow> None
      | Some (off, v, rest) \<Rightarrow>
          if off = 0 then None
          else if rest \<noteq> [] \<and> hd rest = CHR ''.'' then
            (if ell = None \<and> length acc \<noteq> 6 then None
             else if length acc + 2 > 8 then None
             else map_option (\<lambda>bs. ([], ell, acc @ joinGroups bs)) (parseIPv4Fields s 0 0 []))
          else if rest = [] then Some ([], ell, acc @ [v])
          else if hd rest \<noteq> CHR '':'' \<or> tl rest = [] then None
          else if hd (tl rest) = CHR '':'' then
            (if ell \<noteq> None then None
             else if tl (tl rest) = [] then Some ([], Some (Suc (length acc)), acc @ [v])
             else parseIPv6Loop k (tl (tl rest)) (Some (Suc (length acc))) (acc @ [v]))
          else parseIPv6Loop k (tl rest) ell (acc @ [v]))"

definition expandEllipsis :: "nat option \<Rightarrow> nat list \<Rightarrow> nat list option" where
  "expandEllipsis ell acc =
     (if length acc < 8 then
        map_option (\<lambda>e. take e acc @ replicate (8 - length acc) 0 @ drop e acc) ell
      else if ell \<noteq> None then None else Some acc)"

definition parseIPv6Groups :: "string \<Rightarrow> nat list option" where
  "parseIPv6Groups s =
     (let leading = take 2 s = ''::''; body = (if leading then drop 2 s else s) in
      if leading \<and> body = [] then Some (replicate 8 0)
      else (case parseIPv6Loop 8 body (if leading then Some 0 else None) [] of
              None \<Rightarrow> None
            | Some (rest, ell, acc) \<Rightarrow> if rest \<noteq> [] then None else expandEllipsis ell acc))"

definition parseIPv6 :: "string \<Rightarrow> addr option" where
  "parseIPv6 s =
     (case indexByte s (CHR ''%'') of
        None \<Rightarrow> map_option (\<lambda>gs. Addr6 gs []) (parseIPv6Groups s)
      | Some i \<Rightarrow>
          if drop (Suc i) s = [] then None
          else map_option (\<lambda>gs. Addr6 gs (drop (Suc i) s)) (parseIPv6Groups (take i s)))"

text \<open>\<open>ParseAddr\<close>: the first dot, colon or percent sign decides.\<close>

fun addrFamily :: "string \<Rightarrow> char option" where
  "addrFamily [] = None"
| "addrFamily (c # cs) = (if c \<in> {CHR ''.'', CHR '':'', CHR ''%''} then Some c else addrFamily cs)"

definition parseAddr :: "string \<Rightarrow> addr option" where
  "parseAddr s =
     (if addrFamily s = Some (CHR ''.'') then parseIPv4 s
      else if addrFamily s = Some (CHR '':'') then parseIPv6 s else None)"

text \<open>\<open>net.ParseIP(s) != nil\<close>.\<close>

definition isIP :: "string \<Rightarrow> bool" where
  "isIP s \<longleftrightarrow> (case parseAddr s of None \<Rightarrow> False | Some a \<Rightarrow> addrZone a = [])"

section \<open>Printing\<close>

definition digitChar :: "nat \<Rightarrow> char" where
  "digitChar n = char_of (48 + n)"

definition decimalByte :: "nat \<Rightarrow> string" where
  "decimalByte x =
     (if x \<ge> 100 then [digitChar (x div 100)] else []) @
     (if x \<ge> 10 then [digitChar (x div 10 mod 10)] else []) @ [digitChar (x mod 10)]"

definition hexGroup :: "nat \<Rightarrow> string" where
  "hexGroup x =
     (if x \<ge> 4096 then [hexDigit (x div 4096)] else []) @
     (if x \<ge> 256 then [hexDigit (x div 256 mod 16)] else []) @
     (if x \<ge> 16 then [hexDigit (x div 16 mod 16)] else []) @ [hexDigit (x mod 16)]"

text \<open>The longest run of at least two zero groups, the first of the longest.\<close>

definition zeroRun :: "nat list \<Rightarrow> nat \<Rightarrow> nat" where
  "zeroRun gs i = length (takeWhile (\<lambda>g. g = 0) (drop i gs))"

definition longestZeroRun :: "nat list \<Rightarrow> (nat \<times> nat) option" where
  "longestZeroRun gs =
     foldl (\<lambda>best i. let l = zeroRun gs i in
         if l \<ge> 2 \<and> (case best of None \<Rightarrow> True | Some (a, b) \<Rightarrow> l > b - a) then Some (i, i + l) else best)
       None [0..<8]"

definition ipv6String :: "nat list \<Rightarrow> string" where
  "ipv6String gs =
     (case longestZeroRun gs of
        None \<Rightarrow> joinWith (CHR '':'') (map hexGroup gs)
      | Some (a, b) \<Rightarrow> joinWith (CHR '':'') (map hexGroup (take a gs)) @ ''::'' @
                     joinWith (CHR '':'') (map hexGroup (drop b gs)))"

definition zoneSuffix :: "string \<Rightarrow> string" where
  "zoneSuffix z = (if z = [] then [] else CHR ''%'' # z)"

definition ipv4String :: "nat list \<Rightarrow> string" where
  "ipv4String bs = joinWith (CHR ''.'') (map decimalByte bs)"

fun addrString :: "addr \<Rightarrow> string" where
  "addrString (Addr4 bs) = ipv4String bs"
| "addrString (Addr6 gs z) =
     (if Is4In6 (Addr6 gs z) then ''::ffff:'' @ ipv4String (groupBytes (drop 6 gs))
      else ipv6String gs) @ zoneSuffix z"

section \<open>Printed addresses parse back\<close>

subsection \<open>IPv4\<close>

lemma digitValue_digitChar [simp]: "d < 10 \<Longrightarrow> digitValue (digitChar d) = Some d"
  by (simp add: digitValue_def digitChar_def)

lemma digitValue_separators [simp]:
  "digitValue (CHR ''.'') = None" "digitValue (CHR '':'') = None" "digitValue (CHR ''%'') = None"
  by (simp_all add: digitValue_def)

lemma parse_decimalByte:
  assumes "x < 256"
  shows "parseIPv4Fields (decimalByte x @ rest) 0 0 acc =
    parseIPv4Fields rest x (length (decimalByte x)) acc"
proof -
  consider "x < 10" | "10 \<le> x" "x < 100" | "100 \<le> x" by linarith
  then show ?thesis
  proof cases
    case 2
    then have "x div 10 mod 10 = x div 10" "x div 10 > 0" "x div 10 < 10" by simp_all
    moreover have "x div 10 * 10 + x mod 10 = x" "x div 10 \<le> 255" using 2 by simp_all
    ultimately show ?thesis using 2 by (simp add: decimalByte_def)
  next
    case 3
    have "x div 100 = x div 10 div 10" by (simp add: div_mult2_eq [symmetric])
    then have "x div 100 * 10 + x div 10 mod 10 = x div 10" by simp
    moreover have "x div 10 * 10 + x mod 10 = x" by simp
    moreover have "x div 100 > 0" "x div 100 < 10" "\<not> 255 < x div 10" using 3 assms by linarith+
    ultimately show ?thesis using 3 assms by (simp add: decimalByte_def)
  qed (simp add: decimalByte_def)
qed

lemma decimalByte_nonempty [simp]: "decimalByte x \<noteq> []"
  by (simp add: decimalByte_def)

lemma parse_dot:
  "cs \<noteq> [] \<Longrightarrow> length acc < 3 \<Longrightarrow> n > 0 \<Longrightarrow>
     parseIPv4Fields (CHR ''.'' # cs) v n acc = parseIPv4Fields cs 0 0 (acc @ [v])"
  by (simp add: digitValue_def)

lemma parse_ipv4String:
  assumes "length bs = 4" "list_all (\<lambda>b. b < 256) bs"
  shows "parseIPv4Fields (ipv4String bs) 0 0 [] = Some bs"
proof -
  obtain a b c d where bs: "bs = [a, b, c, d]"
    using assms(1) by (auto simp: numeral_eq_Suc length_Suc_conv)
  have lt: "a < 256" "b < 256" "c < 256" "d < 256" using assms(2) bs by simp_all
  have "parseIPv4Fields (decimalByte d @ []) 0 0 [a, b, c] = Some bs"
    unfolding parse_decimalByte [OF lt(4)] by (simp add: bs)
  then show ?thesis
    using lt by (simp add: bs ipv4String_def parse_decimalByte parse_dot del: parseIPv4Fields.simps)
qed

lemma digitChar_family: "d < 10 \<Longrightarrow> digitChar d \<notin> {CHR ''.'', CHR '':'', CHR ''%''}"
  using digitValue_digitChar [of d] digitValue_separators by fastforce

lemma addrFamily_append:
  "(\<forall>c\<in>set xs. c \<notin> {CHR ''.'', CHR '':'', CHR ''%''}) \<Longrightarrow> addrFamily (xs @ ys) = addrFamily ys"
  by (induction xs) auto

subsection \<open>IPv6\<close>

lemma hexValue_separators [simp]:
  "hexValue (CHR ''.'') = None" "hexValue (CHR '':'') = None" "hexValue (CHR ''%'') = None"
  by (simp_all add: hexValue_def)

lemma hexGroup_cases:
  assumes "x < 65536"
  obtains ds where "hexGroup x = map hexDigit ds" "ds \<noteq> []" "length ds \<le> 4" "list_all (\<lambda>d. d < 16) ds"
    "foldl (\<lambda>a d. 16 * a + d) 0 ds = x"
proof -
  let ?ds = "(if x \<ge> 4096 then [x div 4096] else []) @ (if x \<ge> 256 then [x div 256 mod 16] else []) @
     (if x \<ge> 16 then [x div 16 mod 16] else []) @ [x mod 16]"
  have q: "16 * (x div 16) + x mod 16 = x" "16 * (x div 256) + x div 16 mod 16 = x div 16"
      "16 * (x div 4096) + x div 256 mod 16 = x div 256"
    using mult_div_mod_eq [of 16 x] mult_div_mod_eq [of 16 "x div 16"] mult_div_mod_eq [of 16 "x div 256"]
    by (simp_all add: div_mult2_eq [symmetric])
  have "foldl (\<lambda>a d. 16 * a + d) 0 ?ds = x"
  proof -
    consider "x < 16" | "16 \<le> x" "x < 256" | "256 \<le> x" "x < 4096" | "4096 \<le> x" by linarith
    then show ?thesis
    proof cases
      case 2
      then have "x div 16 mod 16 = x div 16" by simp
      then show ?thesis using 2 q by simp
    next
      case 3
      then have "x div 256 mod 16 = x div 256" by simp
      then show ?thesis using 3 q by simp
    qed (use q in simp_all)
  qed
  moreover have "hexGroup x = map hexDigit ?ds" by (simp add: hexGroup_def)
  moreover have "x div 4096 < 16" "\<not> 4096 \<le> x \<longrightarrow> x div 256 < 16" "\<not> 256 \<le> x \<longrightarrow> x div 16 < 16"
    using assms by linarith+
  ultimately show ?thesis by (intro that [of ?ds]) simp_all
qed

lemma scanHex_digits:
  "list_all (\<lambda>d. d < 16) ds \<Longrightarrow> off + length ds \<le> 4 \<Longrightarrow>
     scanHex (map hexDigit ds @ rest) off acc =
     scanHex rest (off + length ds) (foldl (\<lambda>a d. 16 * a + d) acc ds)"
  by (induction ds arbitrary: off acc) simp_all

lemma scanHex_hexGroup:
  assumes "x < 65536" "rest = [] \<or> hexValue (hd rest) = None"
  shows "\<exists>n. scanHex (hexGroup x @ rest) 0 0 = Some (Suc n, x, rest)"
proof -
  obtain ds where ds: "hexGroup x = map hexDigit ds" "ds \<noteq> []" "length ds \<le> 4"
      "list_all (\<lambda>d. d < 16) ds" "foldl (\<lambda>a d. 16 * a + d) 0 ds = x"
    using hexGroup_cases [OF assms(1)] .
  then have "scanHex (hexGroup x @ rest) 0 0 = scanHex rest (length ds) x"
    using scanHex_digits [of ds 0 rest 0] by simp
  also have "\<dots> = Some (length ds, x, rest)" using assms(2) by (cases rest) auto
  finally show ?thesis using ds(2) by (cases ds) auto
qed

lemma loop_last:
  assumes "x < 65536"
  shows "parseIPv6Loop (Suc k) (hexGroup x) ell acc = Some ([], ell, acc @ [x])"
proof -
  obtain n where "scanHex (hexGroup x) 0 0 = Some (Suc n, x, [])"
    using scanHex_hexGroup [OF assms, of "[]"] by auto
  then show ?thesis by simp
qed

lemma loop_group:
  assumes "x < 65536" "rest \<noteq> []" "hd rest \<noteq> CHR '':''"
  shows "parseIPv6Loop (Suc k) (hexGroup x @ CHR '':'' # rest) ell acc = parseIPv6Loop k rest ell (acc @ [x])"
proof -
  obtain n where "scanHex (hexGroup x @ CHR '':'' # rest) 0 0 = Some (Suc n, x, CHR '':'' # rest)"
    using scanHex_hexGroup [OF assms(1), of "CHR '':'' # rest"] by auto
  then show ?thesis using assms(2,3) by simp
qed

lemma loop_ellipsis:
  assumes "x < 65536"
  shows "parseIPv6Loop (Suc k) (hexGroup x @ ''::'' @ rest) None acc =
    (if rest = [] then Some ([], Some (Suc (length acc)), acc @ [x])
     else parseIPv6Loop k rest (Some (Suc (length acc))) (acc @ [x]))"
proof -
  obtain n where "scanHex (hexGroup x @ ''::'' @ rest) 0 0 = Some (Suc n, x, ''::'' @ rest)"
    using scanHex_hexGroup [OF assms, of "''::'' @ rest"] by auto
  then show ?thesis by simp
qed

lemma hexDigit_chars: "d < 16 \<Longrightarrow> hexDigit d \<notin> {CHR ''.'', CHR '':'', CHR ''%''}"
  using hexValue_hexDigit [of d] hexValue_separators by fastforce

lemma hexGroup_chars: "x < 65536 \<Longrightarrow> c \<in> set (hexGroup x) \<Longrightarrow> c \<notin> {CHR ''.'', CHR '':'', CHR ''%''}"
  by (erule hexGroup_cases) (use hexDigit_chars in \<open>auto simp: list_all_iff\<close>)

lemma hexGroup_nonempty [simp]: "hexGroup x \<noteq> []"
  by (simp add: hexGroup_def)

lemma hexGroup_hd: "x < 65536 \<Longrightarrow> hd (hexGroup x @ s) \<noteq> CHR '':''"
  using hexGroup_chars [of x "hd (hexGroup x)"] by simp

abbreviation groupsString :: "nat list \<Rightarrow> string" where
  "groupsString gs \<equiv> joinWith (CHR '':'') (map hexGroup gs)"

lemma groupsString_hd:
  "xs \<noteq> [] \<Longrightarrow> list_all (\<lambda>g. g < 65536) xs \<Longrightarrow>
     groupsString xs @ s \<noteq> [] \<and> hd (groupsString xs @ s) \<noteq> CHR '':''"
proof (induction xs rule: induct_list012)
  case (2 x)
  then show ?case using hexGroup_hd [of x s] by simp
next
  case (3 x y xs)
  then show ?case using hexGroup_hd [of x "CHR '':'' # groupsString (y # xs) @ s"] by simp
qed simp

lemma loop_groups:
  "xs \<noteq> [] \<Longrightarrow> length xs \<le> k \<Longrightarrow> list_all (\<lambda>g. g < 65536) xs \<Longrightarrow>
     parseIPv6Loop k (groupsString xs) ell acc = Some ([], ell, acc @ xs)"
proof (induction xs arbitrary: k acc rule: induct_list012)
  case (2 x)
  then obtain j where "k = Suc j" by (cases k) simp_all
  then show ?case using 2 loop_last by simp
next
  case (3 x y xs)
  then obtain j where k: "k = Suc j" by (cases k) simp_all
  have "groupsString (y # xs) \<noteq> []" "hd (groupsString (y # xs)) \<noteq> CHR '':''"
    using groupsString_hd [of "y # xs" "[]"] 3(5) by simp_all
  then have "parseIPv6Loop k (groupsString (x # y # xs)) ell acc =
      parseIPv6Loop j (groupsString (y # xs)) ell (acc @ [x])"
    using 3(5) loop_group [of x "groupsString (y # xs)"] by (simp add: k)
  also have "\<dots> = Some ([], ell, (acc @ [x]) @ y # xs)"
    using 3(4,5) k by (intro 3(2)) simp_all
  finally show ?case by simp
qed simp

lemma loop_groups_ellipsis:
  "xs \<noteq> [] \<Longrightarrow> length xs \<le> k \<Longrightarrow> list_all (\<lambda>g. g < 65536) xs \<Longrightarrow>
     parseIPv6Loop k (groupsString xs @ ''::'' @ t) None acc =
     (if t = [] then Some ([], Some (length acc + length xs), acc @ xs)
      else parseIPv6Loop (k - length xs) t (Some (length acc + length xs)) (acc @ xs))"
proof (induction xs arbitrary: k acc rule: induct_list012)
  case (2 x)
  then obtain j where "k = Suc j" by (cases k) simp_all
  then show ?case using 2 loop_ellipsis [of x j t acc] by simp
next
  case (3 x y xs)
  then obtain j where k: "k = Suc j" by (cases k) simp_all
  have "groupsString (y # xs) @ ''::'' @ t \<noteq> []" "hd (groupsString (y # xs) @ ''::'' @ t) \<noteq> CHR '':''"
    using groupsString_hd [of "y # xs" "''::'' @ t"] 3(5) by simp_all
  then have "parseIPv6Loop k (groupsString (x # y # xs) @ ''::'' @ t) None acc =
      parseIPv6Loop j (groupsString (y # xs) @ ''::'' @ t) None (acc @ [x])"
    using 3(5) loop_group [of x "groupsString (y # xs) @ ''::'' @ t"] by (simp add: k)
  then show ?case using 3(2) [of j "acc @ [x]"] 3(4,5) k by simp
qed simp

lemma zeroRun_zeros: "take (zeroRun gs i) (drop i gs) = replicate (zeroRun gs i) 0"
  unfolding zeroRun_def takeWhile_eq_take [symmetric]
  by (rule replicate_eqI) (auto dest: set_takeWhileD)

lemma zeroRun_length: "zeroRun gs i \<le> length gs - i"
  unfolding zeroRun_def using length_takeWhile_le [of "\<lambda>g. g = 0" "drop i gs"] by simp

definition zero_span :: "nat list \<Rightarrow> (nat \<times> nat) option \<Rightarrow> bool" where
  "zero_span gs r \<longleftrightarrow> (case r of None \<Rightarrow> True | Some (a, b) \<Rightarrow>
     a + 2 \<le> b \<and> b \<le> length gs \<and> take (b - a) (drop a gs) = replicate (b - a) 0)"

lemma zero_span_fold:
  "zero_span gs r \<Longrightarrow> zero_span gs (foldl (\<lambda>best i. let l = zeroRun gs i in
     if l \<ge> 2 \<and> (case best of None \<Rightarrow> True | Some (a, b) \<Rightarrow> l > b - a) then Some (i, i + l) else best) r is)"
proof (induction "is" arbitrary: r)
  case (Cons i "is")
  have "zeroRun gs i \<ge> 2 \<Longrightarrow> zero_span gs (Some (i, i + zeroRun gs i))"
    using zeroRun_zeros [of gs i] zeroRun_length [of gs i] by (simp add: zero_span_def)
  then show ?case using Cons by (simp add: Let_def)
qed simp

lemma longestZeroRun_span: "zero_span gs (longestZeroRun gs)"
  unfolding longestZeroRun_def by (rule zero_span_fold) (simp add: zero_span_def)

lemma take2_groupsString:
  assumes "xs \<noteq> []" "list_all (\<lambda>g. g < 65536) xs"
  shows "take 2 (groupsString xs @ s) \<noteq> ''::''"
  using groupsString_hd [OF assms, of s] by (cases "groupsString xs @ s") (auto simp: numeral_2_eq_2)

lemma parse_ipv6String:
  assumes "length gs = 8" "list_all (\<lambda>g. g < 65536) gs"
  shows "parseIPv6Groups (ipv6String gs) = Some gs"
proof (cases "longestZeroRun gs")
  case None
  have "gs \<noteq> []" using assms(1) by auto
  moreover from this have "take 2 (groupsString gs) \<noteq> ''::''"
    using take2_groupsString [of gs "[]"] assms(2) by simp
  ultimately show ?thesis
    using None assms loop_groups [of gs 8 None "[]"]
    by (simp add: parseIPv6Groups_def ipv6String_def expandEllipsis_def Let_def)
next
  case (Some r)
  obtain a b where r: "r = (a, b)" by (cases r)
  have span: "a + 2 \<le> b" "b \<le> 8" "take (b - a) (drop a gs) = replicate (b - a) 0"
    using longestZeroRun_span [of gs] Some r assms(1) by (simp_all add: zero_span_def)
  let ?l = "take a gs" and ?r = "drop b gs"
  have gs: "?l @ replicate (b - a) 0 @ ?r = gs"
    using span by (metis append_take_drop_id drop_drop le_add_diff_inverse2 add_leD1)
  have len: "length ?l = a" "length ?r = 8 - b" using span assms(1) by simp_all
  have ok: "list_all (\<lambda>g. g < 65536) ?l" "list_all (\<lambda>g. g < 65536) ?r"
    using assms(2) by (auto simp: list_all_iff dest: in_set_takeD in_set_dropD)
  have str: "ipv6String gs = groupsString ?l @ ''::'' @ groupsString ?r"
    using Some r by (simp add: ipv6String_def)
  have exp: "expandEllipsis (Some a) (?l @ ?r) = Some gs"
  proof -
    have "8 - length (?l @ ?r) = b - a" "length (?l @ ?r) < 8" using len span by auto
    then show ?thesis using gs len by (simp add: expandEllipsis_def)
  qed
  have empty: "groupsString ?r = [] \<longleftrightarrow> ?r = []"
    using groupsString_hd [of ?r "[]"] ok(2) by auto
  show ?thesis
  proof (cases "a = 0")
    case True
    then have l: "?l = []" by simp
    show ?thesis
    proof (cases "?r = []")
      case True
      then have "gs = replicate 8 0" using gs l len \<open>a = 0\<close> span by simp
      then show ?thesis using str l True by (simp add: parseIPv6Groups_def Let_def)
    next
      case False
      have "parseIPv6Loop 8 (groupsString ?r) (Some 0) [] = Some ([], Some 0, ?r)"
        using loop_groups [OF False _ ok(2), of 8 "Some 0" "[]"] len by simp
      then show ?thesis
        using str l exp False empty \<open>a = 0\<close> by (simp add: parseIPv6Groups_def Let_def)
    qed
  next
    case False
    then have l: "?l \<noteq> []" using len by (metis list.size(3))
    have "parseIPv6Loop 8 (ipv6String gs) None [] = Some ([], Some a, ?l @ ?r)"
      using loop_groups_ellipsis [OF l _ ok(1), of 8 "groupsString ?r" "[]"] empty len span
        loop_groups [of ?r "8 - a" "Some a" ?l] ok(2)
      by (cases "?r = []") (simp_all add: str)
    then show ?thesis
      using exp take2_groupsString [OF l ok(1), of "''::'' @ groupsString ?r"]
      by (simp add: parseIPv6Groups_def str Let_def)
  qed
qed

subsection \<open>Both families\<close>

lemma addrFamily_Some: "addrFamily (xs @ c # ys) = Some c"
  if "c \<in> {CHR ''.'', CHR '':'', CHR ''%''}" "\<forall>x\<in>set xs. x \<notin> {CHR ''.'', CHR '':'', CHR ''%''}"
  using that by (simp add: addrFamily_append)

lemma family_ipv4String:
  assumes "length bs = 4" "list_all (\<lambda>b. b < 256) bs"
  shows "addrFamily (ipv4String bs) = Some (CHR ''.'')"
proof -
  obtain a b c d where bs: "bs = [a, b, c, d]"
    using assms(1) by (auto simp: numeral_eq_Suc length_Suc_conv)
  have "\<forall>x\<in>set (decimalByte a). x \<notin> {CHR ''.'', CHR '':'', CHR ''%''}"
    using assms(2) digitChar_family unfolding bs decimalByte_def by (auto split: if_splits)
  then show ?thesis
    using addrFamily_Some [of "CHR ''.''" "decimalByte a"] by (simp add: bs ipv4String_def)
qed

lemma addrFamily_colon:
  "CHR ''.'' \<notin> set s \<Longrightarrow> CHR ''%'' \<notin> set s \<Longrightarrow> CHR '':'' \<in> set s \<Longrightarrow> addrFamily s = Some (CHR '':'')"
  by (induction s) auto

lemma set_joinWith: "set (joinWith c ps) \<subseteq> insert c (\<Union> (set ` set ps))"
  by (induction c ps rule: joinWith.induct) auto

lemma groupsString_chars:
  assumes "list_all (\<lambda>g. g < 65536) gs"
  shows "CHR ''.'' \<notin> set (groupsString gs)" "CHR ''%'' \<notin> set (groupsString gs)"
proof -
  have "set (groupsString gs) \<subseteq> insert (CHR '':'') (\<Union> (set ` set (map hexGroup gs)))"
    by (rule set_joinWith)
  moreover have "c \<in> \<Union> (set ` set (map hexGroup gs)) \<Longrightarrow> c \<notin> {CHR ''.'', CHR '':'', CHR ''%''}" for c
    using assms hexGroup_chars by (auto simp: list_all_iff)
  ultimately show "CHR ''.'' \<notin> set (groupsString gs)" "CHR ''%'' \<notin> set (groupsString gs)"
    by auto
qed

lemma family_ipv6String:
  assumes "length gs = 8" "list_all (\<lambda>g. g < 65536) gs"
  shows "addrFamily (ipv6String gs) = Some (CHR '':'')" "CHR ''%'' \<notin> set (ipv6String gs)"
proof -
  have ok: "list_all (\<lambda>g. g < 65536) (take a gs)" "list_all (\<lambda>g. g < 65536) (drop a gs)" for a
    using assms(2) by (auto simp: list_all_iff dest: in_set_takeD in_set_dropD)
  show no: "CHR ''%'' \<notin> set (ipv6String gs)"
    using groupsString_chars(2) [OF assms(2)] groupsString_chars(2) [OF ok(1)] groupsString_chars(2) [OF ok(2)]
    by (auto simp: ipv6String_def split: option.splits)
  have dot: "CHR ''.'' \<notin> set (ipv6String gs)"
    using groupsString_chars(1) [OF assms(2)] groupsString_chars(1) [OF ok(1)] groupsString_chars(1) [OF ok(2)]
    by (auto simp: ipv6String_def split: option.splits)
  obtain x y xs where "gs = x # y # xs"
    using assms(1) by (auto simp: numeral_eq_Suc length_Suc_conv)
  then have "CHR '':'' \<in> set (ipv6String gs)"
    by (auto simp: ipv6String_def split: option.splits)
  then show "addrFamily (ipv6String gs) = Some (CHR '':'')"
    by (rule addrFamily_colon [OF dot no])
qed

text \<open>An address without a zone that is not a mapped IPv4 address is read back from its text.\<close>

lemma parseAddr_addrString:
  assumes "addr_wf a" "addrZone a = []" "\<not> Is4In6 a"
  shows "parseAddr (addrString a) = Some a"
proof (cases a)
  case (Addr4 bs)
  then show ?thesis
    using assms family_ipv4String [of bs] parse_ipv4String [of bs] by (simp add: parseAddr_def parseIPv4_def)
next
  case (Addr6 gs z)
  then have wf: "length gs = 8" "list_all (\<lambda>g. g < 65536) gs" "z = []" "\<not> Is4In6 (Addr6 gs z)" using assms by simp_all
  then have "addrString a = ipv6String gs" using Addr6 by (simp add: zoneSuffix_def)
  moreover have "indexByte (ipv6String gs) (CHR ''%'') = None"
    using family_ipv6String(2) [OF wf(1,2)] by (simp add: indexByte_None)
  ultimately show ?thesis
    using Addr6 wf family_ipv6String(1) [OF wf(1,2)] parse_ipv6String [OF wf(1,2)]
    by (simp add: parseAddr_def parseIPv6_def)
qed

section \<open>Parsed addresses are well formed\<close>

lemma parseIPv4Fields_wf:
  "parseIPv4Fields s val n acc = Some bs \<Longrightarrow> val < 256 \<Longrightarrow> list_all (\<lambda>b. b < 256) acc \<Longrightarrow> length acc \<le> 3 \<Longrightarrow>
     length bs = 4 \<and> list_all (\<lambda>b. b < 256) bs"
  by (induction s val n acc rule: parseIPv4Fields.induct) (auto split: option.splits if_splits)

lemma hexValue_less: "hexValue c = Some d \<Longrightarrow> d < 16"
  by (auto simp: hexValue_def Let_def split: if_splits)

lemma scanHex_less:
  "scanHex s off acc = Some (n, v, r) \<Longrightarrow> acc < 16 ^ off \<Longrightarrow> off \<le> 4 \<Longrightarrow> v < 65536"
proof (induction s off acc rule: scanHex.induct)
  case (1 off acc)
  then have "acc < 16 ^ 4" using power_increasing [of off 4 "16::nat"] by simp
  then show ?case using 1 by simp
next
  case (2 c cs off acc)
  show ?case
  proof (cases "hexValue c")
    case None
    then have "acc < 16 ^ 4" using 2 power_increasing [of off 4 "16::nat"] by simp
    then show ?thesis using 2 None by simp
  next
    case (Some d)
    then have "off \<le> 3" "scanHex cs (Suc off) (16 * acc + d) = Some (n, v, r)"
      using 2(2) by (auto split: if_splits)
    moreover have "16 * acc + d < 16 ^ Suc off" using hexValue_less [OF Some] 2(3) by simp
    ultimately show ?thesis using 2(1) [OF Some] by simp
  qed
qed

lemma joinGroups_wf:
  assumes "length bs = 4" "list_all (\<lambda>b. b < 256) bs"
  shows "list_all (\<lambda>g. g < 65536) (joinGroups bs)" "length (joinGroups bs) = 2"
proof -
  obtain a b c d where "bs = [a, b, c, d]"
    using assms(1) by (auto simp: numeral_eq_Suc length_Suc_conv)
  then show "list_all (\<lambda>g. g < 65536) (joinGroups bs)" "length (joinGroups bs) = 2"
    using assms(2) by (simp_all add: joinGroups_def)
qed

lemma parseIPv6Loop_wf:
  "parseIPv6Loop k s ell acc = Some (r, ell', acc') \<Longrightarrow> list_all (\<lambda>g. g < 65536) acc \<Longrightarrow>
     length acc + k = 8 \<Longrightarrow> list_all (\<lambda>g. g < 65536) acc' \<and> length acc' \<le> 8"
proof (induction k s ell acc rule: parseIPv6Loop.induct)
  case (2 k s ell acc)
  obtain off v rest where sc: "scanHex s 0 0 = Some (off, v, rest)"
    using 2(3) by (auto split: option.splits)
  then have v: "v < 65536" using scanHex_less [OF sc] by simp
  have four: "parseIPv4Fields s 0 0 [] = Some bs \<Longrightarrow> list_all (\<lambda>g. g < 65536) (joinGroups bs) \<and> length (joinGroups bs) = 2"
    for bs using parseIPv4Fields_wf [of s 0 0 "[]" bs] joinGroups_wf by simp
  show ?case
    using 2 sc v four by (auto split: if_splits option.splits)
qed simp

lemma parseIPv6Groups_wf:
  assumes "parseIPv6Groups s = Some gs"
  shows "length gs = 8 \<and> list_all (\<lambda>g. g < 65536) gs"
proof (cases "take 2 s = ''::'' \<and> drop 2 s = []")
  case True
  then have "gs = replicate 8 0" using assms by (simp add: parseIPv6Groups_def)
  then show ?thesis by (simp add: list_all_iff)
next
  case False
  then obtain r ell acc b where l: "parseIPv6Loop 8 b (if take 2 s = ''::'' then Some 0 else None) [] = Some (r, ell, acc)"
    and e: "expandEllipsis ell acc = Some gs"
    using assms unfolding parseIPv6Groups_def Let_def by (auto split: option.splits if_splits)
  have "list_all (\<lambda>g. g < 65536) acc" "length acc \<le> 8" using parseIPv6Loop_wf [OF l] by simp_all
  then show ?thesis
    using e by (auto simp: expandEllipsis_def list_all_iff split: if_splits)
      (meson in_set_takeD in_set_dropD)+
qed

lemma parseAddr_wf:
  assumes "parseAddr s = Some a"
  shows "addr_wf a"
  using assms parseIPv4Fields_wf [of s 0 0 "[]"] parseIPv6Groups_wf
  by (auto simp: parseAddr_def parseIPv4_def parseIPv6_def split: if_splits option.splits)

lemma Unmap_wf: "addr_wf a \<Longrightarrow> addr_wf (Unmap a)"
proof (cases a)
  case (Addr6 gs z)
  assume wf: "addr_wf a"
  have "length (drop 6 gs) = Suc (Suc 0)" using wf Addr6 by simp
  then obtain g h where "drop 6 gs = [g, h]" unfolding length_Suc_conv by auto
  moreover from this have "g < 65536" "h < 65536"
    using wf Addr6 in_set_dropD [of _ 6 gs] by (auto simp: list_all_iff)
  ultimately show ?thesis using wf Addr6 by (auto simp: groupBytes_def)
qed simp

lemma Unmap_not_mapped [simp]: "\<not> Is4In6 (Unmap a)"
  by (cases a) auto

lemma Unmap_Unmap [simp]: "Unmap (Unmap a) = Unmap a"
  by (cases a) auto

text \<open>The stored form of an address is read back as the same address.\<close>

lemma stored_address:
  assumes "parseAddr s = Some a" "addrZone (Unmap a) = []"
  shows "parseAddr (addrString (Unmap a)) = Some (Unmap a)"
  using assms by (intro parseAddr_addrString Unmap_wf [OF parseAddr_wf]) simp_all

section \<open>Mapped addresses\<close>

lemma hexValue_digitChar [simp]: "d < 10 \<Longrightarrow> hexValue (digitChar d) = Some d"
  by (simp add: hexValue_def digitChar_def)

lemma ipv4String_chars:
  assumes "length bs = 4" "list_all (\<lambda>b. b < 256) bs"
  shows "ipv4String bs \<noteq> []" "CHR '':'' \<notin> set (ipv4String bs)" "CHR ''%'' \<notin> set (ipv4String bs)"
proof -
  obtain a b c d where bs: "bs = [a, b, c, d]" using assms(1) by (auto simp: numeral_eq_Suc length_Suc_conv)
  have "\<forall>c\<in>set (decimalByte x). c \<notin> {CHR ''.'', CHR '':'', CHR ''%''}" if "x < 256" for x
    using that digitChar_family unfolding decimalByte_def by (auto split: if_splits)
  then show "ipv4String bs \<noteq> []" "CHR '':'' \<notin> set (ipv4String bs)" "CHR ''%'' \<notin> set (ipv4String bs)"
    using assms(2) unfolding bs ipv4String_def by auto
qed

lemma scanHex_decimalByte:
  "x < 256 \<Longrightarrow> \<exists>n v. scanHex (decimalByte x @ CHR ''.'' # rest) 0 0 = Some (Suc n, v, CHR ''.'' # rest)"
  by (auto simp: decimalByte_def)

lemma loop_ipv4:
  assumes "length bs = 4" "list_all (\<lambda>b. b < 256) bs" "length acc \<le> 6"
  shows "parseIPv6Loop (Suc k) (ipv4String bs) (Some e) acc = Some ([], Some e, acc @ joinGroups bs)"
proof -
  obtain a b c d where bs: "bs = [a, b, c, d]" using assms(1) by (auto simp: numeral_eq_Suc length_Suc_conv)
  then obtain rest where "ipv4String bs = decimalByte a @ CHR ''.'' # rest" by (simp add: ipv4String_def)
  moreover obtain n v where "scanHex (decimalByte a @ CHR ''.'' # rest) 0 0 = Some (Suc n, v, CHR ''.'' # rest)"
    using scanHex_decimalByte assms(2) bs by fastforce
  ultimately show ?thesis using parse_ipv4String [OF assms(1,2)] assms(3) by simp
qed

lemma parse_mapped:
  assumes "length bs = 4" "list_all (\<lambda>b. b < 256) bs"
  shows "parseAddr (''::ffff:'' @ ipv4String bs) = Some (Addr6 ([0, 0, 0, 0, 0, 65535] @ joinGroups bs) [])"
proof -
  let ?s = "''ffff:'' @ ipv4String bs"
  have hd: "ipv4String bs \<noteq> []" "hd (ipv4String bs) \<noteq> CHR '':''" "CHR ''%'' \<notin> set (ipv4String bs)"
    using ipv4String_chars [OF assms] by (metis hd_in_set)+
  have ffff: "hexGroup 65535 = ''ffff''" by (simp add: hexGroup_def hexDigit_def hexDigits_def)
  have "parseIPv6Loop (Suc (Suc 6)) (hexGroup 65535 @ CHR '':'' # ipv4String bs) (Some 0) [] =
      parseIPv6Loop (Suc 6) (ipv4String bs) (Some 0) ([] @ [65535])"
    by (rule loop_group) (simp_all add: hd)
  also have "\<dots> = Some ([], Some 0, 65535 # joinGroups bs)" by (subst loop_ipv4 [OF assms]) simp_all
  finally have "parseIPv6Loop 8 ?s (Some 0) [] = Some ([], Some 0, 65535 # joinGroups bs)" unfolding ffff
    by (simp del: parseIPv6Loop.simps)
  moreover have "indexByte (''::'' @ ?s) (CHR ''%'') = None" using hd(3) by (simp add: indexByte_None)
  moreover have "replicate 5 (0::nat) = [0, 0, 0, 0, 0]" by (simp add: numeral_eq_Suc)
  then have "expandEllipsis (Some 0) (65535 # joinGroups bs) = Some ([0, 0, 0, 0, 0, 65535] @ joinGroups bs)"
    by (simp add: expandEllipsis_def joinGroups_def)
  ultimately show ?thesis by (simp add: parseAddr_def parseIPv6_def parseIPv6Groups_def del: parseIPv6Loop.simps)
qed

end
