(* ===== verification/Go_Path.thy ===== *)
theory Go_Path
  imports Prelude
begin

text \<open>
  The functions of Go's \<open>path/filepath\<close> on Unix that the agent uses to keep paths apart: \<open>Join\<close>,
  \<open>Dir\<close> and \<open>Rel\<close>, on top of \<open>pathClean\<close>. A path is understood through \<open>pathElems\<close>, the elements
  of its cleaned form; the lemmas show that on absolute paths \<open>Rel\<close> compares element lists.
\<close>

section \<open>Elements of a path\<close>

definition pathElems :: "string \<Rightarrow> string list" where
  "pathElems s = cleanElems (isAbs s) [] (splitOn (CHR ''/'') s)"

lemma pathClean_elems:
  "pathClean s = (let body = joinWith (CHR ''/'') (pathElems s) in
     if isAbs s then CHR ''/'' # body else if body = [] then ''.'' else body)"
  by (simp add: pathClean_def pathElems_def)

text \<open>\<open>filepath.Join\<close> of two nonempty parts and \<open>filepath.Dir\<close>.\<close>

definition pathJoin :: "string \<Rightarrow> string \<Rightarrow> string" where
  "pathJoin a b = pathClean (a @ ''/'' @ b)"

definition pathDir :: "string \<Rightarrow> string" where
  "pathDir s = pathClean (rev (dropWhile (\<lambda>c. c \<noteq> CHR ''/'') (rev s)))"

section \<open>Relative paths\<close>

fun stripCommon :: "'a list \<Rightarrow> 'a list \<Rightarrow> 'a list \<times> 'a list" where
  "stripCommon (x # xs) (y # ys) = (if x = y then stripCommon xs ys else (x # xs, y # ys))"
| "stripCommon xs ys = (xs, ys)"

text \<open>
  \<open>filepath.Rel\<close>: the elements of the two cleaned paths after their common beginning, one \<open>..\<close> for
  every element of the base that is left. A cleaned base \<open>.\<close> has no elements.
\<close>

definition pathRel :: "string \<Rightarrow> string \<Rightarrow> string option" where
  "pathRel base targ =
     (let b = pathClean base; t = pathClean targ in
      if t = b then Some ''.''
      else if isAbs b \<noteq> isAbs t then None
      else
        let bs = (if b = ''.'' then [] else pathElems base);
            ts = (if t = ''.'' then [''.''] else pathElems targ);
            (b', t') = stripCommon bs ts
        in if b' \<noteq> [] \<and> hd b' = ''..'' then None
           else Some (joinWith (CHR ''/'') (replicate (length b') ''..'' @ t')))"

text \<open>A relative path that leaves its base.\<close>

definition escapes :: "string \<Rightarrow> bool" where
  "escapes rel \<longleftrightarrow> rel = ''..'' \<or> prefix ''../'' rel"

section \<open>Cleaned paths\<close>

definition plain_elem :: "string \<Rightarrow> bool" where
  "plain_elem e \<longleftrightarrow> e \<noteq> [] \<and> e \<noteq> ''.'' \<and> e \<noteq> ''..'' \<and> CHR ''/'' \<notin> set e"

lemma cleanElems_plain:
  "list_all (\<lambda>e. CHR ''/'' \<notin> set e) es \<Longrightarrow> list_all plain_elem acc \<Longrightarrow>
     list_all plain_elem (cleanElems True acc es)"
  by (induction es arbitrary: acc) (auto simp: plain_elem_def split: list.splits)

lemma splitOn_no_slash: "list_all (\<lambda>e. CHR ''/'' \<notin> set e) (splitOn (CHR ''/'') s)"
  by (auto simp: list_all_iff dest: splitOn_no_sep)

lemma pathElems_plain: "isAbs s \<Longrightarrow> list_all plain_elem (pathElems s)"
  using cleanElems_plain [OF splitOn_no_slash, of "[]" s] by (simp add: pathElems_def)

lemma splitOn_append: "c \<notin> set p \<Longrightarrow> splitOn c (p @ c # s) = p # splitOn c s"
  by (induction p) auto

lemma splitOn_single: "c \<notin> set p \<Longrightarrow> splitOn c p = [p]"
  by (induction p) auto

lemma splitOn_joinWith:
  "ps \<noteq> [] \<Longrightarrow> list_all (\<lambda>p. c \<notin> set p) ps \<Longrightarrow> splitOn c (joinWith c ps) = ps"
  by (induction c ps rule: joinWith.induct) (simp_all add: splitOn_append splitOn_single)

lemma cleanElems_id:
  "list_all plain_elem es \<Longrightarrow> cleanElems r acc es = rev acc @ es"
  by (induction es arbitrary: acc) (auto simp: plain_elem_def)

lemma isAbs_pathClean [simp]: "isAbs s \<Longrightarrow> isAbs (pathClean s)"
  by (simp add: pathClean_elems isAbs_def Let_def)

lemma plain_no_slash: "list_all plain_elem es \<Longrightarrow> list_all (\<lambda>e. CHR ''/'' \<notin> set e) es"
  by (auto simp: list_all_iff plain_elem_def)

text \<open>Cleaning keeps the elements, so it is idempotent, and it depends on them only.\<close>

lemma pathElems_slash:
  assumes "list_all plain_elem es"
  shows "pathElems (CHR ''/'' # joinWith (CHR ''/'') es) = es"
proof (cases "es = []")
  case False
  then have "splitOn (CHR ''/'') (joinWith (CHR ''/'') es) = es"
    by (rule splitOn_joinWith) (rule plain_no_slash [OF assms])
  then show ?thesis by (simp add: pathElems_def isAbs_def cleanElems_id [OF assms])
qed (simp add: pathElems_def isAbs_def)

lemma pathElems_pathClean [simp]: "isAbs s \<Longrightarrow> pathElems (pathClean s) = pathElems s"
  by (simp add: pathClean_elems [of s] pathElems_slash [OF pathElems_plain] Let_def)

lemma pathClean_eq_iff:
  "isAbs s \<Longrightarrow> isAbs t \<Longrightarrow> pathClean s = pathClean t \<longleftrightarrow> pathElems s = pathElems t"
proof
  assume "isAbs s" "isAbs t" "pathClean s = pathClean t"
  then show "pathElems s = pathElems t" using pathElems_pathClean [of s] pathElems_pathClean [of t] by simp
qed (simp add: pathClean_elems Let_def)

section \<open>\<open>Rel\<close> on absolute paths\<close>

lemma stripCommon_prefix: "fst (stripCommon xs ys) = [] \<longleftrightarrow> prefix xs ys"
  by (induction xs ys rule: stripCommon.induct) auto

lemma stripCommon_append:
  "stripCommon xs ys = (xs', ys') \<Longrightarrow> \<exists>zs. xs = zs @ xs' \<and> ys = zs @ ys'"
  by (induction xs ys rule: stripCommon.induct) (auto split: if_splits intro: exI [of _ "_ # _"])

lemma joinWith_hd: "joinWith c (p # ps) = p @ (if ps = [] then [] else c # joinWith c ps)"
  by (cases ps) simp_all

lemma plain_escapes:
  assumes "plain_elem e"
  shows "\<not> escapes (joinWith (CHR ''/'') (e # es))" "\<not> isAbs (joinWith (CHR ''/'') (e # es))"
proof -
  obtain c cs where e: "e = c # cs" "c \<noteq> CHR ''/''" using assms by (cases e) (auto simp: plain_elem_def)
  then show "\<not> isAbs (joinWith (CHR ''/'') (e # es))" by (simp add: joinWith_hd isAbs_def)
  have "\<not> prefix ''..'' e \<or> (\<exists>x xs. e = ''..'' @ x # xs \<and> x \<noteq> CHR ''/'')"
  proof (cases "prefix ''..'' e")
    case True
    then obtain r where r: "e = ''..'' @ r" by (auto simp: prefix_def)
    then have "r \<noteq> []" using assms by (auto simp: plain_elem_def)
    then show ?thesis using r assms by (cases r) (auto simp: plain_elem_def)
  qed simp
  then show "\<not> escapes (joinWith (CHR ''/'') (e # es))"
    using assms
    by (elim disjE exE conjE) (auto simp: joinWith_hd escapes_def plain_elem_def prefix_def append_eq_append_conv2
        append_eq_Cons_conv Cons_eq_append_conv split: if_splits)
qed

lemma dotdot_escapes: "escapes (joinWith (CHR ''/'') (''..'' # es))"
  by (auto simp: joinWith_hd escapes_def)

text \<open>On absolute paths the relative path stays inside the base exactly if the base is a prefix.\<close>

lemma pathRel_abs:
  assumes "isAbs base" "isAbs targ"
  shows "\<exists>rel. pathRel base targ = Some rel \<and> \<not> isAbs rel \<and>
    (escapes rel \<longleftrightarrow> \<not> prefix (pathElems base) (pathElems targ)) \<and>
    (rel = ''.'' \<longleftrightarrow> pathElems base = pathElems targ)"
proof (cases "pathClean targ = pathClean base")
  case True
  then show ?thesis
    using assms pathClean_eq_iff [of targ base] by (auto simp: pathRel_def Let_def escapes_def isAbs_def)
next
  case False
  then have ne: "pathElems base \<noteq> pathElems targ" using assms pathClean_eq_iff [of targ base] by auto
  obtain b' t' where bt: "stripCommon (pathElems base) (pathElems targ) = (b', t')" by fastforce
  then obtain zs where zs: "pathElems base = zs @ b'" "pathElems targ = zs @ t'"
    using stripCommon_append by blast
  have plain: "list_all plain_elem b'" "list_all plain_elem t'"
    using pathElems_plain [OF assms(1)] pathElems_plain [OF assms(2)] zs by simp_all
  have dot: "pathClean p \<noteq> ''.''" if "isAbs p" for p
    using isAbs_pathClean [OF that] by (auto simp: isAbs_def)
  let ?rel = "joinWith (CHR ''/'') (replicate (length b') ''..'' @ t')"
  have rel: "pathRel base targ = Some ?rel"
    using False assms dot bt plain(1)
    by (cases b') (auto simp: pathRel_def Let_def plain_elem_def)
  show ?thesis
  proof (cases b')
    case Nil
    then obtain e es where t': "t' = e # es" using ne zs by (cases t') auto
    then have "plain_elem e" using plain by simp
    moreover have "?rel \<noteq> ''.''"
      using t' Nil \<open>plain_elem e\<close> by (cases e) (auto simp: joinWith_hd plain_elem_def)
    ultimately show ?thesis
      using rel Nil t' plain_escapes [of e es] zs ne by auto
  next
    case (Cons x xs)
    have "\<not> prefix (pathElems base) (pathElems targ)"
      using stripCommon_prefix [of "pathElems base" "pathElems targ"] bt Cons by simp
    moreover have "?rel = joinWith (CHR ''/'') (''..'' # replicate (length xs) ''..'' @ t')"
      using Cons by simp
    moreover have "\<not> isAbs (joinWith (CHR ''/'') (''..'' # es))" "joinWith (CHR ''/'') (''..'' # es) \<noteq> ''.''" for es
      by (simp_all add: joinWith_hd isAbs_def)
    ultimately show ?thesis using rel ne dotdot_escapes by metis
  qed
qed

end
