(* ===== verification/Nfs_Export.thy ===== *)
theory Nfs_Export
  imports Netip Go_Path Sha256
begin

text \<open>
  The export policies of the agent's NFS manager, the pure part of
  \<open>internal/agent/nfs/manager.go\<close>: normalizing a policy, the addresses and paths it admits, the
  options of its kernel entries, and the comparison of an entry read back from the kernel with
  the one that was wanted. An error of these functions carries no status; it is \<open>None\<close>.
\<close>

record nfs_export =
  neVolumeID :: string
  nePath :: string
  neBindAddress :: string
  neVersion :: string
  neSquash :: string
  neReadOnly :: bool
  neACLEnabled :: bool
  neClients :: "string list"
  neActive :: bool
  neSourceKey :: string
  neFenceUID :: string

definition rootVolumeID :: string where
  "rootVolumeID = ''::pillar-nfs-root::''"

definition nfsVersion :: string where
  "nfsVersion = ''4.2''"

section \<open>Paths and addresses\<close>

definition unsafePathChars :: "char set" where
  "unsafePathChars = {CHR '' '', CHR 0x09, CHR 0x0D, CHR 0x0A, CHR 0x00, CHR '':'', CHR ''('', CHR '')'', CHR 0x5C}"

definition safeExportPath :: "string \<Rightarrow> bool" where
  "safeExportPath path \<longleftrightarrow>
     isAbs path \<and> pathClean path = path \<and> path \<noteq> ''/'' \<and> set path \<inter> unsafePathChars = {}"

definition unicastAddress :: "string \<Rightarrow> addr option" where
  "unicastAddress address =
     (case parseAddr address of
        None \<Rightarrow> None
      | Some ip \<Rightarrow>
          if addrZone ip \<noteq> [] \<or> IsUnspecified ip \<or> IsMulticast ip then None else Some (Unmap ip))"

text \<open>\<open>Manager.ExportPath\<close>: the path a client sees, relative to the export root.\<close>

definition ExportPath :: "string \<Rightarrow> string \<Rightarrow> string option" where
  "ExportPath exportRoot path =
     (case pathRel exportRoot path of
        None \<Rightarrow> None
      | Some rel \<Rightarrow>
          if rel = ''.'' \<or> rel = ''..'' \<or> prefix ''../'' rel \<or> isAbs rel then None
          else Some (CHR ''/'' # rel))"

definition ValidateClient :: "addr \<Rightarrow> string \<Rightarrow> bool" where
  "ValidateClient bind client \<longleftrightarrow>
     (case unicastAddress client of None \<Rightarrow> False | Some ip \<Rightarrow> Is4 ip = Is4 bind)"

section \<open>Normalization\<close>

definition normalizePolicy :: "nfs_export \<Rightarrow> nfs_export option" where
  "normalizePolicy e =
     (let version = (if neVersion e = [] then nfsVersion else neVersion e);
          squash = (if neSquash e = [] then ''root'' else neSquash e) in
      if version \<noteq> nfsVersion then None
      else if squash \<notin> {''root'', ''none'', ''all''} then None
      else Some (e\<lparr>neVersion := version, neSquash := squash\<rparr>))"

fun canonicalClients :: "string list \<Rightarrow> addr \<Rightarrow> string list option" where
  "canonicalClients [] bind = Some []"
| "canonicalClients (c # cs) bind =
     (case unicastAddress c of
        None \<Rightarrow> None
      | Some ip \<Rightarrow>
          if Is4 ip \<noteq> Is4 bind then None
          else map_option (Cons (addrString ip)) (canonicalClients cs bind))"

definition normalizeClients :: "string list \<Rightarrow> addr \<Rightarrow> string list option" where
  "normalizeClients clients bind = map_option (\<lambda>cs. remdups_adj (sort cs)) (canonicalClients clients bind)"

definition normalized :: "nfs_export \<Rightarrow> nfs_export option" where
  "normalized e =
     (if neVolumeID e = [] then None
      else if \<not> safeExportPath (nePath e) then None
      else (case unicastAddress (neBindAddress e) of
        None \<Rightarrow> None
      | Some bind \<Rightarrow>
     (case normalizePolicy (e\<lparr>neBindAddress := addrString bind\<rparr>) of
        None \<Rightarrow> None
      | Some e1 \<Rightarrow>
     (case normalizeClients (neClients e1) bind of
        None \<Rightarrow> None
      | Some cs \<Rightarrow> Some (e1\<lparr>neClients := (if neACLEnabled e1 then cs else [])\<rparr>)))))"

definition changedClient :: "nfs_export \<Rightarrow> string \<Rightarrow> bool \<Rightarrow> nfs_export option" where
  "changedClient e client allow =
     (case unicastAddress client of
        None \<Rightarrow> None
      | Some ip \<Rightarrow>
         (case normalized (e\<lparr>neClients := neClients e @ [addrString ip]\<rparr>) of
            None \<Rightarrow> None
          | Some e1 \<Rightarrow>
              Some (if allow then e1
                    else e1\<lparr>neClients := filter (\<lambda>c. c \<noteq> addrString ip) (neClients e1)\<rparr>)))"

section \<open>Kernel entries\<close>

record entry =
  enPath :: string
  enClient :: string
  enOptions :: string

definition exportClients :: "nfs_export \<Rightarrow> string list" where
  "exportClients e = (if \<not> neActive e then [] else if \<not> neACLEnabled e then [''*''] else neClients e)"

definition FSID :: "string \<Rightarrow> string" where
  "FSID v = (let s = hexEncode (take 16 (sha256 (''pillar-csi/nfs/'' @ v))) in
     take 8 s @ ''-'' @ take 4 (drop 8 s) @ ''-'' @ take 4 (drop 12 s) @ ''-'' @ take 4 (drop 16 s) @
     ''-'' @ drop 20 s)"

definition exportFsid :: "nfs_export \<Rightarrow> string" where
  "exportFsid e = (if neVolumeID e = rootVolumeID then ''0'' else FSID (neVolumeID e))"

definition squashOption :: "string \<Rightarrow> string" where
  "squashOption squash =
     (if squash = ''none'' then ''no_root_squash'' else if squash = ''all'' then ''all_squash'' else ''root_squash'')"

definition exportOptions :: "nfs_export \<Rightarrow> string" where
  "exportOptions e =
     (if neReadOnly e then ''ro'' else ''rw'') @ '',sync,no_subtree_check,secure,sec=sys,fsid='' @
     exportFsid e @ '','' @ squashOption (neSquash e) @
     (if neVolumeID e \<noteq> rootVolumeID \<and> neSourceKey e \<noteq> [] \<and> neFenceUID e \<noteq> [] then '',nohide'' else [])"

definition exportEntry :: "nfs_export \<Rightarrow> string \<Rightarrow> entry" where
  "exportEntry e client = \<lparr>enPath = nePath e, enClient = client, enOptions = exportOptions e\<rparr>"

fun firstValue :: "string \<Rightarrow> string list \<Rightarrow> string" where
  "firstValue key [] = []"
| "firstValue key (opt # opts) =
     (if prefix (key @ ''='') opt then drop (Suc (length key)) opt else firstValue key opts)"

definition optionValue :: "string \<Rightarrow> string \<Rightarrow> string" where
  "optionValue options key = firstValue key (splitOn (CHR '','') options)"

definition oppositeOption :: "string \<Rightarrow> string" where
  "oppositeOption opt =
     (if opt = ''ro'' then ''rw'' else if opt = ''rw'' then ''ro''
      else if opt = ''root_squash'' then ''no_root_squash''
      else if opt = ''no_root_squash'' then ''root_squash''
      else if opt = ''all_squash'' then ''no_all_squash''
      else if opt = ''secure'' then ''insecure''
      else if opt = ''sync'' then ''async''
      else if opt = ''no_subtree_check'' then ''subtree_check''
      else if opt = ''nohide'' then ''hide'' else [])"

definition optionsMatch :: "string \<Rightarrow> string \<Rightarrow> bool" where
  "optionsMatch actual wanted =
     (let flags = splitOn (CHR '','') actual; opts = splitOn (CHR '','') wanted in
      ''crossmnt'' \<notin> set flags \<and>
      list_all (\<lambda>opt. opt \<in> set flags \<and>
          \<not> (oppositeOption opt \<noteq> [] \<and> oppositeOption opt \<in> set flags)) opts \<and>
      (''nohide'' \<in> set flags) = (''nohide'' \<in> set opts))"

section \<open>A stored address\<close>

lemma addrZone_Unmap: "addrZone a = [] \<Longrightarrow> addrZone (Unmap a) = []"
  by (cases a) auto

lemma IsMulticast_Unmap [simp]: "IsMulticast (Unmap a) = IsMulticast a"
  by (simp add: IsMulticast_def)

definition unspecified4 :: string where
  "unspecified4 = ''0.0.0.0''"

lemma unspecified4_string: "addrString (Addr4 [0, 0, 0, 0]) = unspecified4"
  by code_simp

lemma unicastAddress_stored:
  assumes "unicastAddress s = Some a"
  shows "unicastAddress (addrString a) = (if addrString a = unspecified4 then None else Some a)"
proof -
  obtain ip where ip: "parseAddr s = Some ip" "addrZone ip = []" "\<not> IsUnspecified ip" "\<not> IsMulticast ip" "a = Unmap ip"
    using assms by (auto simp: unicastAddress_def split: option.splits if_splits)
  have rt: "parseAddr (addrString a) = Some a"
    using stored_address [OF ip(1)] addrZone_Unmap [OF ip(2)] ip(5) by simp
  have z: "addrZone a = []" "\<not> IsMulticast a" "Unmap a = a" using ip addrZone_Unmap by simp_all
  have "IsUnspecified a \<longleftrightarrow> a = Addr4 [0, 0, 0, 0]"
  proof
    assume "IsUnspecified a"
    moreover have "a \<noteq> Addr6 (replicate 8 0) []"
    proof
      assume "a = Addr6 (replicate 8 0) []"
      then have "ip = a" using ip(5) by (cases ip) (auto split: if_splits)
      then show False using ip(3) \<open>IsUnspecified a\<close> by simp
    qed
    ultimately show "a = Addr4 [0, 0, 0, 0]" by (simp add: IsUnspecified_def)
  qed (simp add: IsUnspecified_def)
  moreover have "a = Addr4 [0, 0, 0, 0] \<longleftrightarrow> addrString a = unspecified4"
  proof
    assume "addrString a = unspecified4"
    then have "parseAddr (addrString (Addr4 [0, 0, 0, 0])) = Some a" using rt unspecified4_string by simp
    then show "a = Addr4 [0, 0, 0, 0]" using parseAddr_addrString [of "Addr4 [0, 0, 0, 0]"] by simp
  qed (use unspecified4_string in auto)
  ultimately show ?thesis using rt z by (simp add: unicastAddress_def)
qed

lemma canonicalClients_canonical:
  "canonicalClients cs bind = Some ds \<Longrightarrow> d \<in> set ds \<Longrightarrow>
     \<exists>ip s. unicastAddress s = Some ip \<and> Is4 ip = Is4 bind \<and> addrString ip = d"
  by (induction cs arbitrary: ds) (fastforce split: option.splits if_splits)+

lemma canonicalClients_fixed:
  assumes "\<And>d. d \<in> set ds \<Longrightarrow> \<exists>ip s. unicastAddress s = Some ip \<and> Is4 ip = Is4 bind \<and> addrString ip = d"
  shows "canonicalClients ds bind = (if unspecified4 \<in> set ds then None else Some ds)"
  using assms
proof (induction ds)
  case (Cons d ds)
  from Cons.prems [of d] obtain ip s
    where "unicastAddress s = Some ip" "Is4 ip = Is4 bind" "addrString ip = d" by auto
  then have "unicastAddress d = (if d = unspecified4 then None else Some ip)"
    using unicastAddress_stored [of s ip] by simp
  then show ?case using Cons \<open>Is4 ip = Is4 bind\<close> \<open>addrString ip = d\<close> by simp
qed simp

lemma sort_remdups_idem:
  fixes xs :: "string list"
  shows "remdups_adj (sort (remdups_adj (sort xs))) = remdups_adj (sort xs)"
  using distinct_adj_altdef [of "remdups_adj (sort xs)"] by (simp add: sorted_sort_id)

lemma normalizeClients_stored:
  assumes "normalizeClients cs bind = Some ds" "Is4 bind' = Is4 bind"
  shows "normalizeClients ds bind' = (if unspecified4 \<in> set ds then None else Some ds)"
proof -
  obtain xs where xs: "canonicalClients cs bind = Some xs" "ds = remdups_adj (sort xs)"
    using assms(1) by (auto simp: normalizeClients_def)
  then have "canonicalClients ds bind' = (if unspecified4 \<in> set ds then None else Some ds)"
    using canonicalClients_canonical [OF xs(1)] assms(2) by (intro canonicalClients_fixed) auto
  then show ?thesis using xs(2) sort_remdups_idem by (simp add: normalizeClients_def)
qed

definition squashes :: "string set" where
  "squashes = {''root'', ''none'', ''all''}"

lemma normalizePolicy_form:
  assumes "normalizePolicy e = Some e'"
  obtains q where "q \<in> squashes" "e' = e\<lparr>neVersion := nfsVersion, neSquash := q\<rparr>"
  using assms unfolding normalizePolicy_def squashes_def [symmetric] Let_def
  by (simp split: if_split_asm)

lemma normalizePolicy_normal: "q \<in> squashes \<Longrightarrow>
    normalizePolicy (e\<lparr>neVersion := nfsVersion, neSquash := q\<rparr>) = Some (e\<lparr>neVersion := nfsVersion, neSquash := q\<rparr>)"
  by (auto simp: normalizePolicy_def squashes_def nfsVersion_def)

lemma normalizePolicy_stored:
  assumes "normalizePolicy e = Some e'"
  shows "normalizePolicy e' = Some e' \<and> neVolumeID e' = neVolumeID e \<and> nePath e' = nePath e \<and>
     neBindAddress e' = neBindAddress e \<and> neClients e' = neClients e \<and> neACLEnabled e' = neACLEnabled e"
  using assms by (rule normalizePolicy_form) (simp add: normalizePolicy_normal)

lemma normalizePolicy_clients:
  "normalizePolicy e = Some e \<Longrightarrow> normalizePolicy (e\<lparr>neClients := cs\<rparr>) = Some (e\<lparr>neClients := cs\<rparr>)"
  by (cases e) (auto simp: normalizePolicy_def nfsVersion_def Let_def split: if_splits)

lemma normalizeClients_nil [simp]: "normalizeClients [] bind = Some []"
  by (simp add: normalizeClients_def)

text \<open>
  C39: The agent stores a policy as it was normalized and, on restart, refuses to start on a
  stored policy that is not its own normal form. That check accepts every stored policy except
  one that names the unspecified IPv4 address: an admitted policy that names it, as its bind
  address or as a client, is rejected when it is read back, and every other one is its own normal
  form.
\<close>

lemma stored_policy_reloads:
  assumes "normalized e = Some e'"
  shows "normalized e' =
    (if neBindAddress e' = ''0.0.0.0'' \<or> ''0.0.0.0'' \<in> set (neClients e') then None else Some e')"
proof -
  obtain bind e1 cs where n: "neVolumeID e \<noteq> []" "safeExportPath (nePath e)"
      "unicastAddress (neBindAddress e) = Some bind"
      "normalizePolicy (e\<lparr>neBindAddress := addrString bind\<rparr>) = Some e1"
      "normalizeClients (neClients e1) bind = Some cs"
      "e' = e1\<lparr>neClients := (if neACLEnabled e1 then cs else [])\<rparr>"
    using assms by (auto simp: normalized_def split: option.splits if_splits)
  note p = normalizePolicy_stored [OF n(4)]
  have e': "neVolumeID e' = neVolumeID e" "nePath e' = nePath e" "neBindAddress e' = addrString bind"
      "neACLEnabled e' = neACLEnabled e1" "neClients e' = (if neACLEnabled e1 then cs else [])"
    using p n(6) by simp_all
  have pol: "normalizePolicy e' = Some e'" using p n(6) normalizePolicy_clients by simp
  have cl: "normalizeClients (neClients e') bind =
      (if unspecified4 \<in> set (neClients e') then None else Some (neClients e'))"
    using normalizeClients_stored [OF n(5) refl] e'(5) by simp
  have upd: "e'\<lparr>neBindAddress := addrString bind\<rparr> = e'"
      "e'\<lparr>neClients := if neACLEnabled e' then neClients e' else []\<rparr> = e'"
    using e'(3,4,5) by (cases e', simp)+
  show ?thesis
    unfolding normalized_def e'(1-3) unicastAddress_stored [OF n(3)] unspecified4_def [symmetric]
    by (simp add: n(1,2) upd pol cl)
qed

text \<open>The policy of the witnesses: an active export of a volume to one client.\<close>

definition exExport :: nfs_export where
  "exExport = \<lparr>neVolumeID = ''tank/a'', nePath = ''/exports/a'', neBindAddress = ''::ffff:10.0.0.1'', neVersion = [],
     neSquash = [], neReadOnly = False, neACLEnabled = True,
     neClients = [''10.0.0.9'', ''10.0.0.2'', ''::ffff:10.0.0.9''], neActive = True, neSourceKey = [],
     neFenceUID = []\<rparr>"

definition exStored :: nfs_export where
  "exStored = exExport\<lparr>neBindAddress := ''10.0.0.1'', neVersion := ''4.2'', neSquash := ''root'',
     neClients := [''10.0.0.2'', ''10.0.0.9'']\<rparr>"

lemma exPath_safe: "safeExportPath ''/exports/a''"
  by code_simp

lemma ex_ipv4String:
  "ipv4String ([10, 0, 0, 1]) = ''10.0.0.1''" "ipv4String ([0, 0, 0, 0]) = ''0.0.0.0''"
  "ipv4String ([10, 0, 0, 9]) = ''10.0.0.9''" "ipv4String ([10, 0, 0, 2]) = ''10.0.0.2''"
  by code_simp+

lemma ex_parse:
  "parseAddr ''10.0.0.2'' = Some (Addr4 [10, 0, 0, 2])" "parseAddr ''10.0.0.9'' = Some (Addr4 [10, 0, 0, 9])"
  "parseAddr ''::ffff:10.0.0.1'' = Some (Addr6 [0, 0, 0, 0, 0, 65535, 2560, 1] [])"
  "parseAddr ''::ffff:10.0.0.9'' = Some (Addr6 [0, 0, 0, 0, 0, 65535, 2560, 9] [])"
  "parseAddr ''::ffff:0.0.0.0'' = Some (Addr6 [0, 0, 0, 0, 0, 65535, 0, 0] [])"
  using parseAddr_addrString [of "Addr4 [10, 0, 0, 2]"] parseAddr_addrString [of "Addr4 [10, 0, 0, 9]"]
    parse_mapped [of "[10, 0, 0, 1]"] parse_mapped [of "[10, 0, 0, 9]"] parse_mapped [of "[0, 0, 0, 0]"]
  by (simp_all add: ex_ipv4String joinGroups_def del: One_nat_def)

lemma replicate_8: "replicate 8 x = [x, x, x, x, x, x, x, x]"
  by (simp add: numeral_eq_Suc)

lemma ex_unicast:
  "unicastAddress ''::ffff:10.0.0.1'' = Some (Addr4 [10, 0, 0, 1])"
  "unicastAddress ''::ffff:0.0.0.0'' = Some (Addr4 [0, 0, 0, 0])"
  "unicastAddress ''10.0.0.9'' = Some (Addr4 [10, 0, 0, 9])"
  "unicastAddress ''10.0.0.2'' = Some (Addr4 [10, 0, 0, 2])"
  "unicastAddress ''::ffff:10.0.0.9'' = Some (Addr4 [10, 0, 0, 9])"
  by (simp_all add: unicastAddress_def ex_parse IsUnspecified_def IsMulticast_def groupBytes_def replicate_8)

lemma exClients_normalized:
  "normalizeClients [''10.0.0.9'', ''10.0.0.2'', ''::ffff:10.0.0.9''] (Addr4 bind) =
     Some [''10.0.0.2'', ''10.0.0.9'']"
  by (simp add: normalizeClients_def ex_unicast ex_ipv4String less_char_def del: One_nat_def)

lemma exExport_normalized:
  "normalized exExport = Some exStored"
  "normalized (exExport\<lparr>neBindAddress := ''::ffff:0.0.0.0''\<rparr>) = Some (exStored\<lparr>neBindAddress := ''0.0.0.0''\<rparr>)"
  by (simp_all add: normalized_def ex_unicast ex_ipv4String exPath_safe exClients_normalized normalizePolicy_def
      nfsVersion_def exExport_def exStored_def del: One_nat_def)

lemma stored_policy_reloads_witness:
  "normalized exStored = Some exStored \<and> normalized (exStored\<lparr>neBindAddress := ''0.0.0.0''\<rparr>) = None"
  using stored_policy_reloads [OF exExport_normalized(1)] stored_policy_reloads [OF exExport_normalized(2)]
  by (simp add: exStored_def exExport_def)

section \<open>Stored policies\<close>

text \<open>
  The form in which policies are kept: addresses as the agent prints them, clients in order and
  without repetition. Normalizing such a policy either fails or changes nothing.
\<close>

definition canonicalAddress :: "string \<Rightarrow> bool" where
  "canonicalAddress c \<longleftrightarrow> (\<exists>s ip. unicastAddress s = Some ip \<and> c = addrString ip)"

definition policyOk :: "nfs_export \<Rightarrow> bool" where
  "policyOk e \<longleftrightarrow> canonicalAddress (neBindAddress e) \<and> (\<forall>c\<in>set (neClients e). canonicalAddress c) \<and>
     sorted (neClients e) \<and> distinct (neClients e) \<and> neVersion e = nfsVersion \<and> neSquash e \<in> squashes \<and>
     (neACLEnabled e \<or> neClients e = [])"

lemma canonicalAddress_unicast:
  assumes "canonicalAddress c" "unicastAddress c = Some ip"
  shows "addrString ip = c"
proof -
  obtain s a where "unicastAddress s = Some a" "c = addrString a" using assms(1) by (auto simp: canonicalAddress_def)
  then have "Some ip = (if c = unspecified4 then None else Some a)" using unicastAddress_stored assms(2) by simp
  then show ?thesis using \<open>c = addrString a\<close> by (simp split: if_splits)
qed

lemma unicast_canonical: "unicastAddress s = Some ip \<Longrightarrow> canonicalAddress (addrString ip)"
  by (auto simp: canonicalAddress_def)

lemma canonicalClients_same:
  "canonicalClients cs bind = Some ds \<Longrightarrow> (\<forall>c\<in>set cs. canonicalAddress c) \<Longrightarrow> ds = cs"
proof (induction cs arbitrary: ds)
  case (Cons c cs)
  then obtain ip ds' where "unicastAddress c = Some ip" "canonicalClients cs bind = Some ds'" "ds = addrString ip # ds'"
    by (auto split: option.splits if_splits)
  then show ?case using Cons canonicalAddress_unicast by simp
qed simp

lemma sorted_compact: "sorted (xs::string list) \<Longrightarrow> distinct xs \<Longrightarrow> remdups_adj (sort xs) = xs"
  by (simp add: sorted_sort_id remdups_adj_distinct)

lemma distinct_sorted_compact: "distinct (remdups_adj (sort (xs::string list)))"
proof -
  have "distinct (remdups_adj ys)" if "sorted ys" for ys :: "string list"
    using that by (induction ys rule: remdups_adj.induct) (auto simp: order.antisym)
  then show ?thesis by simp
qed

lemma normalized_policyOk: "normalized e = Some e' \<Longrightarrow> policyOk e'"
proof -
  assume "normalized e = Some e'"
  then obtain bind e1 cs where n: "unicastAddress (neBindAddress e) = Some bind"
      "normalizePolicy (e\<lparr>neBindAddress := addrString bind\<rparr>) = Some e1"
      "normalizeClients (neClients e1) bind = Some cs"
      "e' = e1\<lparr>neClients := (if neACLEnabled e1 then cs else [])\<rparr>"
    by (auto simp: normalized_def split: option.splits if_splits)
  obtain q where q: "q \<in> squashes" "e1 = e\<lparr>neBindAddress := addrString bind, neVersion := nfsVersion, neSquash := q\<rparr>"
    using n(2) by (rule normalizePolicy_form) simp
  obtain xs where xs: "canonicalClients (neClients e1) bind = Some xs" "cs = remdups_adj (sort xs)"
    using n(3) by (auto simp: normalizeClients_def)
  then have "\<forall>c\<in>set cs. canonicalAddress c" "sorted cs" "distinct cs"
    using canonicalClients_canonical [OF xs(1)] distinct_sorted_compact
    by (fastforce simp: canonicalAddress_def)+
  then show ?thesis using n(1,4) q unicast_canonical by (simp add: policyOk_def)
qed

lemma policyOk_reload:
  assumes "policyOk e" "normalized e = Some e'"
  shows "e' = e"
proof -
  obtain bind e1 cs where n: "unicastAddress (neBindAddress e) = Some bind"
      "normalizePolicy (e\<lparr>neBindAddress := addrString bind\<rparr>) = Some e1"
      "normalizeClients (neClients e1) bind = Some cs"
      "e' = e1\<lparr>neClients := (if neACLEnabled e1 then cs else [])\<rparr>"
    using assms(2) by (auto simp: normalized_def split: option.splits if_splits)
  have "e\<lparr>neBindAddress := addrString bind\<rparr> = e"
    using canonicalAddress_unicast [OF _ n(1)] assms(1) by (simp add: policyOk_def)
  moreover have "normalizePolicy e = Some e"
  proof -
    have "e\<lparr>neVersion := nfsVersion, neSquash := neSquash e\<rparr> = e" using assms(1) by (simp add: policyOk_def)
    then show ?thesis using normalizePolicy_normal [of "neSquash e" e] assms(1) by (simp add: policyOk_def)
  qed
  ultimately have "e1 = e" using n(2) by simp
  moreover have "cs = neClients e"
    using n(3) \<open>e1 = e\<close> assms(1) canonicalClients_same [of "neClients e" bind] sorted_compact
    by (auto simp: normalizeClients_def policyOk_def)
  ultimately show ?thesis using n(4) assms(1) by (auto simp: policyOk_def)
qed

lemma policyOk_filter: "policyOk e \<Longrightarrow> policyOk (e\<lparr>neClients := filter p (neClients e)\<rparr>)"
  by (auto simp: policyOk_def sorted_filter [of "\<lambda>x. x", simplified])

lemma changedClient_policyOk: "changedClient e c allow = Some e' \<Longrightarrow> policyOk e'"
  by (auto simp: changedClient_def dest!: normalized_policyOk split: option.splits if_splits intro: policyOk_filter)

section \<open>Options\<close>

lemma hexEncode_plain: "x \<in> set (hexEncode xs) \<Longrightarrow> hexValue x \<noteq> None"
  by (induction xs) auto

lemma FSID_no_comma: "CHR '','' \<notin> set (FSID v)"
proof -
  have "hexValue (CHR '','') = None" by (simp add: hexValue_def)
  then have "CHR '','' \<notin> set (hexEncode xs)" for xs using hexEncode_plain by fastforce
  then show ?thesis by (auto simp: FSID_def Let_def dest: in_set_takeD in_set_dropD)
qed

definition optionList :: "nfs_export \<Rightarrow> string list" where
  "optionList e =
     [if neReadOnly e then ''ro'' else ''rw'', ''sync'', ''no_subtree_check'', ''secure'', ''sec=sys'',
      ''fsid='' @ exportFsid e, squashOption (neSquash e)] @
     (if neVolumeID e \<noteq> rootVolumeID \<and> neSourceKey e \<noteq> [] \<and> neFenceUID e \<noteq> [] then [''nohide''] else [])"

lemma exportOptions_join: "exportOptions e = joinWith (CHR '','') (optionList e)"
  by (simp add: exportOptions_def optionList_def)

lemma split_exportOptions: "splitOn (CHR '','') (exportOptions e) = optionList e"
proof -
  have "CHR '','' \<notin> set (exportFsid e)" using FSID_no_comma by (simp add: exportFsid_def)
  then have "list_all (\<lambda>p. CHR '','' \<notin> set p) (optionList e)"
    by (simp add: optionList_def squashOption_def)
  moreover have "optionList e \<noteq> []" by (simp add: optionList_def)
  ultimately show ?thesis by (simp add: exportOptions_join splitOn_joinWith)
qed

definition exportNohide :: "nfs_export \<Rightarrow> bool" where
  "exportNohide e \<longleftrightarrow> neVolumeID e \<noteq> rootVolumeID \<and> neSourceKey e \<noteq> [] \<and> neFenceUID e \<noteq> []"

lemma optionList_mem:
  "''ro'' \<in> set (optionList e) \<longleftrightarrow> neReadOnly e"
  "''rw'' \<in> set (optionList e) \<longleftrightarrow> \<not> neReadOnly e"
  "''fsid='' @ x \<in> set (optionList e) \<longleftrightarrow> x = exportFsid e"
  "''nohide'' \<in> set (optionList e) \<longleftrightarrow> exportNohide e"
  "''async'' \<notin> set (optionList e)" "''subtree_check'' \<notin> set (optionList e)" "''insecure'' \<notin> set (optionList e)"
  "''hide'' \<notin> set (optionList e)" "''crossmnt'' \<notin> set (optionList e)" "''no_all_squash'' \<notin> set (optionList e)"
  by (simp_all add: optionList_def squashOption_def exportNohide_def)

lemma optionList_squash: 
  "squashOption q \<in> set (optionList e) \<longleftrightarrow> squashOption q = squashOption (neSquash e)"
  by (simp add: optionList_def squashOption_def)

lemma squash_opposite:
  "oppositeOption (squashOption (neSquash e)) = [] \<or>
     oppositeOption (squashOption (neSquash e)) \<notin> set (optionList e)"
  by (simp add: optionList_def squashOption_def oppositeOption_def)

lemma oppositeOption_simps:
  "oppositeOption ''ro'' = ''rw''" "oppositeOption ''rw'' = ''ro''" "oppositeOption ''sync'' = ''async''"
  "oppositeOption ''no_subtree_check'' = ''subtree_check''" "oppositeOption ''secure'' = ''insecure''"
  "oppositeOption ''sec=sys'' = []" "oppositeOption ''nohide'' = ''hide''" "oppositeOption (''fsid='' @ x) = []"
  by (simp_all add: oppositeOption_def)

lemma optionList_all:
  "P (if neReadOnly e then ''ro'' else ''rw'') \<Longrightarrow> P ''sync'' \<Longrightarrow> P ''no_subtree_check'' \<Longrightarrow> P ''secure'' \<Longrightarrow>
     P ''sec=sys'' \<Longrightarrow> P (''fsid='' @ exportFsid e) \<Longrightarrow> P (squashOption (neSquash e)) \<Longrightarrow> P ''nohide'' \<Longrightarrow>
     list_all P (optionList e)"
  unfolding optionList_def by (simp only: list_all_append list.pred_inject split: if_split) simp

lemma optionList_own:
  "list_all (\<lambda>opt. oppositeOption opt = [] \<or> oppositeOption opt \<notin> set (optionList e)) (optionList e)"
proof (rule optionList_all)
  show "oppositeOption (if neReadOnly e then ''ro'' else ''rw'') = [] \<or>
      oppositeOption (if neReadOnly e then ''ro'' else ''rw'') \<notin> set (optionList e)"
    by (cases "neReadOnly e") (simp_all add: oppositeOption_simps optionList_mem)
  show "oppositeOption (''fsid='' @ exportFsid e) = [] \<or>
      oppositeOption (''fsid='' @ exportFsid e) \<notin> set (optionList e)"
    using oppositeOption_simps(8) by (rule disjI1)
qed (simp_all only: squash_opposite oppositeOption_simps optionList_mem, simp_all)

lemma optionList_cong:
  "neReadOnly a = neReadOnly b \<Longrightarrow> exportFsid a = exportFsid b \<Longrightarrow>
     squashOption (neSquash a) = squashOption (neSquash b) \<Longrightarrow> exportNohide a = exportNohide b \<Longrightarrow>
     optionList a = optionList b"
  unfolding optionList_def exportNohide_def by (simp only:)

lemma optionsMatch_refl: "optionsMatch (exportOptions e) (exportOptions e)"
  using optionList_own [of e] optionList_mem(9) [of e]
  by (simp add: optionsMatch_def split_exportOptions list_all_iff Let_def)

text \<open>
  C40: The comparison the agent makes between the options the kernel reports and the ones it wants
  allows for extra flags and any order. On what the agent itself writes it is exact: the options
  of one policy match those of another only when they are the same.
\<close>

lemma options_match_iff_equal:
  "optionsMatch (exportOptions a) (exportOptions b) \<longleftrightarrow> exportOptions a = exportOptions b"
proof
  assume m: "optionsMatch (exportOptions a) (exportOptions b)"
  then have all: "opt \<in> set (optionList a)" if "opt \<in> set (optionList b)" for opt
    using that by (auto simp: optionsMatch_def split_exportOptions list_all_iff Let_def)
  have "optionList a = optionList b"
  proof (rule optionList_cong)
    show "neReadOnly a = neReadOnly b" using all [of "''ro''"] all [of "''rw''"] optionList_mem(1,2) by blast
    show "exportFsid a = exportFsid b" using all [of "''fsid='' @ exportFsid b"] optionList_mem(3) by simp
    show "squashOption (neSquash a) = squashOption (neSquash b)"
      using all [of "squashOption (neSquash b)"] optionList_squash by simp
    show "exportNohide a = exportNohide b"
      using m by (simp add: optionsMatch_def split_exportOptions Let_def optionList_mem(4))
  qed
  then show "exportOptions a = exportOptions b" by (simp add: exportOptions_join)
next
  assume "exportOptions a = exportOptions b"
  then show "optionsMatch (exportOptions a) (exportOptions b)" by (simp add: optionsMatch_refl)
qed

text \<open>The identity of the filesystem is read back from the options the agent writes.\<close>

lemma optionValue_fsid: "optionValue (exportOptions e) ''fsid'' = exportFsid e"
  by (cases "neReadOnly e") (simp_all add: optionValue_def split_exportOptions optionList_def)

end
