(* ===== verification/Go_Text.thy ===== *)
theory Go_Text
  imports Prelude
begin

text \<open>
  Go's \<open>strings.Fields\<close> and the line scanner of \<open>bufio\<close> on byte strings. White space is what
  \<open>unicode.IsSpace\<close> accepts, as its UTF-8 bytes. No lead byte of these sequences occurs inside
  another sequence, so looking at the bytes from any position finds the same spaces as decoding.
\<close>

definition spaceLen :: "string \<Rightarrow> nat" where
  "spaceLen s =
     (if take 1 s \<in> {[CHR 0x09], [CHR 0x0A], [CHR 0x0B], [CHR 0x0C], [CHR 0x0D], [CHR 0x20]} then 1
      else if take 2 s \<in> {[CHR 0xC2, CHR 0x85], [CHR 0xC2, CHR 0xA0]} then 2
      else if take 2 s = [CHR 0xE2, CHR 0x80] \<and>
          (let n = of_char (s ! 2) :: nat in length s > 2 \<and> (0x80 \<le> n \<and> n \<le> 0x8A \<or> n \<in> {0xA8, 0xA9, 0xAF})) then 3
      else if take 3 s \<in> {[CHR 0xE1, CHR 0x9A, CHR 0x80], [CHR 0xE2, CHR 0x81, CHR 0x9F], [CHR 0xE3, CHR 0x80, CHR 0x80]} then 3
      else 0)"

definition endField :: "string \<Rightarrow> string list" where
  "endField cur = (if cur = [] then [] else [rev cur])"

function fieldsFrom :: "string \<Rightarrow> string \<Rightarrow> string list" where
  "fieldsFrom cur [] = endField cur"
| "fieldsFrom cur (c # cs) =
     (if spaceLen (c # cs) = 0 then fieldsFrom (c # cur) cs
      else endField cur @ fieldsFrom [] (drop (spaceLen (c # cs) - 1) cs))"
  by pat_completeness auto

termination fieldsFrom
  by (relation "measure (\<lambda>(_, s). length s)") auto

definition stringFields :: "string \<Rightarrow> string list" where
  "stringFields s = fieldsFrom [] s"

text \<open>
  The lines a \<open>bufio.Scanner\<close> yields: the last piece only when it is not empty, without a trailing
  carriage return. A line of 64 KiB does not fit the buffer and ends the scan with an error.
\<close>

definition maxScanTokenSize :: nat where
  "maxScanTokenSize = 65536"

definition dropCR :: "string \<Rightarrow> string" where
  "dropCR l = (if l \<noteq> [] \<and> last l = CHR 0x0D then butlast l else l)"

definition scanLines :: "string \<Rightarrow> string list option" where
  "scanLines s =
     (let ls = splitOn (CHR 0x0A) s; raw = (if last ls = [] then butlast ls else ls) in
      if list_ex (\<lambda>l. length l \<ge> maxScanTokenSize) raw then None else Some (map dropCR raw))"

text \<open>Setting bit 5 of a byte, which code uses to compare letters without case.\<close>

definition lowerBit :: "char \<Rightarrow> nat" where
  "lowerBit c = (let n = of_char c :: nat in if n div 32 mod 2 = 0 then n + 32 else n)"

end
