(* ===== verification/Nfs_Runtime.thy ===== *)
theory Nfs_Runtime
  imports Nfs_Export Go_Text
begin

text \<open>
  The kernel side of the NFS manager, \<open>internal/agent/nfs/runtime_linux.go\<close>: reading the
  admission table, checking that its rows belong to the ledger, validating an export, and the
  calls of \<open>exportfs\<close>. The operating system is a record of functions on a world \<open>'w\<close>; a step
  that may change the world returns whether it succeeded.
\<close>

section \<open>The operating system\<close>

text \<open>
  \<open>diskState\<close>, the content of \<open>owner.json\<close>. A Go map is an association list; its order is the
  order in which a loop over the map meets the entries.
\<close>

record disk_state =
  dsSchema :: nat
  dsIdentity :: string
  dsBindAddress :: string
  dsExportRoot :: string
  dsTrackerPID :: nat
  dsTrackerStart :: string
  dsMountdPID :: nat
  dsMountdStart :: string
  dsDesired :: "(string \<times> nfs_export) list"
  dsLedger :: "nfs_export list"

datatype file_read = Missing | Unreadable | Content string

text \<open>
  What a call of \<open>persist\<close> leaves behind: a failure before the rename keeps the old file, one
  after it (syncing a directory, removing the temporary file) has replaced it.
\<close>

datatype persist_outcome = PersistOk | PersistKept | PersistLost

record 'w nfs_os =
  osIdentity :: "'w \<Rightarrow> string option"
  osEtab :: "'w \<Rightarrow> file_read"
  osKernelExports :: "'w \<Rightarrow> string option"
  osEvalSymlinks :: "string \<Rightarrow> 'w \<Rightarrow> string option"
  osIsDir :: "string \<Rightarrow> 'w \<Rightarrow> bool option"
  osFileHandle :: "string \<Rightarrow> 'w \<Rightarrow> bool"
  osMountinfo :: "'w \<Rightarrow> string option"
  osPrivateEtab :: "'w \<Rightarrow> bool \<times> 'w"
  osExportfs :: "string list \<Rightarrow> 'w \<Rightarrow> bool \<times> 'w"
  osPrerequisites :: "disk_state \<Rightarrow> bool \<Rightarrow> 'w \<Rightarrow> bool \<times> 'w"
  osPrepareKernel :: "bool \<Rightarrow> 'w \<Rightarrow> (nat \<times> string) option \<times> 'w"
  osPreparePaths :: "'w \<Rightarrow> bool \<times> 'w"
  osVersions :: "nat \<Rightarrow> 'w \<Rightarrow> bool \<times> 'w"
  osListener :: "string \<Rightarrow> 'w \<Rightarrow> bool \<times> 'w"
  osStartHelper :: "string \<Rightarrow> 'w \<Rightarrow> (nat \<times> string) option \<times> 'w"
  osHelperHealthy :: "string \<Rightarrow> 'w \<Rightarrow> bool"
  osTrackerReady :: "'w \<Rightarrow> bool \<times> 'w"
  osWaitChannels :: "string list \<Rightarrow> 'w \<Rightarrow> bool \<times> 'w"
  osWriteControl :: "string \<Rightarrow> string \<Rightarrow> 'w \<Rightarrow> bool \<times> 'w"
  osHealth :: "'w \<Rightarrow> bool"
  osClose :: "'w \<Rightarrow> bool \<times> 'w"
  osPersist :: "'w \<Rightarrow> persist_outcome \<times> 'w"
  osOwnerReadable :: "'w \<Rightarrow> bool"
  osMkdirState :: "'w \<Rightarrow> bool \<times> 'w"
  osAcquireLock :: "'w \<Rightarrow> bool \<times> 'w"
  osReleaseLock :: "'w \<Rightarrow> bool \<times> 'w"
  osBeforeActivate :: "nfs_export \<Rightarrow> 'w \<Rightarrow> bool \<times> 'w"
  osCancelled :: "'w \<Rightarrow> bool"

section \<open>The admission table\<close>

definition trimClient :: "string \<Rightarrow> string" where
  "trimClient c =
     (let c1 = (if c \<noteq> [] \<and> last c = CHR '']'' then butlast c else c) in
      if c1 \<noteq> [] \<and> hd c1 = CHR ''['' then tl c1 else c1)"

text \<open>
  One line: \<open>Some None\<close> for a line that is skipped, \<open>None\<close> for one that is not recognized. A
  trimmed line is empty if it has no fields, and starts with \<open>#\<close> if its first field does.
\<close>

definition parseEtabLine :: "string \<Rightarrow> entry option option" where
  "parseEtabLine line =
     (let fs = stringFields line in
      if fs = [] \<or> hd (hd fs) = CHR ''#'' then Some None
      else if length fs \<noteq> 2 then None
      else
        (let f = fs ! 1 in
         case indexByte f (CHR ''('') of
           None \<Rightarrow> None
         | Some i \<Rightarrow>
             if i < 1 \<or> last f \<noteq> CHR '')'' then None
             else Some (Some \<lparr>enPath = fs ! 0, enClient = trimClient (take i f),
                              enOptions = butlast (drop (Suc i) f)\<rparr>)))"

fun parseEtabLines :: "string list \<Rightarrow> entry list option" where
  "parseEtabLines [] = Some []"
| "parseEtabLines (l # ls) =
     (case parseEtabLine l of
        None \<Rightarrow> None
      | Some None \<Rightarrow> parseEtabLines ls
      | Some (Some row) \<Rightarrow> map_option (Cons row) (parseEtabLines ls))"

definition parseEtab :: "string \<Rightarrow> entry list option" where
  "parseEtab data = (case scanLines data of None \<Rightarrow> None | Some ls \<Rightarrow> parseEtabLines ls)"

definition kernelList :: "'w nfs_os \<Rightarrow> 'w \<Rightarrow> entry list option" where
  "kernelList os w =
     (case osEtab os w of Missing \<Rightarrow> Some [] | Unreadable \<Rightarrow> None | Content data \<Rightarrow> parseEtab data)"

section \<open>Rows and the ledger\<close>

definition ownsRow :: "nfs_export \<Rightarrow> entry \<Rightarrow> bool" where
  "ownsRow e row \<longleftrightarrow>
     nePath e = enPath row \<and> enClient row \<in> set (exportClients e) \<and>
     optionValue (enOptions row) ''fsid'' = exportFsid e"

definition ownsIn :: "nfs_export list \<Rightarrow> entry \<Rightarrow> bool" where
  "ownsIn ledger row \<longleftrightarrow> list_ex (\<lambda>e. ownsRow e row) ledger"

fun uuidMatches :: "string \<Rightarrow> string \<Rightarrow> bool" where
  "uuidMatches [] expected \<longleftrightarrow> expected = []"
| "uuidMatches (c # cs) expected \<longleftrightarrow>
     (if c = CHR '':'' then uuidMatches cs expected
      else (case dropWhile (\<lambda>x. x = CHR ''-'') expected of
              [] \<Rightarrow> False
            | x # xs \<Rightarrow> lowerBit c = lowerBit x \<and> uuidMatches cs xs))"

definition kernelIdentityMatches :: "nfs_export \<Rightarrow> string \<Rightarrow> bool" where
  "kernelIdentityMatches e options =
     (if neVolumeID e = rootVolumeID then optionValue options ''fsid'' = ''0''
      else (let uuid = optionValue options ''uuid'' in
        length uuid = 35 \<and> uuid ! 8 = CHR '':'' \<and> uuid ! 17 = CHR '':'' \<and> uuid ! 26 = CHR '':'' \<and>
        uuidMatches uuid (exportFsid e)))"

definition ledgerKnows :: "bool \<Rightarrow> nfs_export list \<Rightarrow> entry \<Rightarrow> bool" where
  "ledgerKnows inKernel ledger row \<longleftrightarrow>
     list_ex (\<lambda>e. enPath row = nePath e \<and>
       (if inKernel then kernelIdentityMatches e (enOptions row)
        else optionValue (enOptions row) ''fsid'' = exportFsid e) \<and>
       enClient row \<in> set (exportClients e)) ledger"

definition verifyLedgerRows :: "entry list \<Rightarrow> nfs_export list \<Rightarrow> bool \<Rightarrow> bool" where
  "verifyLedgerRows rows ledger inKernel \<longleftrightarrow> list_all (ledgerKnows inKernel ledger) rows"

definition verifyExports :: "'w nfs_os \<Rightarrow> disk_state \<Rightarrow> 'w \<Rightarrow> bool" where
  "verifyExports os st w =
     (case kernelList os w of
        None \<Rightarrow> False
      | Some rows \<Rightarrow>
          verifyLedgerRows rows (dsLedger st) False \<and>
          (case osKernelExports os w of
             None \<Rightarrow> False
           | Some data \<Rightarrow>
               (case parseEtab data of
                  None \<Rightarrow> False
                | Some cacheRows \<Rightarrow> verifyLedgerRows cacheRows (dsLedger st) True)))"

section \<open>Validating, granting and revoking\<close>

datatype validation = Valid | Invalid | RuntimeFailure

definition mountedAt :: "string \<Rightarrow> string \<Rightarrow> bool" where
  "mountedAt data path \<longleftrightarrow>
     list_ex (\<lambda>l. length (stringFields l) > 6 \<and> stringFields l ! 4 = path) (splitOn (CHR 0x0A) data)"

definition kernelValidate :: "'w nfs_os \<Rightarrow> nfs_export \<Rightarrow> 'w \<Rightarrow> validation" where
  "kernelValidate os e w =
     (if osEvalSymlinks os (nePath e) w \<noteq> Some (nePath e) then Invalid
      else if osIsDir os (nePath e) w \<noteq> Some True then Invalid
      else if neVolumeID e = rootVolumeID then (if osFileHandle os (nePath e) w then Valid else Invalid)
      else (case osMountinfo os w of
              None \<Rightarrow> RuntimeFailure
            | Some data \<Rightarrow> if mountedAt data (nePath e) then Valid else Invalid))"

definition exportOperand :: "string \<Rightarrow> string \<Rightarrow> string" where
  "exportOperand client path = (if CHR '':'' \<in> set client then ''['' @ client @ '']'' else client) @ '':'' @ path"

definition runExportfs :: "'w nfs_os \<Rightarrow> string list \<Rightarrow> 'w \<Rightarrow> bool \<times> 'w" where
  "runExportfs os args w =
     (case osPrivateEtab os w of (False, w1) \<Rightarrow> (False, w1) | (True, w1) \<Rightarrow> osExportfs os args w1)"

definition grantArgs :: "string \<Rightarrow> string \<Rightarrow> string \<Rightarrow> string list" where
  "grantArgs options client path = [''-i'', ''-o'', options, ''--'', exportOperand client path]"

definition revokeArgs :: "string \<Rightarrow> string \<Rightarrow> string list" where
  "revokeArgs client path = [''-u'', ''--'', exportOperand client path]"

definition kernelGrant :: "'w nfs_os \<Rightarrow> nfs_export \<Rightarrow> string \<Rightarrow> 'w \<Rightarrow> bool \<times> 'w" where
  "kernelGrant os e client w =
     (if kernelValidate os e w \<noteq> Valid then (False, w)
      else runExportfs os (grantArgs (exportOptions e) client (nePath e)) w)"

definition kernelRevoke :: "'w nfs_os \<Rightarrow> string \<Rightarrow> string \<Rightarrow> 'w \<Rightarrow> bool \<times> 'w" where
  "kernelRevoke os path client w = runExportfs os (revokeArgs client path) w"

end
