(* ===== verification/Nfs_Manager.thy ===== *)
theory Nfs_Manager
  imports Nfs_Runtime "HOL-Library.AList"
begin

text \<open>
  The NFS manager, \<open>internal/agent/nfs/manager.go\<close>. Its state, the file \<open>owner.json\<close> and the
  world form one record; a method that holds the manager's lock is a function of it. Errors carry
  no status here, so a step returns whether it succeeded. Every failure of the operating system
  is decided by the world, and a crash is a world in which every later step fails and changes
  nothing.
\<close>

section \<open>State\<close>

datatype owner_file = NoOwner | BadOwner | Owner disk_state

record nfs_config =
  cfgBindAddress :: string
  cfgExportRoot :: string
  cfgGuarded :: bool

record 'w nfs_sys =
  sState :: disk_state
  sLock :: bool
  sStarted :: bool
  sClosed :: bool
  sFailure :: bool
  sErrors :: "string list"
  sCloseErr :: bool
  sDisk :: owner_file
  sWorld :: 'w

type_synonym 'w step = "'w nfs_sys \<Rightarrow> bool \<times> 'w nfs_sys"

definition osStep :: "('w \<Rightarrow> bool \<times> 'w) \<Rightarrow> 'w step" where
  "osStep f s = (case f (sWorld s) of (done, w) \<Rightarrow> (done, s\<lparr>sWorld := w\<rparr>))"

definition require :: "('w nfs_sys \<Rightarrow> bool) \<Rightarrow> 'w step" where
  "require p s = (p s, s)"

definition change :: "('w nfs_sys \<Rightarrow> 'w nfs_sys) \<Rightarrow> 'w step" where
  "change f s = (True, f s)"

text \<open>A step and, when it succeeded, the next one.\<close>

definition andThen :: "'w step \<Rightarrow> 'w step \<Rightarrow> 'w step" where
  "andThen f g s = (case f s of (done, s1) \<Rightarrow> if done then g s1 else (False, s1))"

fun inOrder :: "'w step list \<Rightarrow> 'w step" where
  "inOrder [] s = (True, s)"
| "inOrder (f # fs) s = andThen f (inOrder fs) s"

definition Desired :: "'w nfs_sys \<Rightarrow> (string \<times> nfs_export) list" where
  "Desired s = dsDesired (sState s)"

definition Ledger :: "'w nfs_sys \<Rightarrow> nfs_export list" where
  "Ledger s = dsLedger (sState s)"

definition setDesired :: "string \<Rightarrow> nfs_export \<Rightarrow> 'w nfs_sys \<Rightarrow> 'w nfs_sys" where
  "setDesired vid e s = s\<lparr>sState := (sState s)\<lparr>dsDesired := AList.update vid e (Desired s)\<rparr>\<rparr>"

definition setLedger :: "nfs_export list \<Rightarrow> 'w nfs_sys \<Rightarrow> 'w nfs_sys" where
  "setLedger l s = s\<lparr>sState := (sState s)\<lparr>dsLedger := l\<rparr>\<rparr>"

definition addLedger :: "nfs_export \<Rightarrow> 'w nfs_sys \<Rightarrow> 'w nfs_sys" where
  "addLedger e s = setLedger (Ledger s @ [e]) s"

section \<open>The pseudoroot\<close>

definition emptyRoot :: "nfs_config \<Rightarrow> nfs_export" where
  "emptyRoot cfg = \<lparr>neVolumeID = rootVolumeID, nePath = cfgExportRoot cfg, neBindAddress = cfgBindAddress cfg,
     neVersion = nfsVersion, neSquash = ''root'', neReadOnly = True, neACLEnabled = True, neClients = [],
     neActive = False, neSourceKey = [], neFenceUID = []\<rparr>"

fun rootLoop :: "string list \<Rightarrow> (string \<times> nfs_export) list \<Rightarrow> nfs_export \<Rightarrow> nfs_export" where
  "rootLoop errs [] root = root"
| "rootLoop errs ((vid, e) # ds) root =
     (if vid = rootVolumeID \<or> \<not> neActive e \<or> vid \<in> set errs then rootLoop errs ds root
      else if \<not> neACLEnabled e then root\<lparr>neACLEnabled := False, neActive := True, neClients := []\<rparr>
      else rootLoop errs ds (root\<lparr>neClients := neClients root @ neClients e\<rparr>))"

definition rootExport :: "nfs_config \<Rightarrow> string list \<Rightarrow> (string \<times> nfs_export) list \<Rightarrow> nfs_export" where
  "rootExport cfg errs ds =
     (let root = rootLoop errs ds (emptyRoot cfg); cs = remdups_adj (sort (neClients root)) in
      if neACLEnabled root then root\<lparr>neClients := cs, neActive := cs \<noteq> []\<rparr> else root)"

definition updateRoot :: "nfs_config \<Rightarrow> 'w nfs_sys \<Rightarrow> 'w nfs_sys" where
  "updateRoot cfg s =
     (let root = rootExport cfg (sErrors s) (Desired s); s1 = setDesired rootVolumeID root s in
      if neActive root then addLedger root s1 else s1)"

section \<open>The ownership file\<close>

definition persist :: "'w nfs_os \<Rightarrow> 'w step" where
  "persist os s =
     (case osPersist os (sWorld s) of
        (PersistOk, w) \<Rightarrow> (True, s\<lparr>sDisk := Owner (sState s), sWorld := w\<rparr>)
      | (PersistKept, w) \<Rightarrow> (False, s\<lparr>sDisk := Owner (sState s), sWorld := w\<rparr>)
      | (PersistLost, w) \<Rightarrow> (False, s\<lparr>sWorld := w\<rparr>))"

definition validateOwned :: "nfs_config \<Rightarrow> nfs_export \<Rightarrow> bool" where
  "validateOwned cfg e =
     (if neVolumeID e = rootVolumeID then
        nePath e = cfgExportRoot cfg \<and> neReadOnly e \<and> neSquash e = ''root''
      else ExportPath (cfgExportRoot cfg) (nePath e) \<noteq> None)"

definition validatePersisted :: "nfs_config \<Rightarrow> nfs_export \<Rightarrow> nfs_export option" where
  "validatePersisted cfg e =
     (case normalized e of
        None \<Rightarrow> None
      | Some v \<Rightarrow> if neBindAddress v = cfgBindAddress cfg \<and> validateOwned cfg v then Some v else None)"

text \<open>The loops of \<open>validateState\<close> replace an entry by its normal form before they go on.\<close>

fun validateDesired :: "nfs_config \<Rightarrow> (string \<times> nfs_export) list \<Rightarrow> bool \<times> (string \<times> nfs_export) list" where
  "validateDesired cfg [] = (True, [])"
| "validateDesired cfg ((vid, e) # ds) =
     (case validatePersisted cfg e of
        None \<Rightarrow> (False, (vid, e) # ds)
      | Some v \<Rightarrow>
          if vid \<noteq> neVolumeID e then (False, (vid, e) # ds)
          else map_prod (\<lambda>x. x) (Cons (vid, v)) (validateDesired cfg ds))"

fun validateLedger :: "nfs_config \<Rightarrow> nfs_export list \<Rightarrow> bool \<times> nfs_export list" where
  "validateLedger cfg [] = (True, [])"
| "validateLedger cfg (e # es) =
     (case validatePersisted cfg e of
        None \<Rightarrow> (False, e # es)
      | Some v \<Rightarrow> map_prod (\<lambda>x. x) (Cons v) (validateLedger cfg es))"

definition validateState :: "nfs_config \<Rightarrow> 'w step" where
  "validateState cfg s =
     (case validateDesired cfg (Desired s) of
        (False, ds) \<Rightarrow> (False, s\<lparr>sState := (sState s)\<lparr>dsDesired := ds\<rparr>\<rparr>)
      | (True, ds) \<Rightarrow>
          (case validateLedger cfg (Ledger s) of
             (done, l) \<Rightarrow> (done, s\<lparr>sState := (sState s)\<lparr>dsDesired := ds, dsLedger := l\<rparr>\<rparr>)))"

definition freshState :: "nfs_config \<Rightarrow> disk_state" where
  "freshState cfg = \<lparr>dsSchema = 1, dsIdentity = [], dsBindAddress = cfgBindAddress cfg,
     dsExportRoot = cfgExportRoot cfg, dsTrackerPID = 0, dsTrackerStart = [], dsMountdPID = 0, dsMountdStart = [],
     dsDesired = [], dsLedger = []\<rparr>"

text \<open>
  Decoding keeps entries of the map that an earlier, failed start left in memory. Those came from
  the same file, so the model replaces the state.
\<close>

definition loadState :: "'w nfs_os \<Rightarrow> nfs_config \<Rightarrow> 'w step" where
  "loadState os cfg s =
     (if \<not> osOwnerReadable os (sWorld s) then (False, s)
      else (case sDisk s of
        NoOwner \<Rightarrow> (True, s\<lparr>sState := freshState cfg\<rparr>)
      | BadOwner \<Rightarrow> (False, s)
      | Owner d \<Rightarrow>
          if dsSchema d \<noteq> 1 \<or> dsBindAddress d \<noteq> cfgBindAddress cfg \<or> dsExportRoot d \<noteq> cfgExportRoot cfg
          then (False, s\<lparr>sState := d\<rparr>)
          else validateState cfg (s\<lparr>sState := d\<rparr>)))"

section \<open>Ownership of rows\<close>

definition owns :: "'w nfs_sys \<Rightarrow> entry \<Rightarrow> bool" where
  "owns s row = ownsIn (Ledger s) row"

definition foreignConflict :: "'w nfs_sys \<Rightarrow> entry \<Rightarrow> bool" where
  "foreignConflict s row \<longleftrightarrow>
     list_ex (\<lambda>e. enPath row = nePath e \<or> optionValue (enOptions row) ''fsid'' = exportFsid e) (Ledger s)"

fun revokeRows :: "'w nfs_os \<Rightarrow> entry list \<Rightarrow> 'w step" where
  "revokeRows os [] s = (True, s)"
| "revokeRows os (row # rows) s =
     (if owns s row then
        (case osStep (kernelRevoke os (enPath row) (enClient row)) s of
           (done, s1) \<Rightarrow> map_prod (\<lambda>r. done \<and> r) (\<lambda>x. x) (revokeRows os rows s1))
      else revokeRows os rows s)"

definition revokeOwned :: "'w nfs_os \<Rightarrow> 'w step" where
  "revokeOwned os s =
     (case kernelList os (sWorld s) of None \<Rightarrow> (False, s) | Some rows \<Rightarrow> revokeRows os rows s)"

definition healthLocked :: "'w nfs_os \<Rightarrow> 'w nfs_sys \<Rightarrow> bool" where
  "healthLocked os s \<longleftrightarrow> \<not> sFailure s \<and> sStarted s \<and> \<not> sClosed s \<and> osHealth os (sWorld s)"

text \<open>\<open>Health\<close> also reports unavailable exports.\<close>

definition Health :: "'w nfs_os \<Rightarrow> 'w nfs_sys \<Rightarrow> bool" where
  "Health os s \<longleftrightarrow> healthLocked os s \<and> sErrors s = []"

definition failClosed :: "'w nfs_os \<Rightarrow> 'w step" where
  "failClosed os s =
     (case revokeOwned os s of
        (_, s1) \<Rightarrow> (case osStep (osClose os) s1 of (_, s2) \<Rightarrow> (False, s2\<lparr>sFailure := True\<rparr>)))"

definition stopOwned :: "'w nfs_os \<Rightarrow> 'w step" where
  "stopOwned os s =
     (case revokeOwned os s of
        (a, s1) \<Rightarrow> (case osStep (osClose os) s1 of (b, s2) \<Rightarrow> (a \<and> b, s2)))"

definition daemonFailed :: "'w nfs_os \<Rightarrow> 'w nfs_sys \<Rightarrow> 'w nfs_sys" where
  "daemonFailed os s =
     (if sClosed s then s
      else if \<not> sStarted s then s\<lparr>sFailure := True\<rparr>
      else snd (failClosed os s))"

section \<open>Desired rows\<close>

type_synonym wanted = "((string \<times> string) \<times> entry) list"

definition wantRows :: "nfs_export \<Rightarrow> wanted \<Rightarrow> wanted" where
  "wantRows e wanted =
     fold (\<lambda>c. AList.update (nePath e, c) (exportEntry e c)) (exportClients e) wanted"

definition beforeActivate :: "'w nfs_os \<Rightarrow> nfs_config \<Rightarrow> nfs_export \<Rightarrow> 'w step" where
  "beforeActivate os cfg e s =
     (if neSourceKey e = [] \<and> neFenceUID e = [] then (True, s)
      else if neSourceKey e = [] \<or> neFenceUID e = [] then (False, s)
      else if \<not> cfgGuarded cfg then (False, s)
      else osStep (osBeforeActivate os e) s)"

datatype activation = Usable | Unavailable | Fatal

definition addError :: "string \<Rightarrow> 'w nfs_sys \<Rightarrow> 'w nfs_sys" where
  "addError vid s = s\<lparr>sErrors := vid # sErrors s\<rparr>"

definition validateActivation ::
    "'w nfs_os \<Rightarrow> nfs_config \<Rightarrow> nfs_export \<Rightarrow> 'w nfs_sys \<Rightarrow> activation \<times> 'w nfs_sys" where
  "validateActivation os cfg e s =
     (case kernelValidate os e (sWorld s) of
        RuntimeFailure \<Rightarrow> (Fatal, s)
      | Invalid \<Rightarrow> (Unavailable, addError (neVolumeID e) s)
      | Valid \<Rightarrow>
          (case beforeActivate os cfg e s of
             (True, s1) \<Rightarrow> (Usable, s1)
           | (False, s1) \<Rightarrow> (Unavailable, addError (neVolumeID e) s1)))"

fun desiredLoop ::
    "'w nfs_os \<Rightarrow> nfs_config \<Rightarrow> (string \<times> nfs_export) list \<Rightarrow> wanted \<Rightarrow> 'w nfs_sys \<Rightarrow> wanted option \<times> 'w nfs_sys"
  where
  "desiredLoop os cfg [] wanted s = (Some wanted, s)"
| "desiredLoop os cfg ((vid, e) # ds) wanted s =
     (if vid = rootVolumeID \<or> \<not> neActive e then desiredLoop os cfg ds wanted s
      else (case validateActivation os cfg e s of
        (Fatal, s1) \<Rightarrow> (None, s1)
      | (Unavailable, s1) \<Rightarrow> desiredLoop os cfg ds wanted s1
      | (Usable, s1) \<Rightarrow> desiredLoop os cfg ds (wantRows e wanted) (addLedger e s1)))"

definition rootEntries :: "'w nfs_os \<Rightarrow> nfs_config \<Rightarrow> wanted \<Rightarrow> 'w nfs_sys \<Rightarrow> wanted option \<times> 'w nfs_sys" where
  "rootEntries os cfg wanted s =
     (let s1 = updateRoot cfg s; root = rootExport cfg (sErrors s) (Desired s) in
      if \<not> neActive root then (Some wanted, s1)
      else if kernelValidate os root (sWorld s1) \<noteq> Valid then (None, s1)
      else (Some (wantRows root wanted), s1))"

definition desiredEntries :: "'w nfs_os \<Rightarrow> nfs_config \<Rightarrow> 'w nfs_sys \<Rightarrow> wanted option \<times> 'w nfs_sys" where
  "desiredEntries os cfg s =
     (case desiredLoop os cfg (Desired s) [] (s\<lparr>sErrors := []\<rparr>) of
        (None, s1) \<Rightarrow> (None, s1)
      | (Some wanted, s1) \<Rightarrow> rootEntries os cfg wanted s1)"

section \<open>Convergence\<close>

fun revokeObsolete :: "'w nfs_os \<Rightarrow> entry list \<Rightarrow> wanted \<Rightarrow> 'w step" where
  "revokeObsolete os [] wanted s = (True, s)"
| "revokeObsolete os (row # rows) wanted s =
     (if \<not> owns s row then
        (if foreignConflict s row then (False, s) else revokeObsolete os rows wanted s)
      else if (\<exists>want\<in>set_option (map_of wanted (enPath row, enClient row)).
          optionsMatch (enOptions row) (enOptions want))
      then revokeObsolete os rows wanted s
      else andThen (osStep (kernelRevoke os (enPath row) (enClient row))) (revokeObsolete os rows wanted) s)"

definition existingRows :: "'w nfs_sys \<Rightarrow> entry list \<Rightarrow> (string \<times> string) \<rightharpoonup> entry" where
  "existingRows s rows = map_of (rev (map (\<lambda>r. ((enPath r, enClient r), r)) (filter (owns s) rows)))"

fun grantClients ::
    "'w nfs_os \<Rightarrow> ((string \<times> string) \<rightharpoonup> entry) \<Rightarrow> wanted \<Rightarrow> nfs_export \<Rightarrow> string list \<Rightarrow> 'w step" where
  "grantClients os existing wanted e [] s = (True, s)"
| "grantClients os existing wanted e (c # cs) s =
     (case map_of wanted (nePath e, c) of
        None \<Rightarrow> grantClients os existing wanted e cs s
      | Some want \<Rightarrow>
          if (\<exists>row\<in>set_option (existing (nePath e, c)). optionsMatch (enOptions row) (enOptions want))
          then grantClients os existing wanted e cs s
          else andThen (osStep (kernelGrant os e c)) (grantClients os existing wanted e cs) s)"

fun grantExports ::
    "'w nfs_os \<Rightarrow> ((string \<times> string) \<rightharpoonup> entry) \<Rightarrow> wanted \<Rightarrow> (string \<times> nfs_export) list \<Rightarrow> 'w step" where
  "grantExports os existing wanted [] s = (True, s)"
| "grantExports os existing wanted ((vid, e) # ds) s =
     andThen (grantClients os existing wanted e (exportClients e)) (grantExports os existing wanted ds) s"

definition grantDesired :: "'w nfs_os \<Rightarrow> entry list \<Rightarrow> wanted \<Rightarrow> 'w step" where
  "grantDesired os rows wanted s = grantExports os (existingRows s rows) wanted (Desired s) s"

fun verifyRows :: "'w nfs_sys \<Rightarrow> entry list \<Rightarrow> wanted \<Rightarrow> wanted option" where
  "verifyRows s [] wanted = Some wanted"
| "verifyRows s (row # rows) wanted =
     (if \<not> owns s row then (if foreignConflict s row then None else verifyRows s rows wanted)
      else (case map_of wanted (enPath row, enClient row) of
              None \<Rightarrow> None
            | Some want \<Rightarrow>
                if \<not> optionsMatch (enOptions row) (enOptions want) then None
                else verifyRows s rows (AList.delete (enPath row, enClient row) wanted)))"

definition verifyAdmissions :: "'w nfs_os \<Rightarrow> wanted \<Rightarrow> 'w nfs_sys \<Rightarrow> bool" where
  "verifyAdmissions os wanted s =
     (case kernelList os (sWorld s) of
        None \<Rightarrow> False
      | Some rows \<Rightarrow> verifyRows s rows wanted = Some [])"

definition rebuildLedger :: "'w nfs_sys \<Rightarrow> 'w nfs_sys" where
  "rebuildLedger s =
     setLedger (map snd (filter (\<lambda>(vid, e). neActive e \<and> \<not> (vid \<noteq> rootVolumeID \<and> vid \<in> set (sErrors s))) (Desired s))) s"

definition persistOrFail :: "'w nfs_os \<Rightarrow> 'w step" where
  "persistOrFail os s =
     (case persist os s of (done, s1) \<Rightarrow> (done, if done then s1 else s1\<lparr>sFailure := True\<rparr>))"

definition converge :: "'w nfs_os \<Rightarrow> nfs_config \<Rightarrow> 'w step" where
  "converge os cfg s =
     (case kernelList os (sWorld s) of
        None \<Rightarrow> (False, s)
      | Some rows \<Rightarrow>
     (case desiredEntries os cfg s of
        (None, s1) \<Rightarrow> (False, s1)
      | (Some wanted, s1) \<Rightarrow>
          inOrder [persist os, revokeObsolete os rows wanted, grantDesired os rows wanted,
            require (verifyAdmissions os wanted), require (healthLocked os), change rebuildLedger,
            persistOrFail os] s1))"

definition applyDesired :: "'w nfs_os \<Rightarrow> nfs_config \<Rightarrow> 'w step" where
  "applyDesired os cfg s = (case converge os cfg s of (done, s1) \<Rightarrow> if done then (True, s1) else failClosed os s1)"

definition applyOrStop :: "'w nfs_os \<Rightarrow> nfs_config \<Rightarrow> 'w step" where
  "applyOrStop os cfg s = (if \<not> healthLocked os s then stopOwned os s else applyDesired os cfg s)"

section \<open>Starting\<close>

definition hinted :: "nfs_export \<Rightarrow> bool" where
  "hinted e \<longleftrightarrow> neSourceKey e \<noteq> [] \<or> neFenceUID e \<noteq> []"

definition guardedState :: "'w nfs_sys \<Rightarrow> bool" where
  "guardedState s \<longleftrightarrow>
     list_ex (\<lambda>(vid, e). vid \<noteq> rootVolumeID \<and> neActive e \<and> hinted e) (Desired s) \<or>
     list_ex (\<lambda>e. neVolumeID e \<noteq> rootVolumeID \<and> hinted e) (Ledger s)"

definition preflightActivation :: "'w nfs_os \<Rightarrow> nfs_config \<Rightarrow> 'w step" where
  "preflightActivation os cfg s =
     (if \<not> guardedState s then (True, s)
      else (case kernelList os (sWorld s) of
        None \<Rightarrow> (False, s)
      | Some rows \<Rightarrow>
     (case desiredEntries os cfg s of
        (None, s1) \<Rightarrow> (False, s1)
      | (Some wanted, s1) \<Rightarrow>
          inOrder [revokeObsolete os rows wanted, change rebuildLedger, persist os] s1)))"

definition claimServer :: "string \<Rightarrow> 'w nfs_sys \<Rightarrow> 'w nfs_sys" where
  "claimServer identity s =
     s\<lparr>sState := (sState s)\<lparr>dsIdentity := identity, dsMountdPID := 0, dsMountdStart := [], dsTrackerPID := 0,
       dsTrackerStart := []\<rparr>\<rparr>"

definition recordHelper :: "string \<Rightarrow> nat \<Rightarrow> string \<Rightarrow> 'w nfs_sys \<Rightarrow> 'w nfs_sys" where
  "recordHelper name pid start s =
     s\<lparr>sState := (if name = ''nfsdcld'' then (sState s)\<lparr>dsTrackerPID := pid, dsTrackerStart := start\<rparr>
                  else (sState s)\<lparr>dsMountdPID := pid, dsMountdStart := start\<rparr>)\<rparr>"

definition startHelper :: "'w nfs_os \<Rightarrow> string \<Rightarrow> 'w step" where
  "startHelper os name s =
     (case osStartHelper os name (sWorld s) of
        (None, w) \<Rightarrow> (False, s\<lparr>sWorld := w\<rparr>)
      | (Some (pid, start), w) \<Rightarrow>
          (case persist os (recordHelper name pid start (s\<lparr>sWorld := w\<rparr>)) of
             (False, s1) \<Rightarrow> (False, snd (osStep (osClose os) s1))
           | (True, s1) \<Rightarrow> (osHelperHealthy os name (sWorld s1), s1)))"

definition startHelpers :: "'w nfs_os \<Rightarrow> nat \<Rightarrow> 'w step" where
  "startHelpers os threadCount =
     inOrder [startHelper os ''nfsdcld'', osStep (osTrackerReady os), startHelper os ''rpc.mountd'',
       osStep (osWaitChannels os [''/auth.unix.ip/channel'', ''/nfsd.export/channel'']),
       (if threadCount = 0 then osStep (osWriteControl os ''threads'' ''8'') else require (\<lambda>_. True)),
       osStep (osWaitChannels os [''/nfsd/cld''])]"

text \<open>What \<open>start\<close> does with the threads and listeners that preparing the kernel found.\<close>

definition runServer :: "'w nfs_os \<Rightarrow> string \<Rightarrow> nat \<Rightarrow> string \<Rightarrow> 'w step" where
  "runServer os identity threadCount ports =
     inOrder [osStep (osPreparePaths os), require (\<lambda>s. verifyExports os (sState s) (sWorld s)),
       change (claimServer identity), persist os, osStep (osVersions os threadCount), osStep (osListener os ports),
       startHelpers os threadCount, require (\<lambda>s. osHealth os (sWorld s))]"

definition prepareAndRun :: "'w nfs_os \<Rightarrow> string \<Rightarrow> bool \<Rightarrow> 'w step" where
  "prepareAndRun os identity owned s =
     (case osPrepareKernel os owned (sWorld s) of
        (None, w) \<Rightarrow> (False, s\<lparr>sWorld := w\<rparr>)
      | (Some (threadCount, ports), w) \<Rightarrow> runServer os identity threadCount ports (s\<lparr>sWorld := w\<rparr>))"

definition claimAndRun :: "'w nfs_os \<Rightarrow> string \<Rightarrow> 'w step" where
  "claimAndRun os identity s =
     (let owned = (dsIdentity (sState s) = identity) in
      andThen (osStep (osPrerequisites os (sState s) owned)) (prepareAndRun os identity owned) s)"

definition kernelStart :: "'w nfs_os \<Rightarrow> 'w step" where
  "kernelStart os s =
     (case osIdentity os (sWorld s) of
        None \<Rightarrow> (False, s)
      | Some identity \<Rightarrow>
          (case claimAndRun os identity s of
             (True, s1) \<Rightarrow> (True, s1)
           | (False, s1) \<Rightarrow> (False, snd (osStep (osClose os) s1))))"

definition setIdentity :: "string \<Rightarrow> 'w nfs_sys \<Rightarrow> 'w nfs_sys" where
  "setIdentity identity s = s\<lparr>sState := (sState s)\<lparr>dsIdentity := identity\<rparr>\<rparr>"

definition persistOrClose :: "'w nfs_os \<Rightarrow> 'w step" where
  "persistOrClose os s =
     (case persist os s of
        (True, s1) \<Rightarrow> (True, s1)
      | (False, s1) \<Rightarrow> (False, snd (osStep (osClose os) s1)))"

definition startLocked :: "'w nfs_os \<Rightarrow> nfs_config \<Rightarrow> 'w step" where
  "startLocked os cfg s =
     (case osIdentity os (sWorld s) of
        None \<Rightarrow> (False, s)
      | Some identity \<Rightarrow>
          inOrder [loadState os cfg, change (updateRoot cfg), preflightActivation os cfg, kernelStart os,
            change (setIdentity identity), persistOrClose os, change (\<lambda>s. s\<lparr>sStarted := True\<rparr>),
            applyDesired os cfg] s)"

definition Start :: "'w nfs_os \<Rightarrow> nfs_config \<Rightarrow> 'w step" where
  "Start os cfg s =
     (if osCancelled os (sWorld s) then (False, s)
      else if sClosed s then (False, s)
      else if sStarted s then (healthLocked os s, s)
      else if sFailure s then (False, s)
      else (case osStep (osMkdirState os) s of
        (False, s1) \<Rightarrow> (False, s1)
      | (True, s1) \<Rightarrow>
     (case osStep (osAcquireLock os) s1 of
        (False, s2) \<Rightarrow> (False, s2\<lparr>sLock := False\<rparr>)
      | (True, s2) \<Rightarrow>
     (case startLocked os cfg (s2\<lparr>sLock := True\<rparr>) of
        (done, s3) \<Rightarrow>
          if sStarted s3 then (done, s3)
          else (False, (snd (osStep (osReleaseLock os) s3))\<lparr>sLock := False\<rparr>)))))"

section \<open>Changing exports\<close>

definition validatePut :: "'w nfs_os \<Rightarrow> nfs_config \<Rightarrow> nfs_export \<Rightarrow> 'w \<Rightarrow> bool" where
  "validatePut os cfg e w \<longleftrightarrow>
     neVolumeID e \<noteq> rootVolumeID \<and> ExportPath (cfgExportRoot cfg) (nePath e) \<noteq> None \<and>
     osEvalSymlinks os (nePath e) w = Some (nePath e) \<and> osIsDir os (nePath e) w = Some True \<and>
     kernelValidate os e w = Valid \<and> neBindAddress e = cfgBindAddress cfg"

definition rejectExport :: "'w nfs_os \<Rightarrow> nfs_config \<Rightarrow> nfs_export \<Rightarrow> 'w nfs_sys \<Rightarrow> 'w nfs_sys" where
  "rejectExport os cfg e s =
     (case map_of (Desired s) (neVolumeID e) of
        None \<Rightarrow> s
      | Some old \<Rightarrow>
          if nePath old \<noteq> nePath e \<or> \<not> healthLocked os s \<or> osCancelled os (sWorld s) then s
          else snd (applyDesired os cfg s))"

definition putPolicy :: "(string \<times> nfs_export) list \<Rightarrow> nfs_export \<Rightarrow> bool \<Rightarrow> nfs_export option" where
  "putPolicy ds e exact =
     (case (case map_of ds (neVolumeID e) of
              None \<Rightarrow> Some e
            | Some old \<Rightarrow>
                if nePath old \<noteq> nePath e then None
                else if hinted old \<and> hinted e \<and>
                    (neSourceKey e \<noteq> neSourceKey old \<or> neFenceUID e \<noteq> neFenceUID old) then None
                else (let e1 = (if hinted old \<and> \<not> hinted e
                                then e\<lparr>neSourceKey := neSourceKey old, neFenceUID := neFenceUID old\<rparr> else e) in
                  Some (if \<not> exact \<and> neACLEnabled old \<and> neACLEnabled e1 then e1\<lparr>neClients := neClients old\<rparr>
                        else e1))) of
        None \<Rightarrow> None
      | Some e1 \<Rightarrow>
          if list_ex (\<lambda>(vid, old). vid \<noteq> neVolumeID e1 \<and> nePath old = nePath e1) ds then None else Some e1)"

text \<open>The part of \<open>Put\<close> that holds the lock, for an active export and for a preparation.\<close>

definition putLocked :: "'w nfs_os \<Rightarrow> nfs_config \<Rightarrow> nfs_export \<Rightarrow> bool \<Rightarrow> bool \<Rightarrow> 'w step" where
  "putLocked os cfg e exact active s =
     (if osCancelled os (sWorld s) then (False, s)
      else if active \<and> \<not> healthLocked os s then (False, s)
      else (case putPolicy (Desired s) e exact of
        None \<Rightarrow> (False, s)
      | Some e1 \<Rightarrow>
          if \<not> active then (True, s)
          else
            (let e2 = e1\<lparr>neActive := True\<rparr> in
             case persist os (updateRoot cfg (addLedger e2 (setDesired (neVolumeID e2) e2 s))) of
               (False, s1) \<Rightarrow> failClosed os s1
             | (True, s1) \<Rightarrow>
                 (case applyDesired os cfg s1 of
                    (done, s2) \<Rightarrow> (done \<and> neVolumeID e2 \<notin> set (sErrors s2), s2)))))"

definition Put :: "'w nfs_os \<Rightarrow> nfs_config \<Rightarrow> nfs_export \<Rightarrow> bool \<Rightarrow> bool \<Rightarrow> 'w step" where
  "Put os cfg e exact active s =
     (if osCancelled os (sWorld s) then (False, s)
      else (case normalized e of
        None \<Rightarrow> (False, s)
      | Some e1 \<Rightarrow>
          if \<not> validatePut os cfg e1 (sWorld s)
          then (False, if active then rejectExport os cfg e1 s else s)
          else if active then andThen (Start os cfg) (putLocked os cfg e1 exact True) s
          else putLocked os cfg e1 exact False s))"

definition commitClientChange :: "'w nfs_os \<Rightarrow> nfs_config \<Rightarrow> string \<Rightarrow> nfs_export \<Rightarrow> bool \<Rightarrow> 'w step" where
  "commitClientChange os cfg volumeID e allow s =
     (case persist os (updateRoot cfg (addLedger e (setDesired volumeID e s))) of
        (False, s1) \<Rightarrow> failClosed os s1
      | (True, s1) \<Rightarrow>
          if \<not> allow then applyOrStop os cfg s1
          else (case applyDesired os cfg s1 of (done, s2) \<Rightarrow> (done \<and> volumeID \<notin> set (sErrors s2), s2)))"

text \<open>The part of \<open>ChangeClient\<close> that holds the lock, after \<open>Start\<close> returned \<open>started\<close>.\<close>

definition changeClientLocked ::
    "'w nfs_os \<Rightarrow> nfs_config \<Rightarrow> string \<Rightarrow> string \<Rightarrow> bool \<Rightarrow> bool \<Rightarrow> 'w step" where
  "changeClientLocked os cfg volumeID client allow started s =
     (if \<not> started \<and> (allow \<or> \<not> sStarted s \<or> \<not> sLock s) then (False, s)
      else if osCancelled os (sWorld s) then (False, s)
      else if allow \<and> \<not> healthLocked os s then (False, s)
      else (case map_of (Desired s) volumeID of
        None \<Rightarrow> (\<not> allow, s)
      | Some e \<Rightarrow>
     (case changedClient e client allow of
        None \<Rightarrow> (False, s)
      | Some e1 \<Rightarrow>
          if \<not> neACLEnabled e1 then (True, s) else commitClientChange os cfg volumeID e1 allow s)))"

definition ChangeClient :: "'w nfs_os \<Rightarrow> nfs_config \<Rightarrow> string \<Rightarrow> string \<Rightarrow> bool \<Rightarrow> 'w step" where
  "ChangeClient os cfg volumeID client allow s =
     (if osCancelled os (sWorld s) then (False, s)
      else (case Start os cfg s of (started, s1) \<Rightarrow> changeClientLocked os cfg volumeID client allow started s1))"

definition removeDesired :: "string \<Rightarrow> 'w nfs_sys \<Rightarrow> 'w nfs_sys" where
  "removeDesired vid s = s\<lparr>sState := (sState s)\<lparr>dsDesired := AList.delete vid (Desired s)\<rparr>\<rparr>"

definition removeLocked :: "'w nfs_os \<Rightarrow> nfs_config \<Rightarrow> string \<Rightarrow> bool \<Rightarrow> 'w step" where
  "removeLocked os cfg volumeID started s =
     (if \<not> started \<and> (\<not> sStarted s \<or> \<not> sLock s) then (False, s)
      else if osCancelled os (sWorld s) then (False, s)
      else (case persist os (updateRoot cfg (removeDesired volumeID s)) of
        (False, s1) \<Rightarrow> failClosed os s1
      | (True, s1) \<Rightarrow> applyOrStop os cfg s1))"

definition Remove :: "'w nfs_os \<Rightarrow> nfs_config \<Rightarrow> string \<Rightarrow> 'w step" where
  "Remove os cfg volumeID s =
     (if osCancelled os (sWorld s) then (False, s)
      else (case Start os cfg s of (started, s1) \<Rightarrow> removeLocked os cfg volumeID started s1))"

definition Close :: "'w nfs_os \<Rightarrow> 'w step" where
  "Close os s =
     (if sClosed s then (\<not> sCloseErr s, s)
      else
        (case (if sStarted s then revokeOwned os (s\<lparr>sClosed := True\<rparr>) else (True, s\<lparr>sClosed := True\<rparr>)) of
           (a, s1) \<Rightarrow>
        (case osStep (osClose os) s1 of
           (b, s2) \<Rightarrow>
        (case (if sLock s2 then osStep (osReleaseLock os) s2 else (True, s2)) of
           (c, s3) \<Rightarrow> (a \<and> b \<and> c, s3\<lparr>sLock := False, sCloseErr := \<not> (a \<and> b \<and> c)\<rparr>)))))"

section \<open>Configuration and processes\<close>

definition NewManager :: "string \<Rightarrow> string \<Rightarrow> string \<Rightarrow> bool \<Rightarrow> nfs_config option" where
  "NewManager stateDir exportRoot bindAddress guarded =
     (if stateDir = [] \<or> \<not> isAbs stateDir then None
      else
        (let root = (if exportRoot = [] then pathJoin (pathDir stateDir) ''datasets'' else exportRoot) in
         if \<not> safeExportPath root then None
         else map_option (\<lambda>a. \<lparr>cfgBindAddress = addrString a, cfgExportRoot = root, cfgGuarded = guarded\<rparr>)
                (unicastAddress bindAddress)))"

text \<open>A process of the agent starts with an empty manager; file and world are what is left.\<close>

definition newProcess :: "owner_file \<Rightarrow> 'w \<Rightarrow> 'w nfs_sys" where
  "newProcess disk w =
     \<lparr>sState = \<lparr>dsSchema = 0, dsIdentity = [], dsBindAddress = [], dsExportRoot = [], dsTrackerPID = 0,
        dsTrackerStart = [], dsMountdPID = 0, dsMountdStart = [], dsDesired = [], dsLedger = []\<rparr>,
      sLock = False, sStarted = False, sClosed = False, sFailure = False, sErrors = [], sCloseErr = False,
      sDisk = disk, sWorld = w\<rparr>"

end
