(* ===== verification/Nfs_Ownership.thy ===== *)
theory Nfs_Ownership
  imports Nfs_Manager
begin

text \<open>
  What the manager keeps true while it changes the admission table: every row that is not foreign
  is owned by the ledger in memory and by the ledger in \<open>owner.json\<close>. The table itself is known
  through what \<open>exportfs\<close> documents, as the hypothesis \<open>etab_ok\<close>.
\<close>

section \<open>The admission table\<close>

text \<open>
  \<open>tab\<close> is the set of rows of the admission table. Reading the file gives these rows; exporting a
  stored policy to one of its clients adds or replaces the row of that path and client, whether or
  not the command reports a failure; unexporting only removes rows, and removes the one it names
  when it succeeds; a row has one \<open>fsid\<close>; and no other step touches the table.
\<close>

definition quiet :: "('w \<Rightarrow> entry set) \<Rightarrow> ('w \<Rightarrow> 'a \<times> 'w) \<Rightarrow> bool" where
  "quiet tab f \<longleftrightarrow> (\<forall>w. tab (snd (f w)) = tab w)"

definition quiet_os :: "'w nfs_os \<Rightarrow> ('w \<Rightarrow> entry set) \<Rightarrow> bool" where
  "quiet_os os tab \<longleftrightarrow> quiet tab (osPrivateEtab os) \<and> (\<forall>st owned. quiet tab (osPrerequisites os st owned)) \<and>
     (\<forall>owned. quiet tab (osPrepareKernel os owned)) \<and> quiet tab (osPreparePaths os) \<and>
     (\<forall>n. quiet tab (osVersions os n)) \<and> (\<forall>p. quiet tab (osListener os p)) \<and>
     (\<forall>n. quiet tab (osStartHelper os n)) \<and> quiet tab (osTrackerReady os) \<and>
     (\<forall>ps. quiet tab (osWaitChannels os ps)) \<and> (\<forall>n v. quiet tab (osWriteControl os n v)) \<and>
     quiet tab (osClose os) \<and> quiet tab (osPersist os) \<and> quiet tab (osMkdirState os) \<and>
     quiet tab (osAcquireLock os) \<and> quiet tab (osReleaseLock os) \<and> (\<forall>e. quiet tab (osBeforeActivate os e))"

definition etab_ok :: "'w nfs_os \<Rightarrow> ('w \<Rightarrow> entry set) \<Rightarrow> bool" where
  "etab_ok os tab \<longleftrightarrow> quiet_os os tab \<and>
     (\<forall>w rows. kernelList os w = Some rows \<longrightarrow> set rows = tab w) \<and>
     (\<forall>w r x. r \<in> tab w \<longrightarrow> ''fsid='' @ x \<in> set (splitOn (CHR '','') (enOptions r)) \<longrightarrow>
        x = optionValue (enOptions r) ''fsid'') \<and>
     (\<forall>w e c r. policyOk e \<longrightarrow> c \<in> set (exportClients e) \<longrightarrow>
        r \<in> tab (snd (osExportfs os (grantArgs (exportOptions e) c (nePath e)) w)) \<longrightarrow>
        r \<in> tab w \<or> enPath r = nePath e \<and> enClient r = c \<and> optionValue (enOptions r) ''fsid'' = exportFsid e) \<and>
     (\<forall>w c p r. r \<in> tab (snd (osExportfs os (revokeArgs c p) w)) \<longrightarrow>
        r \<in> tab w \<and> \<not> (fst (osExportfs os (revokeArgs c p) w) \<and> enPath r = p \<and> enClient r = c))"

lemma etab_quiet: "etab_ok os tab \<Longrightarrow> quiet_os os tab"
  by (simp add: etab_ok_def)

lemma etab_list: "etab_ok os tab \<Longrightarrow> kernelList os w = Some rows \<Longrightarrow> set rows = tab w"
  by (simp add: etab_ok_def)

lemma etab_fsid:
  "etab_ok os tab \<Longrightarrow> r \<in> tab w \<Longrightarrow> ''fsid='' @ x \<in> set (splitOn (CHR '','') (enOptions r)) \<Longrightarrow>
     optionValue (enOptions r) ''fsid'' = x"
  unfolding etab_ok_def by (elim conjE) simp

lemma etab_grant:
  "etab_ok os tab \<Longrightarrow> policyOk e \<Longrightarrow> c \<in> set (exportClients e) \<Longrightarrow>
     r \<in> tab (snd (osExportfs os (grantArgs (exportOptions e) c (nePath e)) w)) \<Longrightarrow>
     r \<in> tab w \<or> enPath r = nePath e \<and> enClient r = c \<and> optionValue (enOptions r) ''fsid'' = exportFsid e"
  unfolding etab_ok_def by (elim conjE) simp

lemma etab_revoke:
  "etab_ok os tab \<Longrightarrow> r \<in> tab (snd (osExportfs os (revokeArgs c p) w)) \<Longrightarrow>
     r \<in> tab w \<and> \<not> (fst (osExportfs os (revokeArgs c p) w) \<and> enPath r = p \<and> enClient r = c)"
  unfolding etab_ok_def by (elim conjE) simp

lemma etab_private: "etab_ok os tab \<Longrightarrow> quiet tab (osPrivateEtab os)"
  by (simp add: etab_ok_def quiet_os_def)

lemma runExportfs_cases:
  assumes "quiet tab (osPrivateEtab os)"
  obtains w1 where "tab w1 = tab w" "runExportfs os args w = (False, w1)"
  | w1 where "tab w1 = tab w" "runExportfs os args w = osExportfs os args w1"
proof -
  obtain a b where ab: "osPrivateEtab os w = (a, b)" by fastforce
  then have "tab b = tab w" using assms unfolding quiet_def by (metis snd_conv)
  then show thesis using ab that by (cases a) (auto simp: runExportfs_def)
qed

lemma grant_row:
  assumes "etab_ok os tab" "policyOk e" "c \<in> set (exportClients e)" "r \<in> tab (snd (kernelGrant os e c w))"
  shows "r \<in> tab w \<or> enPath r = nePath e \<and> enClient r = c \<and> optionValue (enOptions r) ''fsid'' = exportFsid e"
proof (cases "kernelValidate os e w = Valid")
  case True
  let ?args = "grantArgs (exportOptions e) c (nePath e)"
  have g: "kernelGrant os e c w = runExportfs os ?args w" using True by (simp add: kernelGrant_def)
  show ?thesis
  proof (cases rule: runExportfs_cases [OF etab_private [OF assms(1)], of w ?args])
    case (2 w1)
    then show ?thesis using etab_grant [OF assms(1-3), of r w1] assms(4) g by simp
  qed (use assms(4) g in simp)
qed (use assms(4) in \<open>simp add: kernelGrant_def\<close>)

lemma revoke_rows:
  assumes "etab_ok os tab" "r \<in> tab (snd (kernelRevoke os p c w))"
  shows "r \<in> tab w \<and> \<not> (fst (kernelRevoke os p c w) \<and> enPath r = p \<and> enClient r = c)"
proof (cases rule: runExportfs_cases [OF etab_private [OF assms(1)], of w "revokeArgs c p"])
  case (2 w1)
  then show ?thesis using etab_revoke [OF assms(1), of r c p w1] assms(2) by (simp add: kernelRevoke_def)
qed (use assms(2) in \<open>simp add: kernelRevoke_def\<close>)

section \<open>Invariant\<close>

definition covers :: "entry set \<Rightarrow> nfs_export list \<Rightarrow> entry set \<Rightarrow> bool" where
  "covers F ledger rows \<longleftrightarrow> (\<forall>r\<in>rows. r \<in> F \<or> ownsIn ledger r)"

definition cfgOk :: "nfs_config \<Rightarrow> bool" where
  "cfgOk cfg \<longleftrightarrow> isAbs (cfgExportRoot cfg) \<and> canonicalAddress (cfgBindAddress cfg)"

definition exportOk :: "nfs_config \<Rightarrow> string \<Rightarrow> nfs_export \<Rightarrow> bool" where
  "exportOk cfg vid e \<longleftrightarrow> policyOk e \<and> neVolumeID e = vid \<and>
     (if vid = rootVolumeID then nePath e = cfgExportRoot cfg
      else isAbs (nePath e) \<and> ExportPath (cfgExportRoot cfg) (nePath e) \<noteq> None)"

text \<open>Distinct keys and distinct paths, every policy in stored form.\<close>

definition desiredOk :: "nfs_config \<Rightarrow> (string \<times> nfs_export) list \<Rightarrow> bool" where
  "desiredOk cfg ds \<longleftrightarrow> distinct (map fst ds) \<and> (\<forall>(i, e)\<in>set ds. exportOk cfg i e) \<and>
     (\<forall>(i, e)\<in>set ds. \<forall>(j, e')\<in>set ds. nePath e = nePath e' \<longrightarrow> i = j)"

definition stateOk :: "nfs_config \<Rightarrow> disk_state \<Rightarrow> bool" where
  "stateOk cfg d \<longleftrightarrow> desiredOk cfg (dsDesired d) \<and> (\<forall>e\<in>set (dsLedger d). policyOk e)"

definition memOk :: "entry set \<Rightarrow> nfs_config \<Rightarrow> ('w \<Rightarrow> entry set) \<Rightarrow> 'w nfs_sys \<Rightarrow> bool" where
  "memOk F cfg tab s \<longleftrightarrow> stateOk cfg (sState s) \<and> covers F (Ledger s) (tab (sWorld s))"

definition diskOk :: "entry set \<Rightarrow> nfs_config \<Rightarrow> ('w \<Rightarrow> entry set) \<Rightarrow> 'w nfs_sys \<Rightarrow> bool" where
  "diskOk F cfg tab s \<longleftrightarrow>
     (case sDisk s of
        Owner d \<Rightarrow> stateOk cfg d \<and> covers F (dsLedger d) (tab (sWorld s))
      | _ \<Rightarrow> tab (sWorld s) \<subseteq> F)"

definition bothOk :: "entry set \<Rightarrow> nfs_config \<Rightarrow> ('w \<Rightarrow> entry set) \<Rightarrow> 'w nfs_sys \<Rightarrow> bool" where
  "bothOk F cfg tab s \<longleftrightarrow> memOk F cfg tab s \<and> diskOk F cfg tab s"

text \<open>Before a process has loaded the file, only the file counts.\<close>

definition sysOk :: "entry set \<Rightarrow> nfs_config \<Rightarrow> ('w \<Rightarrow> entry set) \<Rightarrow> 'w nfs_sys \<Rightarrow> bool" where
  "sysOk F cfg tab s \<longleftrightarrow> diskOk F cfg tab s \<and> (sStarted s \<longrightarrow> memOk F cfg tab s)"

lemma covers_mono:
  "covers F l rows \<Longrightarrow> rows' \<subseteq> rows \<Longrightarrow> set l \<subseteq> set l' \<Longrightarrow> covers F l' rows'"
  by (fastforce simp: covers_def ownsIn_def list_ex_iff)

lemma diskOk_cong:
  "diskOk F cfg tab s \<Longrightarrow> sDisk s' = sDisk s \<Longrightarrow> tab (sWorld s') \<subseteq> tab (sWorld s) \<Longrightarrow> diskOk F cfg tab s'"
  by (auto simp: diskOk_def split: owner_file.splits intro: covers_mono)

lemma memOk_cong:
  "memOk F cfg tab s \<Longrightarrow> stateOk cfg (sState s') \<Longrightarrow> set (Ledger s) \<subseteq> set (Ledger s') \<Longrightarrow>
     tab (sWorld s') \<subseteq> tab (sWorld s) \<Longrightarrow> memOk F cfg tab s'"
  by (auto simp: memOk_def intro: covers_mono)

lemma bothOk_cong:
  "bothOk F cfg tab s \<Longrightarrow> stateOk cfg (sState s') \<Longrightarrow> set (Ledger s) \<subseteq> set (Ledger s') \<Longrightarrow>
     sDisk s' = sDisk s \<Longrightarrow> tab (sWorld s') \<subseteq> tab (sWorld s) \<Longrightarrow> bothOk F cfg tab s'"
  by (auto simp: bothOk_def intro: memOk_cong diskOk_cong)

lemma bothOk_state: "bothOk F cfg tab s \<Longrightarrow> stateOk cfg (sState s)"
  by (simp add: bothOk_def memOk_def)

lemma sys_defs [simp]:
  "Desired (s\<lparr>sWorld := w\<rparr>) = Desired s" "Ledger (s\<lparr>sWorld := w\<rparr>) = Ledger s"
  "Desired (s\<lparr>sErrors := es\<rparr>) = Desired s" "Ledger (s\<lparr>sErrors := es\<rparr>) = Ledger s"
  "Desired (s\<lparr>sDisk := d\<rparr>) = Desired s" "Ledger (s\<lparr>sDisk := d\<rparr>) = Ledger s"
  "Desired (s\<lparr>sFailure := b\<rparr>) = Desired s" "Ledger (s\<lparr>sFailure := b\<rparr>) = Ledger s"
  "Desired (setLedger l s) = Desired s" "Ledger (setLedger l s) = l"
  "Desired (addLedger e s) = Desired s" "Ledger (addLedger e s) = Ledger s @ [e]"
  "Desired (setDesired i e s) = AList.update i e (Desired s)" "Ledger (setDesired i e s) = Ledger s"
  by (simp_all add: Desired_def Ledger_def setLedger_def addLedger_def setDesired_def)

lemma sys_frame [simp]:
  "sDisk (setLedger l s) = sDisk s" "sDisk (addLedger e s) = sDisk s" "sDisk (setDesired i e s) = sDisk s"
  "sWorld (setLedger l s) = sWorld s" "sWorld (addLedger e s) = sWorld s" "sWorld (setDesired i e s) = sWorld s"
  "sErrors (setLedger l s) = sErrors s" "sErrors (addLedger e s) = sErrors s" "sErrors (setDesired i e s) = sErrors s"
  "sStarted (setLedger l s) = sStarted s" "sStarted (addLedger e s) = sStarted s"
  "sStarted (setDesired i e s) = sStarted s"
  by (simp_all add: setLedger_def addLedger_def setDesired_def)

lemma stateOk_sys: "stateOk cfg (sState s) \<longleftrightarrow> desiredOk cfg (Desired s) \<and> (\<forall>e\<in>set (Ledger s). policyOk e)"
  by (simp add: stateOk_def Desired_def Ledger_def)

section \<open>Steps that keep the invariant\<close>

definition keeps :: "entry set \<Rightarrow> nfs_config \<Rightarrow> ('w \<Rightarrow> entry set) \<Rightarrow> 'w step \<Rightarrow> bool" where
  "keeps F cfg tab f \<longleftrightarrow> (\<forall>s. bothOk F cfg tab s \<longrightarrow> bothOk F cfg tab (snd (f s)))"

lemma keepsD: "keeps F cfg tab f \<Longrightarrow> bothOk F cfg tab s \<Longrightarrow> bothOk F cfg tab (snd (f s))"
  by (simp add: keeps_def)

lemma keeps_andThen: "keeps F cfg tab f \<Longrightarrow> keeps F cfg tab g \<Longrightarrow> keeps F cfg tab (andThen f g)"
  unfolding keeps_def andThen_def by (auto simp: split_def)

lemma keeps_inOrder: "list_all (keeps F cfg tab) fs \<Longrightarrow> keeps F cfg tab (inOrder fs)"
proof (induction fs)
  case Nil
  then show ?case by (simp add: keeps_def)
next
  case (Cons f fs)
  then have "keeps F cfg tab (andThen f (inOrder fs))" by (simp add: keeps_andThen)
  then show ?case by (simp add: keeps_def)
qed

lemma keeps_require: "keeps F cfg tab (require p)"
  by (simp add: keeps_def require_def)

lemma snd_osStep [simp]: "snd (osStep f s) = s\<lparr>sWorld := snd (f (sWorld s))\<rparr>" "fst (osStep f s) = fst (f (sWorld s))"
  by (simp_all add: osStep_def split_def)

lemma osStepD: "osStep f s = (b, s1) \<Longrightarrow> s1 = s\<lparr>sWorld := snd (f (sWorld s))\<rparr> \<and> b = fst (f (sWorld s))"
  by (auto simp: osStep_def split_def)

lemma keeps_osStep: "(\<And>w. tab (snd (f w)) \<subseteq> tab w) \<Longrightarrow> keeps F cfg tab (osStep f)"
  unfolding keeps_def by (intro allI impI, rule bothOk_cong, assumption) (simp_all add: bothOk_state)

lemma keeps_quiet: "quiet tab f \<Longrightarrow> keeps F cfg tab (osStep f)"
  by (rule keeps_osStep) (simp add: quiet_def)

lemma revoke_subset: "etab_ok os tab \<Longrightarrow> tab (snd (kernelRevoke os p c w)) \<subseteq> tab w"
  by (rule subsetI) (simp add: revoke_rows)

lemma keeps_revoke: "etab_ok os tab \<Longrightarrow> keeps F cfg tab (osStep (kernelRevoke os p c))"
  by (rule keeps_osStep) (rule revoke_subset)

lemma persist_cases:
  assumes "quiet tab (osPersist os)"
  obtains w where "tab w = tab (sWorld s)" "persist os s = (False, s\<lparr>sWorld := w\<rparr>)"
  | w d where "tab w = tab (sWorld s)" "persist os s = (d, s\<lparr>sDisk := Owner (sState s), sWorld := w\<rparr>)"
proof -
  obtain a b where ab: "osPersist os (sWorld s) = (a, b)" by fastforce
  then have "tab b = tab (sWorld s)" using assms unfolding quiet_def by (metis snd_conv)
  then show thesis using ab that by (cases a) (auto simp: persist_def)
qed

lemma persist_done:
  assumes "quiet tab (osPersist os)" "persist os s = (True, s')"
  obtains w where "tab w = tab (sWorld s)" "s' = s\<lparr>sDisk := Owner (sState s), sWorld := w\<rparr>"
  using assms by (cases rule: persist_cases [OF assms(1), of s]) auto

lemma keeps_persist:
  assumes "quiet tab (osPersist os)"
  shows "keeps F cfg tab (persist os)"
  unfolding keeps_def
proof safe
  fix s assume ok: "bothOk F cfg tab s"
  show "bothOk F cfg tab (snd (persist os s))"
    using ok by (cases rule: persist_cases [OF assms, of s])
      (auto simp: bothOk_def memOk_def diskOk_def Ledger_def split: owner_file.splits)
qed

lemma keeps_change:
  "(\<And>s. bothOk F cfg tab s \<Longrightarrow> bothOk F cfg tab (f s)) \<Longrightarrow> keeps F cfg tab (change f)"
  by (simp add: keeps_def change_def)

lemma addLedger_ok: "bothOk F cfg tab s \<Longrightarrow> policyOk e \<Longrightarrow> bothOk F cfg tab (addLedger e s)"
  by (rule bothOk_cong, assumption) (auto dest!: bothOk_state simp: stateOk_sys)

subsection \<open>Desired policies\<close>

lemma desiredOk_member: "desiredOk cfg ds \<Longrightarrow> (i, e) \<in> set ds \<Longrightarrow> exportOk cfg i e"
  by (auto simp: desiredOk_def)

lemma desiredOk_policy: "desiredOk cfg ds \<Longrightarrow> (i, e) \<in> set ds \<Longrightarrow> policyOk e"
  by (auto simp: exportOk_def dest: desiredOk_member)

lemma desiredOk_path:
  "desiredOk cfg ds \<Longrightarrow> (i, e) \<in> set ds \<Longrightarrow> (j, e') \<in> set ds \<Longrightarrow> nePath e = nePath e' \<Longrightarrow> i = j \<and> e = e'"
  unfolding desiredOk_def by (metis (mono_tags, lifting) case_prodD eq_key_imp_eq_value)

lemma set_update:
  "distinct (map fst ds) \<Longrightarrow> set (AList.update k v ds) = insert (k, v) {x \<in> set ds. fst x \<noteq> k}"
proof (induction ds)
  case (Cons d ds)
  then show ?case by (cases d) (auto simp: rev_image_eqI)
qed simp

lemma desiredOk_update:
  assumes "desiredOk cfg ds" "exportOk cfg i e" "\<And>j e'. (j, e') \<in> set ds \<Longrightarrow> j \<noteq> i \<Longrightarrow> nePath e' \<noteq> nePath e"
  shows "desiredOk cfg (AList.update i e ds)"
proof -
  have d: "distinct (map fst ds)" using assms(1) by (simp add: desiredOk_def)
  have "nePath e \<noteq> nePath e'" if "(j, e') \<in> set ds" "j \<noteq> i" for j e'
    using assms(3) [OF that] by simp
  then show ?thesis unfolding desiredOk_def set_update [OF d]
    using assms distinct_update [OF d, of i e] by (auto simp: desiredOk_def)
qed

lemma ExportPath_root: "isAbs r \<Longrightarrow> ExportPath r r = None"
proof -
  assume "isAbs r"
  then obtain rel where "pathRel r r = Some rel" "rel = ''.''" using pathRel_abs [of r r] by auto
  then show ?thesis by (simp add: ExportPath_def)
qed

subsection \<open>The pseudoroot\<close>

lemma rootLoop_fields:
  "neVolumeID (rootLoop errs ds r) = neVolumeID r" "nePath (rootLoop errs ds r) = nePath r"
  "neBindAddress (rootLoop errs ds r) = neBindAddress r" "neVersion (rootLoop errs ds r) = neVersion r"
  "neSquash (rootLoop errs ds r) = neSquash r"
  by (induction errs ds r rule: rootLoop.induct) auto

lemma rootLoop_clients:
  "\<forall>c\<in>set (neClients r). canonicalAddress c \<Longrightarrow> \<forall>(i, e)\<in>set ds. policyOk e \<Longrightarrow>
     \<forall>c\<in>set (neClients (rootLoop errs ds r)). canonicalAddress c"
proof (induction errs ds r rule: rootLoop.induct)
  case (2 errs i e ds r)
  have "\<forall>c\<in>set (neClients r @ neClients e). canonicalAddress c" using 2 by (auto simp: policyOk_def)
  then show ?case using 2 by simp
qed simp

lemma rootLoop_acl:
  "neACLEnabled r \<Longrightarrow> neACLEnabled (rootLoop errs ds r) \<or> neClients (rootLoop errs ds r) = []"
  by (induction errs ds r rule: rootLoop.induct) auto

lemma rootExport_ok:
  assumes "cfgOk cfg" "desiredOk cfg ds"
  shows "exportOk cfg rootVolumeID (rootExport cfg errs ds)"
proof -
  let ?r = "rootLoop errs ds (emptyRoot cfg)"
  have "\<forall>c\<in>set (neClients ?r). canonicalAddress c"
    using assms(2) by (intro rootLoop_clients) (auto simp: emptyRoot_def desiredOk_def exportOk_def)
  moreover have "neACLEnabled ?r \<or> neClients ?r = []"
    by (rule rootLoop_acl) (simp add: emptyRoot_def)
  ultimately show ?thesis
    using assms(1) distinct_sorted_compact
    by (auto simp: rootExport_def Let_def exportOk_def policyOk_def rootLoop_fields emptyRoot_def cfgOk_def
        squashes_def)
qed

lemma root_other_path:
  assumes "cfgOk cfg" "desiredOk cfg ds" "(j, e') \<in> set ds" "j \<noteq> rootVolumeID"
  shows "nePath e' \<noteq> cfgExportRoot cfg"
  using desiredOk_member [OF assms(2,3)] assms(1,4) ExportPath_root by (auto simp: exportOk_def cfgOk_def)

lemma updateRoot_desired: "Desired (updateRoot cfg s) = AList.update rootVolumeID (rootExport cfg (sErrors s) (Desired s)) (Desired s)"
  by (simp add: updateRoot_def Let_def)

lemma updateRoot_frame [simp]:
  "sDisk (updateRoot cfg s) = sDisk s" "sWorld (updateRoot cfg s) = sWorld s" "sErrors (updateRoot cfg s) = sErrors s"
  "sStarted (updateRoot cfg s) = sStarted s"
  by (simp_all add: updateRoot_def Let_def)

lemma updateRoot_state:
  assumes "cfgOk cfg" "stateOk cfg (sState s)"
  shows "stateOk cfg (sState (updateRoot cfg s))"
proof -
  have ok: "desiredOk cfg (Desired s)" using assms(2) by (simp add: stateOk_sys)
  note r = rootExport_ok [OF assms(1) ok, of "sErrors s"]
  have "desiredOk cfg (Desired (updateRoot cfg s))"
    unfolding updateRoot_desired using ok r
    by (rule desiredOk_update) (use root_other_path [OF assms(1) ok] r in \<open>auto simp: exportOk_def\<close>)
  moreover have "\<forall>e\<in>set (Ledger (updateRoot cfg s)). policyOk e"
    using assms(2) r by (auto simp: updateRoot_def Let_def stateOk_sys exportOk_def)
  ultimately show ?thesis by (simp add: stateOk_sys)
qed

lemma updateRoot_ok: "cfgOk cfg \<Longrightarrow> bothOk F cfg tab s \<Longrightarrow> bothOk F cfg tab (updateRoot cfg s)"
  by (rule bothOk_cong, assumption)
     (auto dest!: bothOk_state simp: updateRoot_state, simp add: updateRoot_def Let_def)

end
