(* ===== verification/Nfs_Converge.thy ===== *)
theory Nfs_Converge
  imports Nfs_Ownership
begin

text \<open>
  A convergence pass of the NFS manager: the rows it wants are those of the admitted policies,
  it grants no row the ledger does not own already, and when it succeeds the table holds the
  wanted rows and, beside them, only foreign ones.
\<close>

section \<open>Wanted rows\<close>

definition admits :: "'w nfs_sys \<Rightarrow> string \<Rightarrow> nfs_export \<Rightarrow> bool" where
  "admits s i e \<longleftrightarrow> (i, e) \<in> set (Desired s) \<and> neActive e \<and> (i = rootVolumeID \<or> i \<notin> set (sErrors s))"

lemma wantRows_lookup:
  "map_of (wantRows e wanted) (p, c) =
     (if p = nePath e \<and> c \<in> set (exportClients e) then Some (exportEntry e c) else map_of wanted (p, c))"
proof -
  have "map_of (fold (\<lambda>c. AList.update (nePath e, c) (exportEntry e c)) cs wanted) (p, c) =
      (if p = nePath e \<and> c \<in> set cs then Some (exportEntry e c) else map_of wanted (p, c))" for cs
    by (induction cs arbitrary: wanted) (auto simp: update_conv')
  then show ?thesis by (simp add: wantRows_def)
qed

lemma etab_guard: "etab_ok os tab \<Longrightarrow> quiet tab (osBeforeActivate os e)"
  by (simp add: etab_ok_def quiet_os_def)

lemma addError_frame [simp]:
  "Desired (addError i s) = Desired s" "Ledger (addError i s) = Ledger s" "sDisk (addError i s) = sDisk s"
  "sWorld (addError i s) = sWorld s" "sErrors (addError i s) = i # sErrors s" "sStarted (addError i s) = sStarted s"
  "sState (addError i s) = sState s"
  by (simp_all add: addError_def)

lemma validateActivation_cases:
  assumes "etab_ok os tab"
  obtains "validateActivation os cfg e s = (Fatal, s)"
  | w where "tab w = tab (sWorld s)"
      "validateActivation os cfg e s = (Unavailable, addError (neVolumeID e) (s\<lparr>sWorld := w\<rparr>))"
  | w where "tab w = tab (sWorld s)" "validateActivation os cfg e s = (Usable, s\<lparr>sWorld := w\<rparr>)"
proof -
  have s: "s\<lparr>sWorld := sWorld s\<rparr> = s" by simp
  obtain a w where b: "beforeActivate os cfg e s = (a, s\<lparr>sWorld := w\<rparr>)" "tab w = tab (sWorld s)"
  proof (cases "beforeActivate os cfg e s = osStep (osBeforeActivate os e) s")
    case True
    then show ?thesis using etab_guard [OF assms, of e] that
      by (cases "osBeforeActivate os e (sWorld s)") (auto simp: osStep_def quiet_def dest!: spec [of _ "sWorld s"])
  next
    case False
    then show ?thesis using that [of _ "sWorld s"] unfolding beforeActivate_def s by (auto split: if_splits)
  qed
  show thesis
  proof (cases "kernelValidate os e (sWorld s)")
    case Valid
    then show ?thesis using b that(2) [of w] that(3) [of w] by (cases a) (simp_all add: validateActivation_def)
  next
    case Invalid
    then show ?thesis using that(2) [of "sWorld s"] by (simp add: validateActivation_def)
  next
    case RuntimeFailure
    then show ?thesis using that(1) by (simp add: validateActivation_def)
  qed
qed

text \<open>What computing the wanted rows leaves alone.\<close>

definition undisturbed :: "('w \<Rightarrow> entry set) \<Rightarrow> 'w nfs_sys \<Rightarrow> 'w nfs_sys \<Rightarrow> bool" where
  "undisturbed tab s s1 \<longleftrightarrow> sDisk s1 = sDisk s \<and> sStarted s1 = sStarted s \<and> tab (sWorld s1) = tab (sWorld s) \<and>
     set (Ledger s) \<subseteq> set (Ledger s1)"

lemma desiredLoop_frame:
  assumes "etab_ok os tab" "desiredLoop os cfg ds wanted s = (r, s1)"
  shows "undisturbed tab s s1 \<and> Desired s1 = Desired s \<and> set (Ledger s1) \<subseteq> set (Ledger s) \<union> snd ` set ds"
  using assms(2)
proof (induction ds arbitrary: wanted s)
  case Nil
  then show ?case by (simp add: undisturbed_def)
next
  case (Cons d ds)
  obtain i e where d: "d = (i, e)" by fastforce
  show ?case
  proof (cases "i = rootVolumeID \<or> \<not> neActive e")
    case True
    then show ?thesis using Cons.IH [of wanted s] Cons.prems by (auto simp: d)
  next
    case False
    then show ?thesis
    proof (cases rule: validateActivation_cases [OF assms(1), of cfg e s])
      case 1
      then show ?thesis using False Cons.prems by (auto simp: d undisturbed_def)
    next
      case (2 w)
      then show ?thesis
        using False Cons.prems Cons.IH [of wanted "addError (neVolumeID e) (s\<lparr>sWorld := w\<rparr>)"]
        by (auto simp: d undisturbed_def)
    next
      case (3 w)
      then show ?thesis
        using False Cons.prems Cons.IH [of "wantRows e wanted" "addLedger e (s\<lparr>sWorld := w\<rparr>)"]
        by (auto simp: d undisturbed_def)
    qed
  qed
qed

lemma desiredOk_Cons:
  "desiredOk cfg ((i, e) # ds) \<Longrightarrow> desiredOk cfg ds \<and> i \<notin> fst ` set ds \<and> neVolumeID e = i \<and>
     (\<forall>(j, e')\<in>set ds. nePath e' \<noteq> nePath e)"
  by (force simp: desiredOk_def exportOk_def)

definition contributes :: "string list \<Rightarrow> (string \<times> nfs_export) list \<Rightarrow> string \<Rightarrow> string \<Rightarrow> entry \<Rightarrow> bool" where
  "contributes errs ds p c en \<longleftrightarrow>
     (\<exists>i e. (i, e) \<in> set ds \<and> i \<noteq> rootVolumeID \<and> neActive e \<and> i \<notin> set errs \<and> p = nePath e \<and>
        c \<in> set (exportClients e) \<and> en = exportEntry e c)"

lemma contributes_Cons:
  "contributes errs ((i, e) # ds) p c en \<longleftrightarrow>
     i \<noteq> rootVolumeID \<and> neActive e \<and> i \<notin> set errs \<and> p = nePath e \<and> c \<in> set (exportClients e) \<and> en = exportEntry e c \<or>
     contributes errs ds p c en"
  by (auto simp: contributes_def)

lemma contributes_path: "contributes errs ds p c en \<Longrightarrow> \<exists>(j, e')\<in>set ds. p = nePath e'"
  by (auto simp: contributes_def)

lemma desiredLoop_errors:
  assumes "etab_ok os tab" "desiredLoop os cfg ds wanted s = (r, s1)" "desiredOk cfg ds"
  shows "set (sErrors s) \<subseteq> set (sErrors s1) \<and> set (sErrors s1) \<subseteq> set (sErrors s) \<union> fst ` set ds"
  using assms(2,3)
proof (induction ds arbitrary: wanted s)
  case (Cons d ds)
  obtain i e where d: "d = (i, e)" by fastforce
  note ok = desiredOk_Cons [OF Cons.prems(2) [unfolded d]]
  show ?case
  proof (cases "i = rootVolumeID \<or> \<not> neActive e")
    case True
    then show ?thesis using Cons.IH [of wanted s] Cons.prems ok by (auto simp: d)
  next
    case False
    show ?thesis
    proof (cases rule: validateActivation_cases [OF assms(1), of cfg e s])
      case (2 w)
      then show ?thesis
        using False Cons.prems Cons.IH [of wanted "addError (neVolumeID e) (s\<lparr>sWorld := w\<rparr>)"] ok
        by (auto simp: d)
    next
      case (3 w)
      then show ?thesis
        using False Cons.prems Cons.IH [of "wantRows e wanted" "addLedger e (s\<lparr>sWorld := w\<rparr>)"] ok
        by (auto simp: d)
    qed (use False Cons.prems in \<open>auto simp: d\<close>)
  qed
qed simp

lemma desiredLoop_wanted:
  assumes "etab_ok os tab" "desiredLoop os cfg ds wanted s = (Some wanted', s1)" "desiredOk cfg ds"
    "set (sErrors s) \<inter> fst ` set ds = {}" "\<And>j e' c. (j, e') \<in> set ds \<Longrightarrow> map_of wanted (nePath e', c) = None"
  shows "(\<forall>p c en. map_of wanted' (p, c) = Some en \<longleftrightarrow>
            map_of wanted (p, c) = Some en \<or> contributes (sErrors s1) ds p c en) \<and>
         (\<forall>(i, e)\<in>set ds. i \<noteq> rootVolumeID \<longrightarrow> neActive e \<longrightarrow> i \<notin> set (sErrors s1) \<longrightarrow> e \<in> set (Ledger s1))"
  using assms(2-5)
proof (induction ds arbitrary: wanted s)
  case Nil
  then show ?case by (simp add: contributes_def)
next
  case (Cons d ds)
  obtain i e where d: "d = (i, e)" by fastforce
  note ok = desiredOk_Cons [OF Cons.prems(2) [unfolded d]]
  have free: "map_of wanted (nePath e', c) = None" if "(j, e') \<in> set ds" for j e' c
    using Cons.prems(4) that by (auto simp: d)
  show ?case
  proof (cases "i = rootVolumeID \<or> \<not> neActive e")
    case True
    then show ?thesis using Cons.IH [of wanted s] Cons.prems(1,3) ok free by (auto simp: d contributes_Cons)
  next
    case False
    show ?thesis
    proof (cases rule: validateActivation_cases [OF assms(1), of cfg e s])
      case (2 w)
      let ?s = "addError (neVolumeID e) (s\<lparr>sWorld := w\<rparr>)"
      have l: "desiredLoop os cfg ds wanted ?s = (Some wanted', s1)" using 2 False Cons.prems(1) by (simp add: d)
      have "i \<in> set (sErrors s1)" using desiredLoop_errors [OF assms(1) l] ok by auto
      moreover have "set (sErrors ?s) \<inter> fst ` set ds = {}" using ok Cons.prems(3) by (auto simp: d)
      ultimately show ?thesis using Cons.IH [OF l] ok free by (auto simp: d contributes_Cons)
    next
      case (3 w)
      let ?s = "addLedger e (s\<lparr>sWorld := w\<rparr>)"
      have l: "desiredLoop os cfg ds (wantRows e wanted) ?s = (Some wanted', s1)" using 3 False Cons.prems(1) by (simp add: d)
      have "i \<notin> set (sErrors s1)" using desiredLoop_errors [OF assms(1) l] ok Cons.prems(3) by (auto simp: d)
      moreover have "e \<in> set (Ledger s1)" using desiredLoop_frame [OF assms(1) l] by (auto simp: undisturbed_def)
      moreover have "set (sErrors ?s) \<inter> fst ` set ds = {}" using Cons.prems(3) by (auto simp: d)
      moreover have "map_of (wantRows e wanted) (nePath e', c) = None" if "(j, e') \<in> set ds" for j e' c
        using ok free that by (auto simp: wantRows_lookup)
      moreover have "map_of wanted (nePath e, c) = None" for c using Cons.prems(4) by (auto simp: d)
      ultimately show ?thesis using Cons.IH [OF l] ok False by (auto simp: d contributes_Cons wantRows_lookup split: if_splits)
    qed (use False Cons.prems in \<open>auto simp: d\<close>)
  qed
qed

lemma undisturbed_trans: "undisturbed tab s s1 \<Longrightarrow> undisturbed tab s1 s2 \<Longrightarrow> undisturbed tab s s2"
  by (auto simp: undisturbed_def)

lemma undisturbed_updateRoot: "undisturbed tab s (updateRoot cfg s)"
  by (auto simp: undisturbed_def updateRoot_def Let_def)

lemma undisturbed_errors: "undisturbed tab (s\<lparr>sErrors := es\<rparr>) s1 \<Longrightarrow> undisturbed tab s s1"
  by (simp add: undisturbed_def)

lemma undisturbed_ok:
  "bothOk F cfg tab s \<Longrightarrow> undisturbed tab s s1 \<Longrightarrow> stateOk cfg (sState s1) \<Longrightarrow> bothOk F cfg tab s1"
  by (rule bothOk_cong, assumption) (simp_all add: undisturbed_def)

lemma desiredEntries_cases:
  assumes "etab_ok os tab" "cfgOk cfg" "stateOk cfg (sState s)" "desiredEntries os cfg s = (r, s1)"
  obtains "r = None" "undisturbed tab s s1" "stateOk cfg (sState s1)"
  | wanted s2 where "desiredLoop os cfg (Desired s) [] (s\<lparr>sErrors := []\<rparr>) = (Some wanted, s2)" "s1 = updateRoot cfg s2"
      "undisturbed tab s s1" "stateOk cfg (sState s1)" "r = fst (rootEntries os cfg wanted s2)"
proof -
  obtain l s2 where l: "desiredLoop os cfg (Desired s) [] (s\<lparr>sErrors := []\<rparr>) = (l, s2)" by fastforce
  note f = desiredLoop_frame [OF assms(1) l]
  have "\<forall>e\<in>snd ` set (Desired s). policyOk e"
    using assms(3) by (auto simp: stateOk_sys dest: desiredOk_member simp: exportOk_def)
  then have st: "stateOk cfg (sState s2)" using assms(3) f by (auto simp: stateOk_sys)
  have u: "undisturbed tab s s2" using f undisturbed_errors by auto
  have root: "undisturbed tab s (updateRoot cfg s2)" "stateOk cfg (sState (updateRoot cfg s2))"
    using undisturbed_trans [OF u undisturbed_updateRoot] updateRoot_state [OF assms(2) st] by simp_all
  show thesis
  proof (cases l)
    case None
    then show ?thesis using that(1) assms(4) l u st by (simp add: desiredEntries_def)
  next
    case (Some wanted)
    then have "desiredEntries os cfg s = rootEntries os cfg wanted s2" using l by (simp add: desiredEntries_def)
    then have "s1 = updateRoot cfg s2" "r = fst (rootEntries os cfg wanted s2)"
      using assms(4) by (auto simp: rootEntries_def Let_def split: if_splits)
    then show ?thesis using that(2) l Some root by simp
  qed
qed

lemma admits_updateRoot:
  assumes "cfgOk cfg" "desiredOk cfg (Desired s)"
  shows "admits (updateRoot cfg s) i e \<longleftrightarrow>
    (if i = rootVolumeID then e = rootExport cfg (sErrors s) (Desired s) \<and> neActive e
     else (i, e) \<in> set (Desired s) \<and> neActive e \<and> i \<notin> set (sErrors s))"
proof -
  have "distinct (map fst (Desired s))" using assms(2) by (simp add: desiredOk_def)
  then show ?thesis by (auto simp: admits_def updateRoot_desired set_update)
qed

lemma desiredEntries_wanted:
  assumes "etab_ok os tab" "cfgOk cfg" "stateOk cfg (sState s)" "desiredEntries os cfg s = (Some wanted, s1)"
  shows "map_of wanted (p, c) = Some en \<longleftrightarrow>
      (\<exists>i e. admits s1 i e \<and> p = nePath e \<and> c \<in> set (exportClients e) \<and> en = exportEntry e c)"
    and "admits s1 i e \<Longrightarrow> e \<in> set (Ledger s1)"
proof -
  obtain wanted2 s2 where d: "desiredLoop os cfg (Desired s) [] (s\<lparr>sErrors := []\<rparr>) = (Some wanted2, s2)"
      "s1 = updateRoot cfg s2" "Some wanted = fst (rootEntries os cfg wanted2 s2)"
    using desiredEntries_cases [OF assms(1-4)] by (metis option.distinct(1))
  have ok: "desiredOk cfg (Desired s)" using assms(3) by (simp add: stateOk_sys)
  note f = desiredLoop_frame [OF assms(1) d(1)]
  have D: "Desired s2 = Desired s" using f by simp
  let ?R = "rootExport cfg (sErrors s2) (Desired s)"
  have R: "exportOk cfg rootVolumeID ?R" by (rule rootExport_ok [OF assms(2) ok])
  note w = desiredLoop_wanted [OF assms(1) d(1) ok, simplified]
  note a = admits_updateRoot [OF assms(2), of s2, unfolded D, OF ok]
  have other: "nePath ?R \<noteq> nePath e" if "(i, e) \<in> set (Desired s)" "i \<noteq> rootVolumeID" for i e
    using root_other_path [OF assms(2) ok that] R by (simp add: exportOk_def)
  show "map_of wanted (p, c) = Some en \<longleftrightarrow>
      (\<exists>i e. admits s1 i e \<and> p = nePath e \<and> c \<in> set (exportClients e) \<and> en = exportEntry e c)"
  proof (cases "neActive ?R")
    case True
    then have "wanted = wantRows ?R wanted2" using d(3) by (auto simp: rootEntries_def Let_def D split: if_splits)
    then show ?thesis using w other True unfolding d(2) a
      by (auto simp: wantRows_lookup contributes_def split: if_splits)
  next
    case False
    then have "wanted = wanted2" using d(3) by (auto simp: rootEntries_def Let_def D split: if_splits)
    then show ?thesis using w False unfolding d(2) a by (auto simp: contributes_def)
  qed
  show "e \<in> set (Ledger s1)" if "admits s1 i e"
    using that w unfolding d(2) a by (auto simp: updateRoot_def Let_def D split: if_splits)
qed

section \<open>Revoking, granting, verifying\<close>

text \<open>What the steps on the kernel leave alone, and the rows they may change.\<close>

definition sameState :: "'w nfs_sys \<Rightarrow> 'w nfs_sys \<Rightarrow> bool" where
  "sameState s s1 \<longleftrightarrow> (\<exists>w. s1 = s\<lparr>sWorld := w\<rparr>)"

lemma sameStateD:
  "sameState s s1 \<Longrightarrow> sState s1 = sState s \<and> sDisk s1 = sDisk s \<and> sErrors s1 = sErrors s \<and> sStarted s1 = sStarted s \<and>
     sLock s1 = sLock s \<and> sFailure s1 = sFailure s \<and> sClosed s1 = sClosed s \<and> Desired s1 = Desired s \<and> Ledger s1 = Ledger s"
  by (auto simp: sameState_def)

lemma sameState_refl [simp]: "sameState s s"
  unfolding sameState_def by (rule exI [of _ "sWorld s"]) simp

lemma sameState_trans: "sameState s s1 \<Longrightarrow> sameState s1 s2 \<Longrightarrow> sameState s s2"
  by (auto simp: sameState_def)

lemma sameState_osStep: "sameState s (snd (osStep f s))"
  by (auto simp: sameState_def)

lemma andThen_fst:
  "andThen f g s = (r, s') \<Longrightarrow>
     f s = (False, s') \<and> \<not> r \<or> (\<exists>s1. f s = (True, s1) \<and> g s1 = (r, s'))"
  by (cases "f s") (auto simp: andThen_def split: if_splits)

definition matched :: "wanted \<Rightarrow> entry \<Rightarrow> bool" where
  "matched wanted row \<longleftrightarrow> (\<exists>want. map_of wanted (enPath row, enClient row) = Some want \<and>
     optionsMatch (enOptions row) (enOptions want))"

lemma matched_Bex:
  "(\<exists>want\<in>set_option (map_of wanted (enPath row, enClient row)). optionsMatch (enOptions row) (enOptions want)) \<longleftrightarrow>
     matched wanted row"
  by (auto simp: matched_def)

lemma owns_cong: "Ledger s1 = Ledger s \<Longrightarrow> owns s1 = owns s" "Ledger s1 = Ledger s \<Longrightarrow> foreignConflict s1 = foreignConflict s"
  by (auto simp: owns_def foreignConflict_def fun_eq_iff)

lemma revokeObsolete_rows:
  assumes "etab_ok os tab" "revokeObsolete os rows wanted s = (r, s1)"
  shows "sameState s s1 \<and> tab (sWorld s1) \<subseteq> tab (sWorld s) \<and>
     (r \<longrightarrow> (\<forall>row\<in>set rows \<inter> tab (sWorld s1). if owns s row then matched wanted row else \<not> foreignConflict s row))"
  using assms(2)
proof (induction rows arbitrary: s)
  case (Cons row rows)
  show ?case
  proof (cases "owns s row \<and> \<not> matched wanted row")
    case False
    then show ?thesis using Cons.IH [of s] Cons.prems by (auto simp: matched_Bex split: if_splits)
  next
    case True
    let ?f = "osStep (kernelRevoke os (enPath row) (enClient row))"
    have "andThen ?f (revokeObsolete os rows wanted) s = (r, s1)" using True Cons.prems by (simp add: matched_Bex)
    from andThen_fst [OF this] consider "?f s = (False, s1)" "r = False"
      | s2 where "?f s = (True, s2)" "revokeObsolete os rows wanted s2 = (r, s1)" by auto
    then show ?thesis
    proof cases
      case 1
      then show ?thesis using osStepD [OF 1(1)] revoke_subset [OF assms(1)] by (auto simp: sameState_def)
    next
      case (2 s2)
      then have s2: "s2 = s\<lparr>sWorld := snd (kernelRevoke os (enPath row) (enClient row) (sWorld s))\<rparr>"
          "fst (kernelRevoke os (enPath row) (enClient row) (sWorld s))"
        using osStepD by fastforce+
      note ih = Cons.IH [OF 2(2)]
      have L: "Ledger s2 = Ledger s" using s2 by simp
      have sub: "tab (sWorld s2) \<subseteq> tab (sWorld s)" using s2(1) revoke_subset [OF assms(1)] by simp
      have gone: "row \<notin> tab (sWorld s2)"
        using revoke_rows [OF assms(1), of row "enPath row" "enClient row" "sWorld s"] s2 by auto
      have "sameState s s2" using s2(1) by (auto simp: sameState_def)
      then show ?thesis using ih sub gone sameState_trans [of s s2 s1] unfolding owns_cong [OF L] by auto
    qed
  qed
qed simp

definition granted :: "wanted \<Rightarrow> nfs_export \<Rightarrow> entry \<Rightarrow> bool" where
  "granted wanted e row \<longleftrightarrow> enPath row = nePath e \<and> enClient row \<in> set (exportClients e) \<and>
     map_of wanted (nePath e, enClient row) \<noteq> None \<and> optionValue (enOptions row) ''fsid'' = exportFsid e"

lemma grantClients_rows:
  assumes "etab_ok os tab" "grantClients os existing wanted e cs s = (r, s1)" "set cs \<subseteq> set (exportClients e)"
    "policyOk e"
  shows "sameState s s1 \<and> (\<forall>row\<in>tab (sWorld s1). row \<in> tab (sWorld s) \<or> granted wanted e row)"
  using assms(2,3)
proof (induction cs arbitrary: s)
  case (Cons c cs)
  show ?case
  proof (cases "\<exists>want. map_of wanted (nePath e, c) = Some want \<and>
      \<not> (\<exists>row\<in>set_option (existing (nePath e, c)). optionsMatch (enOptions row) (enOptions want))")
    case False
    then have "grantClients os existing wanted e cs s = (r, s1)"
      using Cons.prems(1) by (simp split: option.splits if_splits)
    then show ?thesis using Cons.IH [of s] Cons.prems(2) by simp
  next
    case True
    then have "andThen (osStep (kernelGrant os e c)) (grantClients os existing wanted e cs) s = (r, s1)"
      using Cons.prems(1) by auto
    from andThen_fst [OF this] consider "osStep (kernelGrant os e c) s = (False, s1)"
      | s2 where "osStep (kernelGrant os e c) s = (True, s2)" "grantClients os existing wanted e cs s2 = (r, s1)" by auto
    moreover have new: "row \<in> tab (sWorld s) \<or> granted wanted e row"
      if "row \<in> tab (snd (kernelGrant os e c (sWorld s)))" for row
      using grant_row [OF assms(1,4) _ that] True Cons.prems(2) by (auto simp: granted_def)
    ultimately show ?thesis
    proof cases
      case 1
      then show ?thesis using osStepD [OF 1] new by (auto simp: sameState_def)
    next
      case (2 s2)
      have "sameState s s2" using osStepD [OF 2(1)] by (auto simp: sameState_def)
      moreover note Cons.IH [OF 2(2)]
      ultimately show ?thesis using osStepD [OF 2(1)] new Cons.prems(2) sameState_trans [of s s2 s1] by auto
    qed
  qed
qed simp

lemma grantExports_rows:
  assumes "etab_ok os tab" "grantExports os existing wanted ds s = (r, s1)" "\<forall>(i, e)\<in>set ds. policyOk e"
  shows "sameState s s1 \<and> (\<forall>row\<in>tab (sWorld s1). row \<in> tab (sWorld s) \<or> (\<exists>(i, e)\<in>set ds. granted wanted e row))"
  using assms(2,3)
proof (induction ds arbitrary: s)
  case (Cons d ds)
  obtain i e where d: "d = (i, e)" by fastforce
  obtain b s2 where g: "grantClients os existing wanted e (exportClients e) s = (b, s2)" by fastforce
  have "policyOk e" using Cons.prems(2) by (simp add: d)
  note c = grantClients_rows [OF assms(1) g subset_refl this]
  show ?case
  proof (cases b)
    case False
    then show ?thesis using Cons.prems(1) g c by (auto simp: d andThen_def)
  next
    case True
    then have "grantExports os existing wanted ds s2 = (r, s1)" using Cons.prems(1) g by (simp add: d andThen_def)
    moreover have "\<forall>(i, e)\<in>set ds. policyOk e" using Cons.prems(2) by simp
    ultimately show ?thesis using Cons.IH [of s2] c sameState_trans [of s s2 s1] by (fastforce simp: d)
  qed
qed simp

lemma verifyRows_rows:
  "verifyRows s rows wanted = Some wanted' \<Longrightarrow>
     (\<forall>row\<in>set rows. if owns s row then matched wanted row else \<not> foreignConflict s row) \<and>
     (\<forall>k want. map_of wanted k = Some want \<longrightarrow>
        map_of wanted' k = Some want \<or>
        (\<exists>row\<in>set rows. k = (enPath row, enClient row) \<and> optionsMatch (enOptions row) (enOptions want)))"
proof (induction rows arbitrary: wanted)
  case (Cons row rows)
  show ?case
  proof (cases "owns s row")
    case False
    then show ?thesis using Cons.IH [of wanted] Cons.prems by (auto split: if_splits)
  next
    case True
    let ?k = "(enPath row, enClient row)"
    obtain want where w: "map_of wanted ?k = Some want" "optionsMatch (enOptions row) (enOptions want)"
        "verifyRows s rows (AList.delete ?k wanted) = Some wanted'"
      using True Cons.prems by (auto split: option.splits if_splits)
    have del: "map_of (AList.delete ?k wanted) k = (if k = ?k then None else map_of wanted k)" for k
      by (simp add: delete_conv')
    have m: "matched wanted r" if "matched (AList.delete ?k wanted) r" for r
      using that by (auto simp: matched_def del split: if_splits)
    have "matched wanted row" using w(1,2) by (auto simp: matched_def)
    then have "\<forall>r\<in>set (row # rows). if owns s r then matched wanted r else \<not> foreignConflict s r"
      using Cons.IH [OF w(3)] True m by (simp split: if_splits)
    moreover have "map_of wanted' k = Some v \<or>
        (\<exists>r\<in>set (row # rows). k = (enPath r, enClient r) \<and> optionsMatch (enOptions r) (enOptions v))"
      if "map_of wanted k = Some v" for k v
    proof (cases "k = ?k")
      case True
      then show ?thesis using that w(1,2) by auto
    next
      case False
      then have "map_of (AList.delete ?k wanted) k = Some v" using that by (simp add: del)
      then show ?thesis using Cons.IH [OF w(3)] by (meson list.set_intros(2))
    qed
    ultimately show ?thesis by blast
  qed
qed simp

section \<open>A pass keeps the invariant\<close>

definition wantedSpec :: "'w nfs_sys \<Rightarrow> wanted \<Rightarrow> bool" where
  "wantedSpec s wanted \<longleftrightarrow>
     (\<forall>p c en. map_of wanted (p, c) = Some en \<longleftrightarrow>
        (\<exists>i e. admits s i e \<and> p = nePath e \<and> c \<in> set (exportClients e) \<and> en = exportEntry e c)) \<and>
     (\<forall>i e. admits s i e \<longrightarrow> e \<in> set (Ledger s))"

lemma admits_cong: "sameState s s1 \<Longrightarrow> admits s1 = admits s"
  by (auto simp: admits_def fun_eq_iff dest!: sameStateD)

lemma wantedSpec_cong: "sameState s s1 \<Longrightarrow> wantedSpec s wanted \<Longrightarrow> wantedSpec s1 wanted"
  using sameStateD [of s s1] admits_cong [of s s1] by (simp add: wantedSpec_def)

lemma sameState_ok:
  "bothOk F cfg tab s \<Longrightarrow> sameState s s1 \<Longrightarrow> tab (sWorld s1) \<subseteq> tab (sWorld s) \<Longrightarrow> bothOk F cfg tab s1"
  by (rule bothOk_cong, assumption) (auto dest!: sameStateD bothOk_state)

lemma ownsIn_member: "e \<in> set l \<Longrightarrow> ownsRow e row \<Longrightarrow> ownsIn l row"
  by (auto simp: ownsIn_def list_ex_iff)

lemma granted_owned:
  assumes "desiredOk cfg (Desired s)" "wantedSpec s wanted" "(i, e) \<in> set (Desired s)" "granted wanted e row"
  shows "ownsIn (Ledger s) row"
proof -
  obtain en where "map_of wanted (nePath e, enClient row) = Some en" using assms(4) by (auto simp: granted_def)
  then obtain j e' where e': "admits s j e'" "nePath e = nePath e'" "e' \<in> set (Ledger s)"
    using assms(2) by (auto simp: wantedSpec_def)
  then have "e' = e" using desiredOk_path [OF assms(1,3)] by (auto simp: admits_def)
  then show ?thesis using e'(3) assms(4) by (auto simp: granted_def ownsRow_def intro: ownsIn_member)
qed

lemma grantDesired_ok:
  assumes "etab_ok os tab" "bothOk F cfg tab s" "sDisk s = Owner (sState s)" "wantedSpec s wanted"
    "grantDesired os rows wanted s = (r, s1)"
  shows "bothOk F cfg tab s1 \<and> sameState s s1"
proof -
  have ok: "desiredOk cfg (Desired s)" using bothOk_state [OF assms(2)] by (simp add: stateOk_sys)
  then have "\<forall>(i, e)\<in>set (Desired s). policyOk e" using desiredOk_policy by blast
  note g = grantExports_rows [OF assms(1) assms(5) [unfolded grantDesired_def] this]
  have "covers F (Ledger s) (tab (sWorld s1))"
    using g granted_owned [OF ok assms(4)] assms(2) by (fastforce simp: covers_def bothOk_def memOk_def)
  moreover have "sState s1 = sState s" "sDisk s1 = sDisk s" "Ledger s1 = Ledger s" using g sameStateD by blast+
  ultimately show ?thesis using g assms(2,3) by (simp add: bothOk_def memOk_def diskOk_def Ledger_def)
qed

lemma optionsMatch_fsid: "optionsMatch actual (exportOptions e) \<Longrightarrow> ''fsid='' @ exportFsid e \<in> set (splitOn (CHR '','') actual)"
  using optionList_mem(3) [of "exportFsid e" e] by (auto simp: optionsMatch_def split_exportOptions list_all_iff Let_def)

lemma rebuildLedger_member: "e \<in> set (Ledger (rebuildLedger s)) \<longleftrightarrow> (\<exists>i. admits s i e)"
  by (force simp: rebuildLedger_def admits_def)

lemma rebuildLedger_frame [simp]:
  "Desired (rebuildLedger s) = Desired s" "sDisk (rebuildLedger s) = sDisk s" "sWorld (rebuildLedger s) = sWorld s"
  "sErrors (rebuildLedger s) = sErrors s" "sStarted (rebuildLedger s) = sStarted s"
  "sFailure (rebuildLedger s) = sFailure s" "sLock (rebuildLedger s) = sLock s" "sClosed (rebuildLedger s) = sClosed s"
  by (simp_all add: rebuildLedger_def) (simp_all add: setLedger_def)

lemma matched_owned:
  assumes "etab_ok os tab" "wantedSpec s wanted" "row \<in> tab w" "matched wanted row"
  shows "\<exists>i e. admits s i e \<and> ownsRow e row"
proof -
  obtain want where want: "map_of wanted (enPath row, enClient row) = Some want" "optionsMatch (enOptions row) (enOptions want)"
    using assms(4) by (auto simp: matched_def)
  then obtain i e where e: "admits s i e" "enPath row = nePath e" "enClient row \<in> set (exportClients e)"
      "want = exportEntry e (enClient row)"
    using assms(2) by (auto simp: wantedSpec_def)
  then have "optionValue (enOptions row) ''fsid'' = exportFsid e"
    using etab_fsid [OF assms(1,3)] optionsMatch_fsid want(2) by (simp add: exportEntry_def)
  then show ?thesis using e by (auto simp: ownsRow_def)
qed

lemma rebuildLedger_ok:
  assumes "etab_ok os tab" "bothOk F cfg tab s" "wantedSpec s wanted"
    "\<And>row. row \<in> tab (sWorld s) \<Longrightarrow> owns s row \<Longrightarrow> matched wanted row"
  shows "bothOk F cfg tab (rebuildLedger s)"
proof -
  have st: "stateOk cfg (sState s)" by (rule bothOk_state [OF assms(2)])
  have "row \<in> F \<or> ownsIn (Ledger (rebuildLedger s)) row" if "row \<in> tab (sWorld s)" for row
  proof (cases "owns s row")
    case True
    then show ?thesis using matched_owned [OF assms(1,3) that] assms(4) [OF that] rebuildLedger_member ownsIn_member by metis
  next
    case False
    then show ?thesis using assms(2) that by (auto simp: bothOk_def memOk_def covers_def owns_def)
  qed
  moreover have "stateOk cfg (sState (rebuildLedger s))"
    using st desiredOk_policy by (auto simp: stateOk_sys rebuildLedger_member admits_def)
  ultimately show ?thesis
    using assms(2) diskOk_cong [of F cfg tab s "rebuildLedger s"] by (simp add: bothOk_def memOk_def covers_def)
qed

lemma inOrder_fst:
  "inOrder (f # fs) s = (r, s') \<Longrightarrow> f s = (False, s') \<and> \<not> r \<or> (\<exists>s1. f s = (True, s1) \<and> inOrder fs s1 = (r, s'))"
  using andThen_fst [of f "inOrder fs"] by simp

lemma etab_persist: "etab_ok os tab \<Longrightarrow> quiet tab (osPersist os)"
  by (simp add: etab_ok_def quiet_os_def)

lemma failure_ok [simp]: "bothOk F cfg tab (s\<lparr>sFailure := b\<rparr>) \<longleftrightarrow> bothOk F cfg tab s"
  by (auto simp: bothOk_def memOk_def diskOk_def split: owner_file.splits)

lemma persist_ok: "etab_ok os tab \<Longrightarrow> bothOk F cfg tab s \<Longrightarrow> persist os s = (r, s1) \<Longrightarrow> bothOk F cfg tab s1"
  using keepsD [OF keeps_persist [OF etab_persist]] by (metis snd_conv)

lemma persistOrFail_ok:
  "etab_ok os tab \<Longrightarrow> bothOk F cfg tab s \<Longrightarrow> persistOrFail os s = (r, s1) \<Longrightarrow> bothOk F cfg tab s1"
  by (cases "persist os s") (auto simp: persistOrFail_def dest: persist_ok)

lemma persist_fields:
  "persist os s = (r, s1) \<Longrightarrow> sState s1 = sState s \<and> sErrors s1 = sErrors s \<and> Desired s1 = Desired s \<and> Ledger s1 = Ledger s \<and>
     sStarted s1 = sStarted s \<and> sLock s1 = sLock s \<and> sFailure s1 = sFailure s \<and> sClosed s1 = sClosed s"
  by (auto simp: persist_def split: prod.splits persist_outcome.splits)

text \<open>
  A pass that succeeded: a row that is not foreign belongs to an admitted policy, and every
  client of an admitted policy has its row.
\<close>

definition converged :: "entry set \<Rightarrow> ('w \<Rightarrow> entry set) \<Rightarrow> 'w nfs_sys \<Rightarrow> bool" where
  "converged F tab s \<longleftrightarrow>
     (\<forall>row\<in>tab (sWorld s). row \<in> F \<or> (\<exists>i e. admits s i e \<and> ownsRow e row)) \<and>
     (\<forall>i e c. admits s i e \<longrightarrow> c \<in> set (exportClients e) \<longrightarrow>
        (\<exists>row\<in>tab (sWorld s). enPath row = nePath e \<and> enClient row = c \<and> optionsMatch (enOptions row) (exportOptions e)))"

lemma verified_converged:
  assumes "etab_ok os tab" "bothOk F cfg tab s" "wantedSpec s wanted" "verifyAdmissions os wanted s"
  shows "converged F tab s" "bothOk F cfg tab (rebuildLedger s)"
proof -
  obtain rows where rows: "kernelList os (sWorld s) = Some rows" "verifyRows s rows wanted = Some []"
    using assms(4) by (auto simp: verifyAdmissions_def split: option.splits)
  note tab = etab_list [OF assms(1) rows(1)] and v = verifyRows_rows [OF rows(2), unfolded etab_list [OF assms(1) rows(1)]]
  have own: "matched wanted row" if "row \<in> tab (sWorld s)" "owns s row" for row using v that by (auto split: if_splits)
  have "row \<in> F \<or> (\<exists>i e. admits s i e \<and> ownsRow e row)" if "row \<in> tab (sWorld s)" for row
  proof (cases "owns s row")
    case True
    then show ?thesis using matched_owned [OF assms(1,3) that own [OF that True]] by blast
  next
    case False
    then show ?thesis using assms(2) that by (auto simp: bothOk_def memOk_def covers_def owns_def)
  qed
  moreover have "\<exists>row\<in>tab (sWorld s). enPath row = nePath e \<and> enClient row = c \<and> optionsMatch (enOptions row) (exportOptions e)"
    if "admits s i e" "c \<in> set (exportClients e)" for i e c
  proof -
    have "map_of wanted (nePath e, c) = Some (exportEntry e c)" using assms(3) that by (auto simp: wantedSpec_def)
    then obtain row where "row \<in> tab (sWorld s)" "(nePath e, c) = (enPath row, enClient row)"
        "optionsMatch (enOptions row) (enOptions (exportEntry e c))"
      using v by fastforce
    then show ?thesis by (auto simp: exportEntry_def)
  qed
  ultimately show "converged F tab s" by (auto simp: converged_def)
  show "bothOk F cfg tab (rebuildLedger s)" by (rule rebuildLedger_ok [OF assms(1-3) own])
qed

lemma converged_rebuild: "converged F tab (rebuildLedger s) = converged F tab s"
  by (simp add: converged_def admits_def)

lemma converged_cong:
  "converged F tab s \<Longrightarrow> Desired s1 = Desired s \<Longrightarrow> sErrors s1 = sErrors s \<Longrightarrow> tab (sWorld s1) = tab (sWorld s) \<Longrightarrow>
     converged F tab s1"
proof -
  assume "Desired s1 = Desired s" "sErrors s1 = sErrors s" "tab (sWorld s1) = tab (sWorld s)" and c: "converged F tab s"
  moreover from this have "admits s1 = admits s" by (simp add: admits_def fun_eq_iff)
  ultimately show ?thesis unfolding converged_def by simp
qed

lemma kernel_steps_ok:
  assumes "etab_ok os tab" "bothOk F cfg tab s" "sDisk s = Owner (sState s)" "wantedSpec s wanted"
    "inOrder [revokeObsolete os rows wanted, grantDesired os rows wanted, require (verifyAdmissions os wanted),
       require (healthLocked os), change rebuildLedger, persistOrFail os] s = (r, s')"
  shows "bothOk F cfg tab s' \<and> Desired s' = Desired s \<and> (r \<longrightarrow> converged F tab s' \<and> \<not> sFailure s')"
proof -
  obtain b s1 where s1: "revokeObsolete os rows wanted s = (b, s1)" by fastforce
  note rev = revokeObsolete_rows [OF assms(1) s1]
  have ok1: "bothOk F cfg tab s1" using sameState_ok assms(2) rev by blast
  show ?thesis
  proof (cases b)
    case False
    then show ?thesis using inOrder_fst [OF assms(5)] s1 ok1 rev sameStateD by fastforce
  next
    case True
    obtain b2 s2 where s2: "grantDesired os rows wanted s1 = (b2, s2)" by fastforce
    have w1: "wantedSpec s1 wanted" "sDisk s1 = Owner (sState s1)"
      using rev assms(3,4) wantedSpec_cong sameStateD by (blast, metis)
    note g = grantDesired_ok [OF assms(1) ok1 w1(2,1) s2]
    have D: "Desired s2 = Desired s" using rev g sameStateD by metis
    have w2: "wantedSpec s2 wanted" using g w1 wantedSpec_cong by blast
    have rest: "inOrder [grantDesired os rows wanted, require (verifyAdmissions os wanted),
        require (healthLocked os), change rebuildLedger, persistOrFail os] s1 = (r, s')"
      using assms(5) s1 True by (simp add: andThen_def)
    show ?thesis
    proof (cases "b2 \<and> verifyAdmissions os wanted s2 \<and> healthLocked os s2")
      case False
      then have "s' = s2" "\<not> r" using rest s2 by (auto simp: andThen_def require_def split: if_splits)
      then show ?thesis using g D by simp
    next
      case True
      then have p: "persistOrFail os (rebuildLedger s2) = (r, s')"
        using rest s2 by (simp add: andThen_def require_def change_def split: prod.splits if_splits)
      note v = verified_converged [OF assms(1) conjunct1 [OF g] w2]
      obtain b3 s3 where s3: "persist os (rebuildLedger s2) = (b3, s3)" by fastforce
      have "bothOk F cfg tab s'" using persistOrFail_ok [OF assms(1) _ p] v True by blast
      moreover have "Desired s' = Desired s"
        using p s3 persist_fields [OF s3] D by (auto simp: persistOrFail_def split: if_splits)
      moreover have "converged F tab s' \<and> \<not> sFailure s'" if r
      proof -
        have "persist os (rebuildLedger s2) = (True, s')" using p that by (auto simp: persistOrFail_def split: prod.splits if_splits)
        then obtain w where w: "s' = (rebuildLedger s2)\<lparr>sDisk := Owner (sState (rebuildLedger s2)), sWorld := w\<rparr>"
            "tab w = tab (sWorld (rebuildLedger s2))"
          by (rule persist_done [OF etab_persist [OF assms(1)]])
        have "converged F tab s'" using converged_cong [of F tab s2 s'] v(1) True w by simp
        moreover have "\<not> sFailure s'" using True w by (simp add: healthLocked_def)
        ultimately show ?thesis ..
      qed
      ultimately show ?thesis by blast
    qed
  qed
qed

lemma desiredEntries_root:
  assumes "etab_ok os tab" "cfgOk cfg" "stateOk cfg (sState s)" "desiredEntries os cfg s = (Some wanted, s1)"
  shows "\<exists>R. Desired s1 = AList.update rootVolumeID R (Desired s)"
proof (cases rule: desiredEntries_cases [OF assms])
  case (2 w s2)
  have "Desired s2 = Desired s" using desiredLoop_frame [OF assms(1) 2(1)] by simp
  then show ?thesis using 2(2) updateRoot_desired [of cfg s2] by (intro exI) simp
qed simp

lemma converge_ok:
  assumes "etab_ok os tab" "cfgOk cfg" "bothOk F cfg tab s" "converge os cfg s = (r, s')"
  shows "bothOk F cfg tab s'"
    and "r \<Longrightarrow> converged F tab s' \<and> \<not> sFailure s' \<and> (\<exists>R. Desired s' = AList.update rootVolumeID R (Desired s))"
proof -
  have "bothOk F cfg tab s' \<and>
      (r \<longrightarrow> converged F tab s' \<and> \<not> sFailure s' \<and> (\<exists>R. Desired s' = AList.update rootVolumeID R (Desired s)))"
  proof (cases "kernelList os (sWorld s)")
    case None
    then show ?thesis using assms(3,4) by (simp add: converge_def)
  next
    case (Some rows)
    obtain o1 s1 where s1: "desiredEntries os cfg s = (o1, s1)" by fastforce
    have st: "stateOk cfg (sState s)" by (rule bothOk_state [OF assms(3)])
    have ok1: "bothOk F cfg tab s1" using desiredEntries_cases [OF assms(1,2) st s1] undisturbed_ok [OF assms(3)] by metis
    show ?thesis
    proof (cases o1)
      case None
      then show ?thesis using assms(4) Some s1 ok1 by (simp add: converge_def)
    next
      case (Some wanted)
      have spec: "wantedSpec s1 wanted"
        using desiredEntries_wanted [OF assms(1,2) st s1 [unfolded Some]] by (auto simp: wantedSpec_def)
      have D: "\<exists>R. Desired s1 = AList.update rootVolumeID R (Desired s)"
        using desiredEntries_root [OF assms(1,2) st s1 [unfolded Some]] .
      have run: "inOrder [persist os, revokeObsolete os rows wanted, grantDesired os rows wanted,
          require (verifyAdmissions os wanted), require (healthLocked os), change rebuildLedger, persistOrFail os] s1 = (r, s')"
        using assms(4) \<open>kernelList os (sWorld s) = Some rows\<close> s1 Some by (simp add: converge_def)
      from inOrder_fst [OF run] show ?thesis
      proof (elim disjE exE conjE)
        fix s2 assume s2: "persist os s1 = (True, s2)" and rest: "inOrder [revokeObsolete os rows wanted, grantDesired os rows wanted,
          require (verifyAdmissions os wanted), require (healthLocked os), change rebuildLedger, persistOrFail os] s2 = (r, s')"
        note pf = persist_fields [OF s2]
        have disk: "sDisk s2 = Owner (sState s2)" by (rule persist_done [OF etab_persist [OF assms(1)] s2]) simp
        have "admits s2 = admits s1" using pf by (simp add: admits_def fun_eq_iff)
        then have "wantedSpec s2 wanted" using spec pf unfolding wantedSpec_def by simp
        from kernel_steps_ok [OF assms(1) persist_ok [OF assms(1) ok1 s2] disk this rest]
        show ?thesis using D pf by simp
      qed (use persist_ok [OF assms(1) ok1] in auto)
    qed
  qed
  then show "bothOk F cfg tab s'"
    and "r \<Longrightarrow> converged F tab s' \<and> \<not> sFailure s' \<and> (\<exists>R. Desired s' = AList.update rootVolumeID R (Desired s))" by blast+
qed

end
