(* ===== verification/Nfs_Steps.thy ===== *)
theory Nfs_Steps
  imports Nfs_Converge
begin

text \<open>
  Every method of the NFS manager keeps the ownership invariant, whatever the operating system
  lets fail, and so does every interleaving of them with crashes and with other processes.
\<close>

section \<open>Withdrawing\<close>

lemma revokeRows_rows:
  assumes "etab_ok os tab" "revokeRows os rows s = (r, s1)"
  shows "sameState s s1 \<and> tab (sWorld s1) \<subseteq> tab (sWorld s) \<and>
     (r \<longrightarrow> (\<forall>row\<in>set rows \<inter> tab (sWorld s1). \<not> owns s row))"
  using assms(2)
proof (induction rows arbitrary: s r)
  case (Cons row rows)
  show ?case
  proof (cases "owns s row")
    case False
    then show ?thesis using Cons.IH [of s r] Cons.prems by auto
  next
    case True
    let ?w = "kernelRevoke os (enPath row) (enClient row) (sWorld s)"
    let ?s = "s\<lparr>sWorld := snd ?w\<rparr>"
    obtain r2 s2 where "revokeRows os rows ?s = (r2, s2)" by fastforce
    moreover from this have "s2 = s1" "r = (fst ?w \<and> r2)"
      using Cons.prems True by (auto simp: osStep_def split_def)
    ultimately have r2: "revokeRows os rows ?s = (r2, s1)" "r = (fst ?w \<and> r2)" by simp_all
    note ih = Cons.IH [OF r2(1)]
    have "sameState s ?s" by (auto simp: sameState_def)
    moreover have "tab (snd ?w) \<subseteq> tab (sWorld s)" by (rule revoke_subset [OF assms(1)])
    moreover have "row \<notin> tab (snd ?w)" if "fst ?w"
      using revoke_rows [OF assms(1), of row "enPath row" "enClient row" "sWorld s"] that by auto
    moreover have "owns ?s = owns s" by (simp add: owns_def fun_eq_iff)
    ultimately show ?thesis using ih r2(2) sameState_trans [of s ?s s1] by auto
  qed
qed simp

lemma revokeOwned_rows:
  assumes "etab_ok os tab" "revokeOwned os s = (r, s1)"
  shows "sameState s s1 \<and> tab (sWorld s1) \<subseteq> tab (sWorld s) \<and> (r \<longrightarrow> (\<forall>row\<in>tab (sWorld s1). \<not> owns s row))"
proof (cases "kernelList os (sWorld s)")
  case None
  then show ?thesis using assms(2) by (simp add: revokeOwned_def)
next
  case (Some rows)
  then have "revokeRows os rows s = (r, s1)" using assms(2) by (simp add: revokeOwned_def)
  from revokeRows_rows [OF assms(1) this] show ?thesis using etab_list [OF assms(1) Some] by blast
qed

lemma etab_close: "etab_ok os tab \<Longrightarrow> quiet tab (osClose os)"
  by (simp add: etab_ok_def quiet_os_def)

lemma quietD: "quiet tab f \<Longrightarrow> tab (snd (f w)) = tab w"
  by (simp add: quiet_def)

lemma stopOwned_rows:
  assumes "etab_ok os tab" "stopOwned os s = (r, s1)"
  shows "sameState s s1 \<and> tab (sWorld s1) \<subseteq> tab (sWorld s) \<and> (r \<longrightarrow> (\<forall>row\<in>tab (sWorld s1). \<not> owns s row))"
proof -
  obtain a s2 where s2: "revokeOwned os s = (a, s2)" by fastforce
  have "s1 = s2\<lparr>sWorld := snd (osClose os (sWorld s2))\<rparr>" "r \<Longrightarrow> a"
    using assms(2) s2 by (auto simp: stopOwned_def osStep_def split_def)
  moreover from this have "sameState s2 s1" by (auto simp: sameState_def)
  ultimately show ?thesis
    using revokeOwned_rows [OF assms(1) s2] quietD [OF etab_close [OF assms(1)]] sameState_trans [of s s2 s1] by auto
qed

lemma failClosed_stop: "failClosed os s = (False, (snd (stopOwned os s))\<lparr>sFailure := True\<rparr>)"
  by (simp add: failClosed_def stopOwned_def split_def)

lemma stopOwned_ok: "etab_ok os tab \<Longrightarrow> bothOk F cfg tab s \<Longrightarrow> bothOk F cfg tab (snd (stopOwned os s))"
  using stopOwned_rows [of os tab s] sameState_ok by (metis prod.collapse)

lemma failClosed_ok: "etab_ok os tab \<Longrightarrow> bothOk F cfg tab s \<Longrightarrow> bothOk F cfg tab (snd (failClosed os s))"
  by (simp add: failClosed_stop stopOwned_ok)

lemma failClosed_False [simp]: "fst (failClosed os s) = False"
  by (simp add: failClosed_stop)

lemma applyDesired_ok:
  assumes "etab_ok os tab" "cfgOk cfg" "bothOk F cfg tab s" "applyDesired os cfg s = (r, s')"
  shows "bothOk F cfg tab s'"
    and "r \<Longrightarrow> converged F tab s' \<and> \<not> sFailure s' \<and> (\<exists>R. Desired s' = AList.update rootVolumeID R (Desired s))"
proof -
  obtain b s1 where c: "converge os cfg s = (b, s1)" by fastforce
  note ok = converge_ok [OF assms(1-3) c]
  show "bothOk F cfg tab s'"
    using assms(4) c ok(1) failClosed_ok [OF assms(1) ok(1)] by (cases b) (auto simp: applyDesired_def)
  show "r \<Longrightarrow> converged F tab s' \<and> \<not> sFailure s' \<and> (\<exists>R. Desired s' = AList.update rootVolumeID R (Desired s))"
    using assms(4) c ok(2) failClosed_False [of os s1] by (cases b) (auto simp: applyDesired_def)
qed

lemma applyOrStop_ok:
  "etab_ok os tab \<Longrightarrow> cfgOk cfg \<Longrightarrow> bothOk F cfg tab s \<Longrightarrow> bothOk F cfg tab (snd (applyOrStop os cfg s))"
  using applyDesired_ok(1) stopOwned_ok by (metis applyOrStop_def prod.collapse)

section \<open>Starting\<close>

lemma validateDesired_same:
  "\<forall>(i, e)\<in>set ds. policyOk e \<Longrightarrow> snd (validateDesired cfg ds) = ds"
proof (induction cfg ds rule: validateDesired.induct)
  case (2 cfg i e ds)
  have "v = e" if "validatePersisted cfg e = Some v" for v
    using that 2(2) policyOk_reload by (auto simp: validatePersisted_def split: option.splits if_splits)
  then show ?case using 2 by (auto split: option.splits)
qed simp

lemma validateLedger_same:
  "\<forall>e\<in>set es. policyOk e \<Longrightarrow> snd (validateLedger cfg es) = es"
proof (induction cfg es rule: validateLedger.induct)
  case (2 cfg e es)
  have "v = e" if "validatePersisted cfg e = Some v" for v
    using that 2(2) policyOk_reload by (auto simp: validatePersisted_def split: option.splits if_splits)
  then show ?case using 2 by (auto split: option.splits)
qed simp

lemma validateState_same: "stateOk cfg (sState s) \<Longrightarrow> snd (validateState cfg s) = s"
proof -
  assume "stateOk cfg (sState s)"
  then have "snd (validateDesired cfg (Desired s)) = Desired s" "snd (validateLedger cfg (Ledger s)) = Ledger s"
    by (auto simp: stateOk_sys intro!: validateDesired_same validateLedger_same dest: desiredOk_policy)
  then show ?thesis
    by (auto simp: validateState_def Desired_def Ledger_def split: prod.splits bool.splits)
qed

lemma loadState_ok:
  assumes "diskOk F cfg tab s"
  shows "diskOk F cfg tab (snd (loadState os cfg s))" "sStarted (snd (loadState os cfg s)) = sStarted s"
    and "fst (loadState os cfg s) \<Longrightarrow> bothOk F cfg tab (snd (loadState os cfg s))"
proof -
  have "diskOk F cfg tab (snd (loadState os cfg s)) \<and> sStarted (snd (loadState os cfg s)) = sStarted s \<and>
      (fst (loadState os cfg s) \<longrightarrow> bothOk F cfg tab (snd (loadState os cfg s)))"
  proof (cases "sDisk s")
    case (Owner d)
    have st: "stateOk cfg d" using assms Owner by (simp add: diskOk_def)
    then have "snd (validateState cfg (s\<lparr>sState := d\<rparr>)) = s\<lparr>sState := d\<rparr>" by (simp add: validateState_same)
    moreover have "bothOk F cfg tab (s\<lparr>sState := d\<rparr>)"
      using assms Owner by (simp add: bothOk_def memOk_def diskOk_def Ledger_def)
    ultimately show ?thesis using assms Owner by (auto simp: loadState_def diskOk_def)
  qed (use assms in \<open>auto simp: loadState_def diskOk_def bothOk_def memOk_def stateOk_def desiredOk_def freshState_def
      covers_def Ledger_def\<close>)
  then show "diskOk F cfg tab (snd (loadState os cfg s))" "sStarted (snd (loadState os cfg s)) = sStarted s"
    and "fst (loadState os cfg s) \<Longrightarrow> bothOk F cfg tab (snd (loadState os cfg s))" by blast+
qed

lemma preflight_ok:
  assumes "etab_ok os tab" "cfgOk cfg" "bothOk F cfg tab s"
  shows "bothOk F cfg tab (snd (preflightActivation os cfg s))"
proof (cases "guardedState s \<and> kernelList os (sWorld s) \<noteq> None")
  case False
  then show ?thesis using assms(3) by (auto simp: preflightActivation_def)
next
  case True
  then obtain rows where rows: "kernelList os (sWorld s) = Some rows" by auto
  have st: "stateOk cfg (sState s)" by (rule bothOk_state [OF assms(3)])
  obtain o1 s1 where s1: "desiredEntries os cfg s = (o1, s1)" by fastforce
  have u: "undisturbed tab s s1" "stateOk cfg (sState s1)" using desiredEntries_cases [OF assms(1,2) st s1] by metis+
  then have ok1: "bothOk F cfg tab s1" using undisturbed_ok [OF assms(3)] by blast
  show ?thesis
  proof (cases o1)
    case None
    then show ?thesis using True rows s1 ok1 by (simp add: preflightActivation_def)
  next
    case (Some wanted)
    have spec: "wantedSpec s1 wanted"
      using desiredEntries_wanted [OF assms(1,2) st s1 [unfolded Some]] by (auto simp: wantedSpec_def)
    obtain b s2 where s2: "revokeObsolete os rows wanted s1 = (b, s2)" by fastforce
    note rev = revokeObsolete_rows [OF assms(1) s2]
    have ok2: "bothOk F cfg tab s2" using sameState_ok ok1 rev by blast
    have pre: "snd (preflightActivation os cfg s) = (if b then snd (persist os (rebuildLedger s2)) else s2)"
      using True rows s1 Some s2 by (simp add: preflightActivation_def andThen_def change_def split_def)
    have "bothOk F cfg tab (rebuildLedger s2)" if b
    proof (rule rebuildLedger_ok [OF assms(1) ok2])
      show "wantedSpec s2 wanted" using wantedSpec_cong rev spec by blast
      fix row assume row: "row \<in> tab (sWorld s2)" "owns s2 row"
      have "Ledger s2 = Ledger s1" using rev sameStateD by blast
      moreover have "row \<in> set rows" using row rev u(1) etab_list [OF assms(1) rows] by (auto simp: undisturbed_def)
      ultimately show "matched wanted row" using row rev that by (auto simp: owns_def split: if_splits)
    qed
    then show ?thesis using pre ok2 keepsD [OF keeps_persist [OF etab_persist [OF assms(1)]]] by simp
  qed
qed

lemma fields_ok:
  "bothOk F cfg tab s \<Longrightarrow> Desired s1 = Desired s \<Longrightarrow> Ledger s1 = Ledger s \<Longrightarrow> sDisk s1 = sDisk s \<Longrightarrow>
     tab (sWorld s1) = tab (sWorld s) \<Longrightarrow> bothOk F cfg tab s1"
  by (rule bothOk_cong, assumption) (auto dest!: bothOk_state simp: stateOk_sys)

lemma state_fields [simp]:
  "Desired (claimServer i s) = Desired s" "Ledger (claimServer i s) = Ledger s" "sDisk (claimServer i s) = sDisk s"
  "sWorld (claimServer i s) = sWorld s" "sStarted (claimServer i s) = sStarted s"
  "Desired (recordHelper n p t s) = Desired s" "Ledger (recordHelper n p t s) = Ledger s"
  "sDisk (recordHelper n p t s) = sDisk s" "sWorld (recordHelper n p t s) = sWorld s"
  "sStarted (recordHelper n p t s) = sStarted s"
  "Desired (setIdentity i s) = Desired s" "Ledger (setIdentity i s) = Ledger s" "sDisk (setIdentity i s) = sDisk s"
  "sWorld (setIdentity i s) = sWorld s" "sStarted (setIdentity i s) = sStarted s"
  by (simp_all add: claimServer_def recordHelper_def setIdentity_def Desired_def Ledger_def)

lemma keeps_meta:
  "(\<And>s. Desired (f s) = Desired s \<and> Ledger (f s) = Ledger s \<and> sDisk (f s) = sDisk s \<and> sWorld (f s) = sWorld s) \<Longrightarrow>
     keeps F cfg tab (change f)"
  by (rule keeps_change, rule fields_ok, assumption) simp_all

lemma persist_close_ok:
  assumes "etab_ok os tab" "bothOk F cfg tab s"
  shows "bothOk F cfg tab (snd (osStep (osClose os) s))" "bothOk F cfg tab (snd (persist os s))"
  using keepsD [OF keeps_quiet [OF etab_close [OF assms(1)]] assms(2)]
    keepsD [OF keeps_persist [OF etab_persist [OF assms(1)]] assms(2)] by blast+

lemma keeps_startHelper:
  assumes "etab_ok os tab"
  shows "keeps F cfg tab (startHelper os n)"
  unfolding keeps_def
proof safe
  fix s assume ok: "bothOk F cfg tab s"
  have q: "quiet tab (osStartHelper os n)" using assms by (simp add: etab_ok_def quiet_os_def)
  obtain x w where x: "osStartHelper os n (sWorld s) = (x, w)" by fastforce
  have w: "tab w = tab (sWorld s)" using quietD [OF q, of "sWorld s"] x by simp
  show "bothOk F cfg tab (snd (startHelper os n s))"
  proof (cases x)
    case None
    then show ?thesis using x fields_ok [OF ok, of "s\<lparr>sWorld := w\<rparr>"] w by (simp add: startHelper_def)
  next
    case (Some pt)
    obtain pid t where pt: "pt = (pid, t)" by fastforce
    let ?s = "recordHelper n pid t (s\<lparr>sWorld := w\<rparr>)"
    have "bothOk F cfg tab ?s" using fields_ok [OF ok, of ?s] w by simp
    then have "bothOk F cfg tab (snd (persist os ?s))" by (rule persist_close_ok(2) [OF assms])
    moreover from this have "bothOk F cfg tab (snd (osStep (osClose os) (snd (persist os ?s))))"
      by (rule persist_close_ok(1) [OF assms])
    ultimately show ?thesis
      using x Some pt by (cases "persist os ?s"; cases "fst (persist os ?s)") (simp_all add: startHelper_def)
  qed
qed

lemma keeps_startHelpers:
  assumes "etab_ok os tab"
  shows "keeps F cfg tab (startHelpers os n)"
proof -
  have q: "quiet tab (osTrackerReady os)" "quiet tab (osWaitChannels os ps)" "quiet tab (osWriteControl os c v)" for ps c v
    using assms by (simp_all add: etab_ok_def quiet_os_def)
  show ?thesis unfolding startHelpers_def
    by (rule keeps_inOrder)
       (simp add: keeps_startHelper [OF assms] keeps_quiet [OF q(1)] keeps_quiet [OF q(2)] keeps_quiet [OF q(3)] keeps_require)
qed

lemma keeps_runServer:
  assumes "etab_ok os tab"
  shows "keeps F cfg tab (runServer os identity n ports)"
proof -
  have q: "quiet tab (osPreparePaths os)" "quiet tab (osVersions os n)" "quiet tab (osListener os ports)"
    using assms by (simp_all add: etab_ok_def quiet_os_def)
  show ?thesis unfolding runServer_def
    by (rule keeps_inOrder)
       (simp add: keeps_quiet [OF q(1)] keeps_quiet [OF q(2)] keeps_quiet [OF q(3)] keeps_require keeps_meta
          keeps_startHelpers [OF assms] keeps_persist [OF etab_persist [OF assms]])
qed

lemma keeps_prepareAndRun:
  assumes "etab_ok os tab"
  shows "keeps F cfg tab (prepareAndRun os identity owned)"
  unfolding keeps_def
proof safe
  fix s assume ok: "bothOk F cfg tab s"
  have q: "quiet tab (osPrepareKernel os owned)" using assms by (simp add: etab_ok_def quiet_os_def)
  obtain x w where x: "osPrepareKernel os owned (sWorld s) = (x, w)" by fastforce
  have "bothOk F cfg tab (s\<lparr>sWorld := w\<rparr>)" using fields_ok [OF ok, of "s\<lparr>sWorld := w\<rparr>"] quietD [OF q, of "sWorld s"] x by simp
  then show "bothOk F cfg tab (snd (prepareAndRun os identity owned s))"
    using x keepsD [OF keeps_runServer [OF assms]] by (auto simp: prepareAndRun_def split: option.splits)
qed

lemma keeps_claimAndRun:
  assumes "etab_ok os tab"
  shows "keeps F cfg tab (claimAndRun os identity)"
proof -
  have p: "keeps F cfg tab (osStep (osPrerequisites os st owned))" for st owned
    using assms by (intro keeps_quiet) (simp add: etab_ok_def quiet_os_def)
  have "keeps F cfg tab (andThen (osStep (osPrerequisites os st owned)) (prepareAndRun os identity owned))" for st owned
    by (rule keeps_andThen [OF p keeps_prepareAndRun [OF assms]])
  then show ?thesis by (simp add: keeps_def claimAndRun_def Let_def)
qed

lemma orClose_ok:
  assumes "etab_ok os tab" "bothOk F cfg tab (snd p)"
  shows "bothOk F cfg tab (snd (case p of (True, s1) \<Rightarrow> (True, s1) | (False, s1) \<Rightarrow> (False, snd (osStep (osClose os) s1))))"
proof (cases p)
  case (Pair a s1)
  then show ?thesis using assms persist_close_ok(1) [OF assms(1), of F cfg s1] by (cases a) simp_all
qed

lemma keeps_kernelStart:
  assumes "etab_ok os tab"
  shows "keeps F cfg tab (kernelStart os)"
  unfolding keeps_def kernelStart_def
proof safe
  fix s assume "bothOk F cfg tab s"
  then have "bothOk F cfg tab (snd (claimAndRun os i s))" for i by (rule keepsD [OF keeps_claimAndRun [OF assms]])
  note orClose_ok [OF assms this]
  then show "bothOk F cfg tab (snd (case osIdentity os (sWorld s) of None \<Rightarrow> (False, s)
      | Some identity \<Rightarrow> (case claimAndRun os identity s of (True, s1) \<Rightarrow> (True, s1)
           | (False, s1) \<Rightarrow> (False, snd (osStep (osClose os) s1)))))"
    using \<open>bothOk F cfg tab s\<close> by (cases "osIdentity os (sWorld s)") simp_all
qed

lemma keeps_persistOrClose:
  assumes "etab_ok os tab"
  shows "keeps F cfg tab (persistOrClose os)"
  unfolding keeps_def persistOrClose_def using orClose_ok [OF assms persist_close_ok(2) [OF assms]] by blast

lemma keeps_applyDesired: "etab_ok os tab \<Longrightarrow> cfgOk cfg \<Longrightarrow> keeps F cfg tab (applyDesired os cfg)"
  unfolding keeps_def using applyDesired_ok(1) by (metis prod.collapse)

lemma keeps_preflight: "etab_ok os tab \<Longrightarrow> cfgOk cfg \<Longrightarrow> keeps F cfg tab (preflightActivation os cfg)"
  by (simp add: keeps_def preflight_ok)

lemma startLocked_ok:
  assumes "etab_ok os tab" "cfgOk cfg" "diskOk F cfg tab s" "\<not> sStarted s"
  shows "sysOk F cfg tab (snd (startLocked os cfg s))"
proof (cases "osIdentity os (sWorld s)")
  case None
  then show ?thesis using assms(3,4) by (simp add: startLocked_def sysOk_def)
next
  case (Some identity)
  let ?rest = "inOrder [change (updateRoot cfg), preflightActivation os cfg, kernelStart os,
      change (setIdentity identity), persistOrClose os, change (\<lambda>s. s\<lparr>sStarted := True\<rparr>), applyDesired os cfg]"
  note l = loadState_ok [OF assms(3), of os]
  have k: "keeps F cfg tab ?rest"
  proof (rule keeps_inOrder)
    have "keeps F cfg tab (change (updateRoot cfg))" by (rule keeps_change) (rule updateRoot_ok [OF assms(2)])
    moreover have "keeps F cfg tab (change (\<lambda>s. s\<lparr>sStarted := True\<rparr>))"
      by (rule keeps_meta) (simp add: Desired_def Ledger_def)
    moreover have "keeps F cfg tab (change (setIdentity identity))" by (rule keeps_meta) simp
    ultimately show "list_all (keeps F cfg tab) [change (updateRoot cfg), preflightActivation os cfg, kernelStart os,
        change (setIdentity identity), persistOrClose os, change (\<lambda>s. s\<lparr>sStarted := True\<rparr>), applyDesired os cfg]"
      using assms(1,2) by (simp add: keeps_preflight keeps_kernelStart keeps_persistOrClose keeps_applyDesired)
  qed
  have eq: "startLocked os cfg s = (if fst (loadState os cfg s) then ?rest (snd (loadState os cfg s)) else loadState os cfg s)"
    using Some by (simp add: startLocked_def andThen_def split_def) (metis prod.collapse)
  show ?thesis
  proof (cases "fst (loadState os cfg s)")
    case True
    then have "bothOk F cfg tab (snd (startLocked os cfg s))" unfolding eq using keepsD [OF k l(3) [OF True]] by simp
    then show ?thesis by (simp add: bothOk_def sysOk_def)
  next
    case False
    then show ?thesis unfolding eq using l(1,2) assms(4) by (simp add: sysOk_def)
  qed
qed

lemma sysOk_world: "sysOk F cfg tab s \<Longrightarrow> tab w = tab (sWorld s) \<Longrightarrow> sysOk F cfg tab (s\<lparr>sWorld := w\<rparr>)"
  by (auto simp: sysOk_def diskOk_def memOk_def split: owner_file.splits)

lemma sysOk_lock [simp]:
  "sysOk F cfg tab (s\<lparr>sLock := b\<rparr>) = sysOk F cfg tab s" "sysOk F cfg tab (s\<lparr>sClosed := b\<rparr>) = sysOk F cfg tab s"
  "sysOk F cfg tab (s\<lparr>sFailure := b\<rparr>) = sysOk F cfg tab s" "sysOk F cfg tab (s\<lparr>sCloseErr := b\<rparr>) = sysOk F cfg tab s"
  by (auto simp: sysOk_def diskOk_def memOk_def Ledger_def split: owner_file.splits)

lemma sysOk_quiet: "sysOk F cfg tab s \<Longrightarrow> quiet tab f \<Longrightarrow> sysOk F cfg tab (snd (osStep f s))"
  by (simp add: sysOk_world quiet_def)

lemma Start_ok:
  assumes "etab_ok os tab" "cfgOk cfg" "sysOk F cfg tab s"
  shows "sysOk F cfg tab (snd (Start os cfg s))"
proof -
  have q: "quiet tab (osMkdirState os)" "quiet tab (osAcquireLock os)" "quiet tab (osReleaseLock os)"
    using assms(1) by (simp_all add: etab_ok_def quiet_os_def)
  let ?s1 = "snd (osStep (osMkdirState os) s)"
  let ?s2 = "snd (osStep (osAcquireLock os) ?s1)"
  have ok: "sysOk F cfg tab ?s1" "sysOk F cfg tab ?s2"
    using sysOk_quiet [OF assms(3) q(1)] sysOk_quiet [OF _ q(2), of F cfg ?s1] by blast+
  show ?thesis
  proof (cases "osCancelled os (sWorld s) \<or> sClosed s \<or> sStarted s \<or> sFailure s")
    case True
    then show ?thesis using assms(3) by (auto simp: Start_def)
  next
    case False
    have "sysOk F cfg tab (snd (startLocked os cfg (?s2\<lparr>sLock := True\<rparr>)))"
      by (rule startLocked_ok [OF assms(1,2)]) (use ok(2) False in \<open>auto simp: sysOk_def diskOk_def split: owner_file.splits\<close>)
    then show ?thesis
      using False ok sysOk_quiet [OF _ q(3)]
      by (auto simp: Start_def osStep_def split_def split: prod.splits bool.splits)
  qed
qed

lemma Start_started: "fst (Start os cfg s) \<Longrightarrow> sStarted (snd (Start os cfg s))"
  by (auto simp: Start_def healthLocked_def split_def split: if_splits prod.splits bool.splits)

section \<open>Changing exports\<close>

lemma setDesired_ok:
  assumes "bothOk F cfg tab s" "exportOk cfg i e" "\<And>j e'. (j, e') \<in> set (Desired s) \<Longrightarrow> j \<noteq> i \<Longrightarrow> nePath e' \<noteq> nePath e"
  shows "bothOk F cfg tab (setDesired i e s)"
  using assms(1)
proof (rule bothOk_cong)
  show "stateOk cfg (sState (setDesired i e s))"
    using bothOk_state [OF assms(1)] desiredOk_update [OF _ assms(2,3)] by (simp add: stateOk_sys)
qed simp_all

lemma exportOk_active [simp]: "exportOk cfg i (e\<lparr>neActive := b\<rparr>) = exportOk cfg i e"
  by (simp add: exportOk_def policyOk_def)

lemma putPolicy_ok:
  assumes "desiredOk cfg ds" "exportOk cfg (neVolumeID e) e" "putPolicy ds e exact = Some e1"
  shows "exportOk cfg (neVolumeID e) e1 \<and> nePath e1 = nePath e \<and>
     (\<forall>(j, e')\<in>set ds. j \<noteq> neVolumeID e \<longrightarrow> nePath e' \<noteq> nePath e)"
proof -
  have free: "\<forall>(j, e')\<in>set ds. j \<noteq> neVolumeID e1 \<longrightarrow> nePath e' \<noteq> nePath e1"
    using assms(3) by (auto simp: putPolicy_def list_ex_iff split: option.splits if_splits)
  show ?thesis
  proof (cases "map_of ds (neVolumeID e)")
    case None
    then show ?thesis using assms(2,3) free by (auto simp: putPolicy_def split: if_splits)
  next
    case (Some old)
    have old: "policyOk old" using desiredOk_policy [OF assms(1)] map_of_SomeD [OF Some] by blast
    have e1: "neVolumeID e1 = neVolumeID e" "nePath e1 = nePath e" "neBindAddress e1 = neBindAddress e"
        "neVersion e1 = neVersion e" "neSquash e1 = neSquash e" "neACLEnabled e1 = neACLEnabled e"
        "neClients e1 = neClients e \<or> neClients e1 = neClients old \<and> neACLEnabled e"
      using assms(3) Some by (auto simp: putPolicy_def Let_def split: if_splits)
    then have "policyOk e1" using assms(2) old unfolding policyOk_def exportOk_def by metis
    then show ?thesis using e1 free assms(2) by (simp add: exportOk_def)
  qed
qed

lemma commit_ok:
  assumes "etab_ok os tab" "cfgOk cfg" "bothOk F cfg tab s" "exportOk cfg i e"
    "\<And>j e'. (j, e') \<in> set (Desired s) \<Longrightarrow> j \<noteq> i \<Longrightarrow> nePath e' \<noteq> nePath e"
    "persist os (updateRoot cfg (addLedger e (setDesired i e s))) = (r, s1)"
  shows "bothOk F cfg tab s1"
proof -
  have "bothOk F cfg tab (setDesired i e s)" by (rule setDesired_ok [OF assms(3,4,5)])
  then have "bothOk F cfg tab (addLedger e (setDesired i e s))"
    using assms(4) by (intro addLedger_ok) (simp_all add: exportOk_def)
  then show ?thesis using persist_ok [OF assms(1) updateRoot_ok [OF assms(2)] assms(6)] by blast
qed

lemma bothOk_sys: "bothOk F cfg tab s \<Longrightarrow> sysOk F cfg tab s"
  by (simp add: bothOk_def sysOk_def)

lemma sysOk_both: "sysOk F cfg tab s \<Longrightarrow> sStarted s \<Longrightarrow> bothOk F cfg tab s"
  by (simp add: bothOk_def sysOk_def)

lemma putLocked_ok:
  assumes "etab_ok os tab" "cfgOk cfg" "sysOk F cfg tab s" "exportOk cfg (neVolumeID e) e"
  shows "sysOk F cfg tab (snd (putLocked os cfg e exact active s))"
proof (cases "active \<and> \<not> osCancelled os (sWorld s) \<and> healthLocked os s \<and> putPolicy (Desired s) e exact \<noteq> None")
  case False
  then show ?thesis using assms(3) by (auto simp: putLocked_def split: option.splits)
next
  case True
  then obtain e1 where e1: "putPolicy (Desired s) e exact = Some e1" by auto
  have ok: "bothOk F cfg tab s" using assms(3) True by (simp add: sysOk_both healthLocked_def)
  have des: "desiredOk cfg (Desired s)" using bothOk_state [OF ok] by (simp add: stateOk_sys)
  note p = putPolicy_ok [OF des assms(4) e1]
  let ?e = "e1\<lparr>neActive := True\<rparr>"
  have vid: "neVolumeID e1 = neVolumeID e" using p by (simp add: exportOk_def)
  obtain b s1 where s1: "persist os (updateRoot cfg (addLedger ?e (setDesired (neVolumeID ?e) ?e s))) = (b, s1)" by fastforce
  have ok1: "bothOk F cfg tab s1"
    by (rule commit_ok [OF assms(1,2) ok _ _ s1]) (use p vid in auto)
  show ?thesis
  proof (cases b)
    case False
    then show ?thesis using True e1 s1 bothOk_sys [OF failClosed_ok [OF assms(1) ok1]] by (simp add: putLocked_def Let_def)
  next
    case b: True
    obtain d s2 where s2: "applyDesired os cfg s1 = (d, s2)" by fastforce
    then show ?thesis using True b e1 s1 bothOk_sys [OF applyDesired_ok(1) [OF assms(1,2) ok1 s2]] by (simp add: putLocked_def Let_def)
  qed
qed

lemma changedClient_fields:
  assumes "changedClient e c allow = Some e1"
  shows "neVolumeID e1 = neVolumeID e" "nePath e1 = nePath e" "neACLEnabled e1 = neACLEnabled e" "neActive e1 = neActive e"
proof -
  obtain x e2 where "normalized x = Some e2" "neVolumeID x = neVolumeID e" "nePath x = nePath e"
      "neACLEnabled x = neACLEnabled e" "neActive x = neActive e" "neVolumeID e1 = neVolumeID e2" "nePath e1 = nePath e2"
      "neACLEnabled e1 = neACLEnabled e2" "neActive e1 = neActive e2"
    using assms by (auto simp: changedClient_def split: option.splits if_splits)
  then show "neVolumeID e1 = neVolumeID e" "nePath e1 = nePath e" "neACLEnabled e1 = neACLEnabled e" "neActive e1 = neActive e"
    by (auto simp: normalized_def split: option.splits if_splits elim!: normalizePolicy_form)
qed

lemma changedClient_ok: "exportOk cfg i e \<Longrightarrow> changedClient e c allow = Some e1 \<Longrightarrow> exportOk cfg i e1"
  using changedClient_fields [of e c allow e1] changedClient_policyOk [of e c allow e1] by (simp add: exportOk_def)

lemma commitClientChange_ok:
  assumes "etab_ok os tab" "cfgOk cfg" "bothOk F cfg tab s" "exportOk cfg i e"
    "\<And>j e'. (j, e') \<in> set (Desired s) \<Longrightarrow> j \<noteq> i \<Longrightarrow> nePath e' \<noteq> nePath e"
  shows "bothOk F cfg tab (snd (commitClientChange os cfg i e allow s))"
proof -
  obtain b s1 where s1: "persist os (updateRoot cfg (addLedger e (setDesired i e s))) = (b, s1)" by fastforce
  have ok1: "bothOk F cfg tab s1" by (rule commit_ok [OF assms s1])
  obtain d s2 where s2: "applyDesired os cfg s1 = (d, s2)" by fastforce
  show ?thesis
    using s1 s2 failClosed_ok [OF assms(1) ok1] applyOrStop_ok [OF assms(1,2) ok1] applyDesired_ok(1) [OF assms(1,2) ok1 s2]
    by (cases b) (auto simp: commitClientChange_def)
qed

lemma changeClientLocked_ok:
  assumes "etab_ok os tab" "cfgOk cfg" "sysOk F cfg tab s" "started \<longrightarrow> sStarted s"
  shows "sysOk F cfg tab (snd (changeClientLocked os cfg i c allow started s))"
proof (cases "\<exists>e e1. sStarted s \<and> map_of (Desired s) i = Some e \<and> changedClient e c allow = Some e1")
  case False
  then show ?thesis using assms(3,4) by (auto simp: changeClientLocked_def split: option.splits)
next
  case True
  then obtain e e1 where e: "sStarted s" "map_of (Desired s) i = Some e" "changedClient e c allow = Some e1" by auto
  have ok: "bothOk F cfg tab s" by (rule sysOk_both [OF assms(3) e(1)])
  have des: "desiredOk cfg (Desired s)" using bothOk_state [OF ok] by (simp add: stateOk_sys)
  note mem = map_of_SomeD [OF e(2)]
  have "bothOk F cfg tab (snd (commitClientChange os cfg i e1 allow s))"
  proof (rule commitClientChange_ok [OF assms(1,2) ok])
    show "exportOk cfg i e1" by (rule changedClient_ok [OF desiredOk_member [OF des mem] e(3)])
    fix j e' assume "(j, e') \<in> set (Desired s)" "j \<noteq> i"
    then show "nePath e' \<noteq> nePath e1" using desiredOk_path [OF des mem] changedClient_fields(2) [OF e(3)] by metis
  qed
  then show ?thesis using e assms(3) bothOk_sys by (auto simp: changeClientLocked_def)
qed

lemma removeDesired_ok:
  assumes "bothOk F cfg tab s"
  shows "bothOk F cfg tab (removeDesired i s)"
  using assms
proof (rule bothOk_cong)
  have "desiredOk cfg (AList.delete i (Desired s))" if "desiredOk cfg (Desired s)"
    using that unfolding desiredOk_def
    by (auto simp: AList.delete_eq distinct_map_filter)
  then show "stateOk cfg (sState (removeDesired i s))"
    using bothOk_state [OF assms] by (simp add: stateOk_def removeDesired_def Desired_def)
qed (simp_all add: removeDesired_def Ledger_def)

lemma removeLocked_ok:
  assumes "etab_ok os tab" "cfgOk cfg" "sysOk F cfg tab s" "started \<longrightarrow> sStarted s"
  shows "sysOk F cfg tab (snd (removeLocked os cfg i started s))"
proof (cases "sStarted s")
  case False
  then show ?thesis using assms(3,4) by (simp add: removeLocked_def)
next
  case True
  have "bothOk F cfg tab (updateRoot cfg (removeDesired i s))"
    by (intro updateRoot_ok [OF assms(2)] removeDesired_ok sysOk_both [OF assms(3) True])
  moreover obtain b s1 where s1: "persist os (updateRoot cfg (removeDesired i s)) = (b, s1)" by fastforce
  ultimately have ok1: "bothOk F cfg tab s1" by (metis persist_ok assms(1))
  show ?thesis
    using assms(3) s1 bothOk_sys [OF failClosed_ok [OF assms(1) ok1]] bothOk_sys [OF applyOrStop_ok [OF assms(1,2) ok1]]
    by (cases b) (auto simp: removeLocked_def)
qed

lemma rejectExport_ok:
  assumes "etab_ok os tab" "cfgOk cfg" "sysOk F cfg tab s"
  shows "sysOk F cfg tab (rejectExport os cfg e s)"
proof (cases "healthLocked os s")
  case True
  then have "bothOk F cfg tab s" using assms(3) by (simp add: sysOk_both healthLocked_def)
  then have "sysOk F cfg tab (snd (applyDesired os cfg s))"
    using bothOk_sys keepsD [OF keeps_applyDesired [OF assms(1,2)]] by blast
  then show ?thesis using assms(3) by (auto simp: rejectExport_def split: option.splits)
qed (use assms(3) in \<open>auto simp: rejectExport_def split: option.splits\<close>)

lemma daemonFailed_ok:
  "etab_ok os tab \<Longrightarrow> sysOk F cfg tab s \<Longrightarrow> sysOk F cfg tab (daemonFailed os s)"
  by (simp add: daemonFailed_def bothOk_sys failClosed_ok sysOk_both)

lemma Close_ok:
  assumes "etab_ok os tab" "sysOk F cfg tab s"
  shows "sysOk F cfg tab (snd (Close os s))"
proof -
  let ?s = "s\<lparr>sClosed := True\<rparr>"
  obtain a s1 where s1: "(if sStarted s then revokeOwned os ?s else (True, ?s)) = (a, s1)" by fastforce
  have "sysOk F cfg tab s1"
  proof (cases "sStarted s")
    case True
    have "bothOk F cfg tab ?s" using assms(2) True by (intro sysOk_both) simp_all
    moreover have "sameState ?s s1 \<and> tab (sWorld s1) \<subseteq> tab (sWorld ?s)"
      using revokeOwned_rows [OF assms(1), of ?s a s1] s1 True by simp
    ultimately show ?thesis using sameState_ok bothOk_sys by blast
  qed (use s1 assms(2) in auto)
  moreover have "quiet tab (osClose os)" "quiet tab (osReleaseLock os)"
    using assms(1) by (simp_all add: etab_ok_def quiet_os_def)
  ultimately have "sysOk F cfg tab (snd (osStep (osClose os) s1))"
      "sysOk F cfg tab (snd (osStep (osReleaseLock os) (snd (osStep (osClose os) s1))))"
    using sysOk_quiet by blast+
  then show ?thesis using s1 assms(2) by (simp add: Close_def split_def split: if_splits)
qed

section \<open>Histories\<close>

text \<open>
  One step of the system: a part of a method that holds the lock, a crash of the agent, or other
  processes of the node, which may remove rows and add foreign ones. \<open>Put\<close>, \<open>ChangeClient\<close> and
  \<open>Remove\<close> release the lock between \<open>Start\<close> and the change, so anything may happen in between.
\<close>

inductive nfs_step :: "'w nfs_os \<Rightarrow> nfs_config \<Rightarrow> ('w \<Rightarrow> entry set) \<Rightarrow> entry set \<Rightarrow> 'w nfs_sys \<Rightarrow> 'w nfs_sys \<Rightarrow> bool"
  for os cfg tab F where
  start: "nfs_step os cfg tab F s (snd (Start os cfg s))"
| put: "normalized e = Some e1 \<Longrightarrow> validatePut os cfg e1 w \<Longrightarrow>
     nfs_step os cfg tab F s (snd (putLocked os cfg e1 exact active s))"
| reject: "nfs_step os cfg tab F s (rejectExport os cfg e s)"
| change: "(started \<longrightarrow> sStarted s) \<Longrightarrow>
     nfs_step os cfg tab F s (snd (changeClientLocked os cfg i c allow started s))"
| remove: "(started \<longrightarrow> sStarted s) \<Longrightarrow> nfs_step os cfg tab F s (snd (removeLocked os cfg i started s))"
| daemon: "nfs_step os cfg tab F s (daemonFailed os s)"
| close: "nfs_step os cfg tab F s (snd (Close os s))"
| crash: "nfs_step os cfg tab F s (newProcess (sDisk s) (sWorld s))"
| others: "tab w \<subseteq> tab (sWorld s) \<union> F \<Longrightarrow> nfs_step os cfg tab F s (s\<lparr>sWorld := w\<rparr>)"

inductive_cases nfs_stepE: "nfs_step os cfg tab F s s'"

lemma normalized_fields: "normalized e = Some e1 \<Longrightarrow> safeExportPath (nePath e1)"
  by (auto simp: normalized_def split: option.splits if_splits elim!: normalizePolicy_form)

lemma validated_exportOk:
  assumes "normalized e = Some e1" "validatePut os cfg e1 w"
  shows "exportOk cfg (neVolumeID e1) e1"
  using assms normalized_policyOk [OF assms(1)] normalized_fields [OF assms(1)]
  by (simp add: exportOk_def validatePut_def safeExportPath_def)

lemma NewManager_cfgOk: "NewManager d r b g = Some cfg \<Longrightarrow> cfgOk cfg"
  by (auto simp: NewManager_def cfgOk_def safeExportPath_def Let_def unicast_canonical split: if_splits)

lemma nfs_step_ok:
  assumes "etab_ok os tab" "cfgOk cfg" "nfs_step os cfg tab F s s'" "sysOk F cfg tab s"
  shows "sysOk F cfg tab s'"
  using assms(3)
proof cases
  case start
  then show ?thesis using Start_ok [OF assms(1,2,4)] by simp
next
  case (put e e1 w exact active)
  then show ?thesis using putLocked_ok [OF assms(1,2,4) validated_exportOk [OF put(2,3)]] by simp
next
  case (reject e)
  then show ?thesis using rejectExport_ok [OF assms(1,2,4)] by simp
next
  case (change started i c allow)
  then show ?thesis using changeClientLocked_ok [OF assms(1,2,4)] by simp
next
  case (remove started i)
  then show ?thesis using removeLocked_ok [OF assms(1,2,4)] by simp
next
  case daemon
  then show ?thesis using daemonFailed_ok [OF assms(1,4)] by simp
next
  case close
  then show ?thesis using Close_ok [OF assms(1,4)] by simp
next
  case crash
  then show ?thesis using assms(4) by (auto simp: sysOk_def diskOk_def newProcess_def split: owner_file.splits)
next
  case (others w)
  then show ?thesis using assms(4) by (auto simp: sysOk_def diskOk_def memOk_def covers_def split: owner_file.splits)
qed

lemma nfs_steps_ok:
  assumes "etab_ok os tab" "cfgOk cfg" "(nfs_step os cfg tab F)\<^sup>*\<^sup>* s s'" "sysOk F cfg tab s"
  shows "sysOk F cfg tab s'"
  using assms(3,4) by (induction rule: rtranclp_induct) (use nfs_step_ok [OF assms(1,2)] in auto)

lemma newProcess_ok: "tab w \<subseteq> F \<Longrightarrow> sysOk F cfg tab (newProcess NoOwner w)"
  by (simp add: sysOk_def diskOk_def newProcess_def)

text \<open>The methods are such steps.\<close>

lemma Put_steps: "(nfs_step os cfg tab F)\<^sup>*\<^sup>* s (snd (Put os cfg e exact active s))"
proof (cases "osCancelled os (sWorld s) \<or> normalized e = None")
  case False
  then obtain e1 where e1: "normalized e = Some e1" by auto
  show ?thesis
  proof (cases "validatePut os cfg e1 (sWorld s)")
    case True
    let ?s = "snd (Start os cfg s)"
    have "nfs_step os cfg tab F s ?s" by (rule start)
    moreover have "nfs_step os cfg tab F ?s (snd (putLocked os cfg e1 exact True ?s))" by (rule put [OF e1 True])
    moreover have "nfs_step os cfg tab F s (snd (putLocked os cfg e1 exact False s))" by (rule put [OF e1 True])
    ultimately show ?thesis using False e1 True
      by (auto simp: Put_def andThen_def split_def intro: rtranclp.rtrancl_into_rtrancl r_into_rtranclp)
  next
    case invalid: False
    have "nfs_step os cfg tab F s (rejectExport os cfg e1 s)" by (rule reject)
    then show ?thesis using False e1 invalid by (auto simp: Put_def intro: r_into_rtranclp)
  qed
qed (auto simp: Put_def)

lemma locked_steps:
  assumes "nfs_step os cfg tab F s s1" "nfs_step os cfg tab F s1 s2"
  shows "(nfs_step os cfg tab F)\<^sup>*\<^sup>* s s2"
  using assms by (meson r_into_rtranclp rtranclp.rtrancl_into_rtrancl)

lemma ChangeClient_steps: "(nfs_step os cfg tab F)\<^sup>*\<^sup>* s (snd (ChangeClient os cfg i c allow s))"
proof (cases "osCancelled os (sWorld s)")
  case False
  have "nfs_step os cfg tab F (snd (Start os cfg s))
      (snd (changeClientLocked os cfg i c allow (fst (Start os cfg s)) (snd (Start os cfg s))))"
    by (rule change) (simp add: Start_started)
  then show ?thesis using False locked_steps [OF start] by (simp add: ChangeClient_def split_def)
qed (simp add: ChangeClient_def)

lemma Remove_steps: "(nfs_step os cfg tab F)\<^sup>*\<^sup>* s (snd (Remove os cfg i s))"
proof (cases "osCancelled os (sWorld s)")
  case False
  have "nfs_step os cfg tab F (snd (Start os cfg s)) (snd (removeLocked os cfg i (fst (Start os cfg s)) (snd (Start os cfg s))))"
    by (rule remove) (simp add: Start_started)
  then show ?thesis using False locked_steps [OF start] by (simp add: Remove_def split_def)
qed (simp add: Remove_def)

end
