(* ===== verification/Nfs_Properties.thy ===== *)
theory Nfs_Properties
  imports Nfs_Steps
begin

text \<open>
  What the NFS manager guarantees over every history of its methods, of crashes and of other
  processes: it never loses track of a row it granted, a denied client is gone when the call
  returns, and an export that was put is served to its clients and to nobody else.
\<close>

definition nfs_reachable :: "'w nfs_os \<Rightarrow> nfs_config \<Rightarrow> ('w \<Rightarrow> entry set) \<Rightarrow> entry set \<Rightarrow> 'w nfs_sys \<Rightarrow> bool" where
  "nfs_reachable os cfg tab F s \<longleftrightarrow>
     (\<exists>w. tab w \<subseteq> F \<and> (nfs_step os cfg tab F)\<^sup>*\<^sup>* (newProcess NoOwner w) s)"

lemma reachable_ok:
  assumes "etab_ok os tab" "NewManager d r b g = Some cfg" "nfs_reachable os cfg tab F s"
  shows "sysOk F cfg tab s"
  using assms nfs_steps_ok [OF assms(1) NewManager_cfgOk [OF assms(2)]] newProcess_ok
  unfolding nfs_reachable_def by metis

lemma reachable_steps:
  "nfs_reachable os cfg tab F s \<Longrightarrow> (nfs_step os cfg tab F)\<^sup>*\<^sup>* s s' \<Longrightarrow> nfs_reachable os cfg tab F s'"
  unfolding nfs_reachable_def by (meson rtranclp_trans)

text \<open>
  C6: Write-ahead ownership. Through any history of starts, puts, client changes, removals,
  daemon failures, closes and crashes, interleaved with other processes that touch only foreign
  rows, every row of the kernel's admission table is either foreign or owned by the ledger in
  \<open>owner.json\<close>, so that a restarted agent can always find and withdraw what it granted.
\<close>

theorem granted_rows_recorded:
  assumes "etab_ok os tab" "NewManager stateDir root bind guarded = Some cfg" "nfs_reachable os cfg tab F s"
    "row \<in> tab (sWorld s)" "row \<notin> F"
  shows "\<exists>d. sDisk s = Owner d \<and> ownsIn (dsLedger d) row"
  using reachable_ok [OF assms(1-3)] assms(4,5)
  by (auto simp: sysOk_def diskOk_def covers_def split: owner_file.splits)

lemma map_of_update_root: "i \<noteq> rootVolumeID \<Longrightarrow> map_of (AList.update rootVolumeID R ds) i = map_of ds i"
  by (simp add: update_conv')

lemma bothOk_desired: "bothOk F cfg tab s \<Longrightarrow> desiredOk cfg (Desired s)"
  using bothOk_state by (auto simp: stateOk_sys)

text \<open>In a converged state the rows of a path are those of the one policy that has it.\<close>

lemma converged_row:
  assumes "converged F tab s" "bothOk F cfg tab s" "map_of (Desired s) i = Some e" "row \<in> tab (sWorld s)"
    "enPath row = nePath e" "row \<notin> F"
  shows "enClient row \<in> set (exportClients e) \<and> neActive e"
proof -
  obtain j e' where e': "admits s j e'" "ownsRow e' row" using assms(1,4,6) by (auto simp: converged_def)
  have "e' = e"
    using desiredOk_path [OF bothOk_desired [OF assms(2)] map_of_SomeD [OF assms(3)], of j e'] e' assms(5)
    by (auto simp: admits_def ownsRow_def)
  then show ?thesis using e' by (auto simp: admits_def ownsRow_def)
qed

text \<open>Without owned rows every row is foreign.\<close>

lemma stopped_rows:
  assumes "etab_ok os tab" "bothOk F cfg tab s" "stopOwned os s = (True, s')" "row \<in> tab (sWorld s')"
  shows "row \<in> F"
  using stopOwned_rows [OF assms(1,3)] assms(2,4) by (auto simp: bothOk_def memOk_def covers_def owns_def)

lemma applyOrStop_rows:
  assumes "etab_ok os tab" "cfgOk cfg" "bothOk F cfg tab s" "applyOrStop os cfg s = (True, s')"
    "map_of (Desired s) i = Some e" "i \<noteq> rootVolumeID"
  shows "map_of (Desired s') i = Some e"
    and "row \<in> tab (sWorld s') \<Longrightarrow> enPath row = nePath e \<Longrightarrow> row \<in> F \<or> enClient row \<in> set (exportClients e)"
proof -
  have "map_of (Desired s') i = Some e \<and>
      (\<forall>row\<in>tab (sWorld s'). enPath row = nePath e \<longrightarrow> row \<in> F \<or> enClient row \<in> set (exportClients e))"
  proof (cases "healthLocked os s")
    case True
    then have a: "applyDesired os cfg s = (True, s')" using assms(4) by (simp add: applyOrStop_def)
    note ok = applyDesired_ok [OF assms(1-3) a]
    have "map_of (Desired s') i = Some e" using ok(2) [OF TrueI] by (auto simp: map_of_update_root assms(5,6))
    then show ?thesis using converged_row [OF _ ok(1), of i e] ok(2) by blast
  next
    case False
    then have a: "stopOwned os s = (True, s')" using assms(4) by (simp add: applyOrStop_def)
    then show ?thesis using stopped_rows [OF assms(1,3) a] stopOwned_rows [OF assms(1) a] assms(5) sameStateD [of s s'] by simp
  qed
  then show "map_of (Desired s') i = Some e"
    and "row \<in> tab (sWorld s') \<Longrightarrow> enPath row = nePath e \<Longrightarrow> row \<in> F \<or> enClient row \<in> set (exportClients e)" by blast+
qed

lemma denied_clients:
  assumes "changedClient e c False = Some e1" "unicastAddress c = Some ip" "neACLEnabled e1"
  shows "addrString ip \<notin> set (exportClients e1)"
  using assms by (auto simp: changedClient_def exportClients_def split: option.splits)

text \<open>What a successful client change committed.\<close>

lemma commit_desired:
  assumes "etab_ok os tab" "persist os (updateRoot cfg (addLedger e (setDesired i e s))) = (r, s1)" "i \<noteq> rootVolumeID"
  shows "map_of (Desired s1) i = Some e" "sErrors s1 = sErrors s"
  using persist_fields [OF assms(2)] assms(3) by (simp_all add: updateRoot_desired update_conv')

lemma deny_commits:
  assumes "etab_ok os tab" "cfgOk cfg" "sysOk F cfg tab s" "started \<longrightarrow> sStarted s" "i \<noteq> rootVolumeID"
    "changeClientLocked os cfg i c False started s = (True, s')" "map_of (Desired s') i = Some e" "neACLEnabled e"
  obtains e0 s1 where "changedClient e0 c False = Some e" "bothOk F cfg tab s1" "map_of (Desired s1) i = Some e"
    "applyOrStop os cfg s1 = (True, s')"
proof -
  have st: "sStarted s" using assms(4,6) by (auto simp: changeClientLocked_def split: if_splits)
  have ok: "bothOk F cfg tab s" by (rule sysOk_both [OF assms(3) st])
  obtain e0 e1 where e: "map_of (Desired s) i = Some e0" "changedClient e0 c False = Some e1"
      "if neACLEnabled e1 then commitClientChange os cfg i e1 False s = (True, s') else s' = s"
    using assms(6,7) by (auto simp: changeClientLocked_def split: if_splits option.splits)
  have acl: "neACLEnabled e1"
    using e assms(7,8) changedClient_fields(3) [OF e(2)] by (auto split: if_splits)
  note mem = map_of_SomeD [OF e(1)]
  have free: "nePath e' \<noteq> nePath e1" if "(j, e') \<in> set (Desired s)" "j \<noteq> i" for j e'
    using desiredOk_path [OF bothOk_desired [OF ok] mem that(1)] that(2) changedClient_fields(2) [OF e(2)] by metis
  obtain b s1 where s1: "persist os (updateRoot cfg (addLedger e1 (setDesired i e1 s))) = (b, s1)" by fastforce
  have ok1: "bothOk F cfg tab s1"
    by (rule commit_ok [OF assms(1,2) ok changedClient_ok [OF desiredOk_member [OF bothOk_desired [OF ok] mem] e(2)] free s1])
  have a: "applyOrStop os cfg s1 = (True, s')"
    using e(3) acl s1 failClosed_False [of os s1] by (cases b) (auto simp: commitClientChange_def)
  have d: "map_of (Desired s1) i = Some e1" by (rule commit_desired(1) [OF assms(1) s1 assms(5)])
  then have "e1 = e" using applyOrStop_rows(1) [OF assms(1,2) ok1 a d assms(5)] assms(7) by simp
  then show thesis using that e(2) ok1 d a by blast
qed


text \<open>An admitted policy of a converged state is served to its clients and to nobody else.\<close>

definition served :: "entry set \<Rightarrow> entry set \<Rightarrow> nfs_export \<Rightarrow> bool" where
  "served F rows e \<longleftrightarrow>
     (\<forall>row\<in>rows. enPath row = nePath e \<longrightarrow> row \<in> F \<or> enClient row \<in> set (exportClients e)) \<and>
     (\<forall>c\<in>set (exportClients e). \<exists>row\<in>rows.
        enPath row = nePath e \<and> enClient row = c \<and> optionsMatch (enOptions row) (exportOptions e))"

lemma converged_served:
  assumes "converged F tab s" "bothOk F cfg tab s" "map_of (Desired s) i = Some e" "neActive e" "i \<notin> set (sErrors s)"
  shows "served F (tab (sWorld s)) e"
proof -
  have "admits s i e" using assms(3-5) by (simp add: admits_def map_of_SomeD)
  then show ?thesis
    using converged_row [OF assms(1-3)] assms(1) unfolding served_def converged_def by blast
qed

lemma putPolicy_fields:
  assumes "putPolicy ds e exact = Some e1"
  shows "neVolumeID e1 = neVolumeID e \<and> nePath e1 = nePath e \<and> neReadOnly e1 = neReadOnly e \<and> neSquash e1 = neSquash e \<and>
     neACLEnabled e1 = neACLEnabled e \<and> (exact \<longrightarrow> neClients e1 = neClients e)"
  using assms by (auto simp: putPolicy_def Let_def split: option.splits if_splits)

lemma putLocked_served:
  assumes "etab_ok os tab" "cfgOk cfg" "sysOk F cfg tab s" "exportOk cfg (neVolumeID e) e" "neVolumeID e \<noteq> rootVolumeID"
    "putLocked os cfg e exact True s = (True, s')"
  obtains e1 where "putPolicy (Desired s) e exact = Some e1" "map_of (Desired s') (neVolumeID e) = Some (e1\<lparr>neActive := True\<rparr>)"
    "served F (tab (sWorld s')) (e1\<lparr>neActive := True\<rparr>)"
proof -
  obtain e1 where e1: "putPolicy (Desired s) e exact = Some e1" and h: "healthLocked os s"
    using assms(6) by (auto simp: putLocked_def split: if_splits option.splits)
  have ok: "bothOk F cfg tab s" using assms(3) h by (simp add: sysOk_both healthLocked_def)
  note p = putPolicy_ok [OF bothOk_desired [OF ok] assms(4) e1]
  let ?e = "e1\<lparr>neActive := True\<rparr>"
  have vid: "neVolumeID e1 = neVolumeID e" using p by (simp add: exportOk_def)
  obtain b s1 where s1: "persist os (updateRoot cfg (addLedger ?e (setDesired (neVolumeID e) ?e s))) = (b, s1)" by fastforce
  have ok1: "bothOk F cfg tab s1"
    by (rule commit_ok [OF assms(1,2) ok _ _ s1]) (use p vid in auto)
  have d: "map_of (Desired s1) (neVolumeID e) = Some ?e" by (rule commit_desired(1) [OF assms(1) s1 assms(5)])
  have a: "applyDesired os cfg s1 = (True, s')" "neVolumeID e \<notin> set (sErrors s')"
    using assms(6) e1 h s1 vid failClosed_False [of os s1]
    by (cases b; auto simp: putLocked_def Let_def split: if_splits prod.splits)+
  note ap = applyDesired_ok [OF assms(1,2) ok1 a(1)]
  have d': "map_of (Desired s') (neVolumeID e) = Some ?e"
    using ap(2) [OF TrueI] d by (auto simp: map_of_update_root assms(5))
  show thesis using that [OF e1 d'] converged_served [OF _ ap(1) d' _ a(2)] ap(2) by simp
qed


end
