(* ===== verification/Nfs_Progress.thy ===== *)
theory Nfs_Progress
  imports Nfs_Properties
begin

text \<open>
  Progress of the NFS manager: on a node where the export utility and the file system do their
  work, and where no foreign row claims a path or an identity of the manager, a convergence pass
  succeeds, so that removing a volume withdraws it.
\<close>

section \<open>A node that works\<close>

definition rowKey :: "entry \<Rightarrow> string \<times> string" where
  "rowKey row = (enPath row, enClient row)"

text \<open>
  The table can be read and has one row for a path and client; \<open>owner.json\<close> can be written; the
  daemons run; the same exports are valid all the time; exporting a valid one leaves a row that
  matches its options, unexporting succeeds, and both leave the other rows alone.
\<close>

definition revokes :: "'w nfs_os \<Rightarrow> ('w \<Rightarrow> entry set) \<Rightarrow> bool" where
  "revokes os tab \<longleftrightarrow>
     (\<forall>w e c p. policyOk e \<longrightarrow> c \<in> set (exportClients e) \<longrightarrow> fst (osExportfs os (revokeArgs c p) w) \<and>
        (\<forall>r\<in>tab w. rowKey r \<noteq> (p, c) \<longrightarrow> r \<in> tab (snd (osExportfs os (revokeArgs c p) w))))"

definition grants :: "'w nfs_os \<Rightarrow> ('w \<Rightarrow> entry set) \<Rightarrow> (nfs_export \<Rightarrow> bool) \<Rightarrow> bool" where
  "grants os tab valid \<longleftrightarrow>
     (\<forall>w e c. valid e \<longrightarrow> policyOk e \<longrightarrow> c \<in> set (exportClients e) \<longrightarrow>
        (let (done, w1) = osExportfs os (grantArgs (exportOptions e) c (nePath e)) w in
         done \<and> (\<exists>r\<in>tab w1. rowKey r = (nePath e, c) \<and> optionsMatch (enOptions r) (exportOptions e)) \<and>
         (\<forall>r\<in>tab w. rowKey r \<noteq> (nePath e, c) \<longrightarrow> r \<in> tab w1)))"

definition works :: "'w nfs_os \<Rightarrow> ('w \<Rightarrow> entry set) \<Rightarrow> (nfs_export \<Rightarrow> bool) \<Rightarrow> bool" where
  "works os tab valid \<longleftrightarrow>
     (\<forall>w. \<exists>rows. kernelList os w = Some rows \<and> distinct (map rowKey rows)) \<and>
     (\<forall>w. fst (osPersist os w) = PersistOk) \<and> (\<forall>w. osHealth os w) \<and> (\<forall>w. fst (osPrivateEtab os w)) \<and>
     (\<forall>e w. kernelValidate os e w = (if valid e then Valid else Invalid)) \<and> revokes os tab \<and> grants os tab valid"

text \<open>A row that the ledger does not own and that has no path or identity of the manager.\<close>

definition undisputed :: "nfs_config \<Rightarrow> 'w nfs_sys \<Rightarrow> entry \<Rightarrow> bool" where
  "undisputed cfg s row \<longleftrightarrow> ownsIn (Ledger s) row \<or>
     (\<forall>e\<in>set (Ledger s) \<union> snd ` set (Desired s) \<union> {emptyRoot cfg}.
        enPath row \<noteq> nePath e \<and> optionValue (enOptions row) ''fsid'' \<noteq> exportFsid e)"

lemma works_list:
  assumes "works os tab valid" "etab_ok os tab"
  obtains rows where "kernelList os w = Some rows" "set rows = tab w" "distinct (map rowKey rows)"
  using assms etab_list unfolding works_def by metis

lemma works_keys:
  assumes "works os tab valid" "etab_ok os tab"
  shows "inj_on rowKey (tab w)"
  by (rule works_list [OF assms, of w]) (simp add: distinct_map)

lemma works_persist:
  assumes "works os tab valid"
  shows "fst (persist os s)"
proof -
  have "fst (osPersist os (sWorld s)) = PersistOk" using assms by (simp add: works_def)
  then show ?thesis by (cases "osPersist os (sWorld s)") (simp add: persist_def)
qed

lemma private_step:
  assumes "works os tab valid" "etab_ok os tab"
  obtains w1 where "tab w1 = tab w" "runExportfs os args w = osExportfs os args w1"
proof -
  obtain b w1 where "osPrivateEtab os w = (b, w1)" by fastforce
  moreover from this have b using assms(1) unfolding works_def by (metis fst_conv)
  ultimately show thesis
    using that [of w1] quietD [OF etab_private [OF assms(2)], of w] by (simp add: runExportfs_def)
qed

lemma revoke_works:
  assumes "works os tab valid" "etab_ok os tab" "policyOk e" "c \<in> set (exportClients e)"
  shows "fst (kernelRevoke os p c w)"
    and "r \<in> tab w \<Longrightarrow> rowKey r \<noteq> (p, c) \<Longrightarrow> r \<in> tab (snd (kernelRevoke os p c w))"
proof -
  obtain w1 where w1: "tab w1 = tab w" "kernelRevoke os p c w = osExportfs os (revokeArgs c p) w1"
    using private_step [OF assms(1,2), of w "revokeArgs c p"] unfolding kernelRevoke_def by metis
  have "revokes os tab" using assms(1) by (simp add: works_def)
  then show "fst (kernelRevoke os p c w)"
    and "r \<in> tab w \<Longrightarrow> rowKey r \<noteq> (p, c) \<Longrightarrow> r \<in> tab (snd (kernelRevoke os p c w))"
    unfolding revokes_def w1(2) using w1(1) assms(3,4) by blast+
qed

lemma grant_works:
  assumes "works os tab valid" "etab_ok os tab" "valid e" "policyOk e" "c \<in> set (exportClients e)"
  shows "fst (kernelGrant os e c w)"
    and "\<exists>r\<in>tab (snd (kernelGrant os e c w)). rowKey r = (nePath e, c) \<and> optionsMatch (enOptions r) (exportOptions e)"
    and "r \<in> tab w \<Longrightarrow> rowKey r \<noteq> (nePath e, c) \<Longrightarrow> r \<in> tab (snd (kernelGrant os e c w))"
proof -
  have v: "kernelValidate os e w = Valid" using assms(1,3) by (simp add: works_def)
  let ?args = "grantArgs (exportOptions e) c (nePath e)"
  obtain w1 where w1: "tab w1 = tab w" "kernelGrant os e c w = osExportfs os ?args w1"
    using private_step [OF assms(1,2), of w ?args] v unfolding kernelGrant_def by metis
  have "grants os tab valid" using assms(1) by (simp add: works_def)
  then have "let (done, w2) = osExportfs os ?args w1 in
         done \<and> (\<exists>r\<in>tab w2. rowKey r = (nePath e, c) \<and> optionsMatch (enOptions r) (exportOptions e)) \<and>
         (\<forall>r\<in>tab w1. rowKey r \<noteq> (nePath e, c) \<longrightarrow> r \<in> tab w2)"
    unfolding grants_def using assms(3-5) by blast
  then show "fst (kernelGrant os e c w)"
    and "\<exists>r\<in>tab (snd (kernelGrant os e c w)). rowKey r = (nePath e, c) \<and> optionsMatch (enOptions r) (exportOptions e)"
    and "r \<in> tab w \<Longrightarrow> rowKey r \<noteq> (nePath e, c) \<Longrightarrow> r \<in> tab (snd (kernelGrant os e c w))"
    unfolding w1(2) w1(1) [symmetric] by (simp_all add: split_def Let_def)
qed

section \<open>Wanted rows\<close>

lemma desiredLoop_works:
  assumes "works os tab valid" "etab_ok os tab"
  shows "\<exists>wanted' s1. desiredLoop os cfg ds wanted s = (Some wanted', s1) \<and> sFailure s1 = sFailure s \<and>
    sClosed s1 = sClosed s \<and> sStarted s1 = sStarted s"
proof (induction ds arbitrary: wanted s)
  case (Cons d ds)
  obtain i e where d: "d = (i, e)" by fastforce
  show ?case
  proof (cases "i = rootVolumeID \<or> \<not> neActive e")
    case True
    then show ?thesis using Cons.IH [of wanted s] by (simp add: d)
  next
    case False
    show ?thesis
    proof (cases rule: validateActivation_cases [OF assms(2), of cfg e s])
      case 1
      have "kernelValidate os e (sWorld s) \<noteq> RuntimeFailure" using assms(1) by (simp add: works_def)
      then show ?thesis using 1 by (auto simp: validateActivation_def split: validation.splits prod.splits bool.splits)
    next
      case (2 w)
      then show ?thesis
        using False Cons.IH [of wanted "addError (neVolumeID e) (s\<lparr>sWorld := w\<rparr>)"] by (simp add: d addError_def)
    next
      case (3 w)
      then show ?thesis
        using False Cons.IH [of "wantRows e wanted" "addLedger e (s\<lparr>sWorld := w\<rparr>)"] by (simp add: d addLedger_def setLedger_def)
    qed
  qed
qed simp

lemma desiredLoop_valid:
  assumes "works os tab valid" "etab_ok os tab" "desiredLoop os cfg ds wanted s = (r, s1)" "desiredOk cfg ds" "r \<noteq> None"
    "(i, e) \<in> set ds" "i \<noteq> rootVolumeID" "neActive e" "i \<notin> set (sErrors s1)"
  shows "valid e"
  using assms(3-6)
proof (induction ds arbitrary: wanted s)
  case (Cons d ds)
  obtain j e' where d: "d = (j, e')" by fastforce
  note ok = desiredOk_Cons [OF Cons.prems(2) [unfolded d]]
  show ?case
  proof (cases "j = rootVolumeID \<or> \<not> neActive e'")
    case True
    then show ?thesis using Cons.IH [of wanted s] Cons.prems ok assms(7,8) by (auto simp: d)
  next
    case False
    show ?thesis
    proof (cases rule: validateActivation_cases [OF assms(2), of cfg e' s])
      case 1
      then show ?thesis using False Cons.prems(1,3) by (auto simp: d)
    next
      case (2 w)
      let ?s = "addError (neVolumeID e') (s\<lparr>sWorld := w\<rparr>)"
      have l: "desiredLoop os cfg ds wanted ?s = (r, s1)" using 2 False Cons.prems(1) by (simp add: d)
      have "j \<in> set (sErrors s1)" using desiredLoop_errors [OF assms(2) l] ok by auto
      then show ?thesis using Cons.IH [OF l] ok Cons.prems(3,4) assms(9) by (auto simp: d)
    next
      case (3 w)
      have l: "desiredLoop os cfg ds (wantRows e' wanted) (addLedger e' (s\<lparr>sWorld := w\<rparr>)) = (r, s1)"
        using 3 False Cons.prems(1) by (simp add: d)
      have "kernelValidate os e' (sWorld s) = Valid"
        using 3(2) by (auto simp: validateActivation_def split: validation.splits)
      then have "valid e'" using assms(1) by (auto simp: works_def split: if_splits)
      then show ?thesis using Cons.IH [OF l] ok Cons.prems(3,4) by (auto simp: d)
    qed
  qed
qed simp

text \<open>The pseudoroot directory is usable when no export of it can be invalid.\<close>

definition rootUsable :: "nfs_config \<Rightarrow> (nfs_export \<Rightarrow> bool) \<Rightarrow> bool" where
  "rootUsable cfg valid \<longleftrightarrow> (\<forall>e. neVolumeID e = rootVolumeID \<longrightarrow> nePath e = cfgExportRoot cfg \<longrightarrow> valid e)"

lemma rootExport_fields: "neVolumeID (rootExport cfg errs ds) = rootVolumeID" "nePath (rootExport cfg errs ds) = cfgExportRoot cfg"
  by (simp_all add: rootExport_def Let_def rootLoop_fields emptyRoot_def)

lemma desiredEntries_works:
  assumes "works os tab valid" "etab_ok os tab" "cfgOk cfg" "rootUsable cfg valid" "stateOk cfg (sState s)"
  obtains wanted s1 where "desiredEntries os cfg s = (Some wanted, s1)" "sFailure s1 = sFailure s" "sClosed s1 = sClosed s"
    "sStarted s1 = sStarted s" "\<forall>i e. admits s1 i e \<longrightarrow> valid e"
    "\<forall>e\<in>set (Ledger s1). e \<in> set (Ledger s) \<union> snd ` set (Desired s) \<or>
       neVolumeID e = rootVolumeID \<and> nePath e = cfgExportRoot cfg"
proof -
  obtain w2 s2 where l: "desiredLoop os cfg (Desired s) [] (s\<lparr>sErrors := []\<rparr>) = (Some w2, s2)"
      "sFailure s2 = sFailure s" "sClosed s2 = sClosed s" "sStarted s2 = sStarted s"
    using desiredLoop_works [OF assms(1,2), of cfg "Desired s" "[]" "s\<lparr>sErrors := []\<rparr>"] by auto
  note f = desiredLoop_frame [OF assms(2) l(1)]
  have ok: "desiredOk cfg (Desired s)" using assms(5) by (simp add: stateOk_sys)
  let ?R = "rootExport cfg (sErrors s2) (Desired s2)"
  have "valid ?R" using assms(4) rootExport_fields [of cfg "sErrors s2" "Desired s2"] unfolding rootUsable_def by blast
  then have "kernelValidate os ?R w = Valid" for w using assms(1) by (simp add: works_def)
  then obtain wanted where w: "desiredEntries os cfg s = (Some wanted, updateRoot cfg s2)"
    using l(1) by (cases "neActive ?R") (simp_all add: desiredEntries_def rootEntries_def Let_def)
  have D: "Desired s2 = Desired s" using f by simp
  have "valid e" if "admits (updateRoot cfg s2) i e" for i e
    using that desiredLoop_valid [OF assms(1,2) l(1) ok, of i e] \<open>valid ?R\<close>
    unfolding admits_updateRoot [OF assms(3), of s2, unfolded D, OF ok] D by (auto split: if_splits)
  moreover have "e \<in> set (Ledger s) \<union> snd ` set (Desired s) \<or> neVolumeID e = rootVolumeID \<and> nePath e = cfgExportRoot cfg"
    if "e \<in> set (Ledger (updateRoot cfg s2))" for e
    using that f rootExport_fields [of cfg "sErrors s2" "Desired s2"] by (auto simp: updateRoot_def Let_def split: if_splits)
  moreover have "sFailure (updateRoot cfg s2) = sFailure s" "sClosed (updateRoot cfg s2) = sClosed s" "sStarted (updateRoot cfg s2) = sStarted s"
    using l(2-4) by (simp_all add: updateRoot_def Let_def addLedger_def setLedger_def setDesired_def)
  ultimately show thesis using that w by blast
qed

lemma exportFsid_root: "neVolumeID e = rootVolumeID \<Longrightarrow> exportFsid e = exportFsid (emptyRoot cfg)"
  by (simp add: exportFsid_def emptyRoot_def)

lemma undisputed_free:
  assumes "undisputed cfg s row" "set (Ledger s) \<subseteq> set (Ledger s1)"
    "\<forall>e\<in>set (Ledger s1). e \<in> set (Ledger s) \<union> snd ` set (Desired s) \<or>
       neVolumeID e = rootVolumeID \<and> nePath e = cfgExportRoot cfg"
  shows "owns s1 row \<or> \<not> foreignConflict s1 row"
proof (cases "ownsIn (Ledger s) row")
  case True
  then show ?thesis using assms(2) by (auto simp: owns_def ownsIn_def list_ex_iff)
next
  case False
  have "enPath row \<noteq> nePath e \<and> optionValue (enOptions row) ''fsid'' \<noteq> exportFsid e" if "e \<in> set (Ledger s1)" for e
    using assms(1) bspec [OF assms(3) that] False exportFsid_root [of e cfg] by (auto simp: undisputed_def emptyRoot_def)
  then show ?thesis by (auto simp: foreignConflict_def list_ex_iff)
qed

section \<open>Revoking and granting\<close>

text \<open>A table in which every row is wanted or undisputed.\<close>

definition tidy :: "'w nfs_sys \<Rightarrow> wanted \<Rightarrow> entry set \<Rightarrow> bool" where
  "tidy s wanted rows \<longleftrightarrow> (\<forall>row\<in>rows. if owns s row then matched wanted row else \<not> foreignConflict s row)"

definition covered :: "wanted \<Rightarrow> entry set \<Rightarrow> string \<times> string \<Rightarrow> bool" where
  "covered wanted rows k \<longleftrightarrow> (\<exists>row\<in>rows. rowKey row = k \<and> matched wanted row)"

lemma revokeObsolete_works:
  assumes "works os tab valid" "etab_ok os tab"
    "\<And>row. row \<in> set rows \<Longrightarrow> owns s row \<or> \<not> foreignConflict s row" "set rows \<subseteq> R" "inj_on rowKey R" "tab (sWorld s) \<subseteq> R"
    "\<forall>e\<in>set (Ledger s). policyOk e"
  shows "\<exists>s1. revokeObsolete os rows wanted s = (True, s1) \<and>
    (\<forall>row\<in>tab (sWorld s). \<not> owns s row \<or> matched wanted row \<longrightarrow> row \<in> tab (sWorld s1))"
  using assms(3,4,6,7)
proof (induction rows arbitrary: s)
  case (Cons row rows)
  show ?case
  proof (cases "owns s row \<and> \<not> matched wanted row")
    case False
    then have same: "revokeObsolete os (row # rows) wanted s = revokeObsolete os rows wanted s"
      using Cons.prems(1) [of row] by (auto simp: matched_Bex)
    have pre: "owns s r \<or> \<not> foreignConflict s r" if "r \<in> set rows" for r using Cons.prems(1) [of r] that by simp
    have "set rows \<subseteq> R" using Cons.prems(2) by simp
    then show ?thesis unfolding same using Cons.prems(3,4) by (intro Cons.IH pre)
  next
    case True
    let ?r = "kernelRevoke os (enPath row) (enClient row) (sWorld s)"
    let ?s = "s\<lparr>sWorld := snd ?r\<rparr>"
    obtain e where e: "policyOk e" "enClient row \<in> set (exportClients e)"
      using True Cons.prems(4) by (auto simp: owns_def ownsIn_def list_ex_iff ownsRow_def)
    have own: "owns ?s = owns s" "foreignConflict ?s = foreignConflict s" by (rule owns_cong, simp)+
    have sub: "tab (snd ?r) \<subseteq> R" using revoke_subset [OF assms(2)] Cons.prems(3) by blast
    have pre: "owns ?s r \<or> \<not> foreignConflict ?s r" if "r \<in> set rows" for r
      using Cons.prems(1) [of r] that unfolding own by simp
    have "set rows \<subseteq> R" "tab (sWorld ?s) \<subseteq> R" "\<forall>e\<in>set (Ledger ?s). policyOk e" using Cons.prems(2,4) sub by simp_all
    then have "\<exists>s1. revokeObsolete os rows wanted ?s = (True, s1) \<and>
        (\<forall>row\<in>tab (sWorld ?s). \<not> owns ?s row \<or> matched wanted row \<longrightarrow> row \<in> tab (sWorld s1))"
      by (intro Cons.IH pre)
    then obtain s1 where s1: "revokeObsolete os rows wanted ?s = (True, s1)"
        "\<forall>row\<in>tab (sWorld ?s). \<not> owns ?s row \<or> matched wanted row \<longrightarrow> row \<in> tab (sWorld s1)" by blast
    have "osStep (kernelRevoke os (enPath row) (enClient row)) s = (True, ?s)"
      using revoke_works(1) [OF assms(1,2) e, of "enPath row" "sWorld s"] by (simp add: osStep_def split_def)
    then have "revokeObsolete os (row # rows) wanted s = (True, s1)"
      using True s1(1) by (simp add: matched_Bex andThen_def)
    moreover have "r \<in> tab (sWorld s1)" if "r \<in> tab (sWorld s)" "\<not> owns s r \<or> matched wanted r" for r
    proof -
      have "rowKey r \<noteq> rowKey row" using inj_onD [OF assms(5), of r row] that True Cons.prems(2,3) by auto
      then show ?thesis using revoke_works(2) [OF assms(1,2) e that(1)] s1(2) that unfolding own by (simp add: rowKey_def)
    qed
    ultimately show ?thesis by blast
  qed
qed simp

text \<open>One grant keeps the table tidy, keeps what is covered, and covers its own key.\<close>

lemma grant_step:
  assumes "works os tab valid" "etab_ok os tab" "valid e" "policyOk e" "c \<in> set (exportClients e)"
    "map_of wanted (nePath e, c) = Some (exportEntry e c)"
    "\<And>row w. row \<in> tab w \<Longrightarrow> matched wanted row \<Longrightarrow> owns s row" "tidy s wanted (tab w)"
  shows "tidy s wanted (tab (snd (kernelGrant os e c w)))"
    and "covered wanted (tab w) k \<or> k = (nePath e, c) \<Longrightarrow> covered wanted (tab (snd (kernelGrant os e c w))) k"
proof -
  let ?w = "snd (kernelGrant os e c w)"
  note g = grant_works [OF assms(1-5), where w = w]
  obtain new where new: "new \<in> tab ?w" "rowKey new = (nePath e, c)" "optionsMatch (enOptions new) (exportOptions e)"
    using g(2) by blast
  then have m: "matched wanted new" using assms(6) by (auto simp: matched_def rowKey_def exportEntry_def)
  have old: "r = new \<or> r \<in> tab w" if "r \<in> tab ?w" for r
    using grant_row [OF assms(2,4,5) that] inj_onD [OF works_keys [OF assms(1,2), of ?w], of r new] that new by (auto simp: rowKey_def)
  show "tidy s wanted (tab ?w)" unfolding tidy_def
  proof
    fix row assume "row \<in> tab ?w"
    from old [OF this] show "if owns s row then matched wanted row else \<not> foreignConflict s row"
      using m assms(7) [OF new(1)] assms(8) by (auto simp: tidy_def)
  qed
  show "covered wanted (tab ?w) k" if "covered wanted (tab w) k \<or> k = (nePath e, c)"
  proof (cases "k = (nePath e, c)")
    case True
    then show ?thesis using new m by (auto simp: covered_def)
  next
    case False
    then show ?thesis using that g(3) by (auto simp: covered_def)
  qed
qed

text \<open>What granting achieves step by step.\<close>

definition progressed :: "('w \<Rightarrow> entry set) \<Rightarrow> wanted \<Rightarrow> 'w nfs_sys \<Rightarrow> 'w nfs_sys \<Rightarrow> bool" where
  "progressed tab wanted s s1 \<longleftrightarrow> sameState s s1 \<and> tidy s wanted (tab (sWorld s1)) \<and>
     (\<forall>k. covered wanted (tab (sWorld s)) k \<longrightarrow> covered wanted (tab (sWorld s1)) k)"

lemma tidy_cong: "sameState s s1 \<Longrightarrow> tidy s1 = tidy s"
  using sameStateD [of s s1] owns_cong [of s1 s] by (simp add: tidy_def fun_eq_iff)

lemma progressed_refl: "tidy s wanted (tab (sWorld s)) \<Longrightarrow> progressed tab wanted s s"
  by (simp add: progressed_def)

lemma progressed_trans: "progressed tab wanted s s1 \<Longrightarrow> progressed tab wanted s1 s2 \<Longrightarrow> progressed tab wanted s s2"
  using sameState_trans [of s s1 s2] tidy_cong [of s s1] by (simp add: progressed_def)

lemma progressed_tidy: "progressed tab wanted s s1 \<Longrightarrow> tidy s1 wanted (tab (sWorld s1))"
  using tidy_cong [of s s1] by (simp add: progressed_def)

definition grantable :: "(nfs_export \<Rightarrow> bool) \<Rightarrow> wanted \<Rightarrow> nfs_export \<Rightarrow> bool" where
  "grantable valid wanted e \<longleftrightarrow> policyOk e \<and>
     (\<forall>c want. map_of wanted (nePath e, c) = Some want \<longrightarrow> valid e \<and> c \<in> set (exportClients e) \<and> want = exportEntry e c)"

definition ownsMatched :: "('w \<Rightarrow> entry set) \<Rightarrow> wanted \<Rightarrow> 'w nfs_sys \<Rightarrow> bool" where
  "ownsMatched tab wanted s \<longleftrightarrow> (\<forall>w. \<forall>row\<in>tab w. matched wanted row \<longrightarrow> owns s row)"

lemma ownsMatched_cong: "sameState s s1 \<Longrightarrow> ownsMatched tab wanted s1 = ownsMatched tab wanted s"
  using sameStateD [of s s1] owns_cong [of s1 s] by (simp add: ownsMatched_def)

lemma ownsMatched_progressed: "ownsMatched tab wanted s \<Longrightarrow> progressed tab wanted s s1 \<Longrightarrow> ownsMatched tab wanted s1"
  unfolding progressed_def using ownsMatched_cong by blast

definition existingOk :: "((string \<times> string) \<rightharpoonup> entry) \<Rightarrow> wanted \<Rightarrow> entry set \<Rightarrow> bool" where
  "existingOk existing wanted rows \<longleftrightarrow>
     (\<forall>k row. existing k = Some row \<longrightarrow> rowKey row = k \<and> (matched wanted row \<longrightarrow> covered wanted rows k))"

lemma existingOk_mono:
  "existingOk existing wanted (tab (sWorld s)) \<Longrightarrow> progressed tab wanted s s1 \<Longrightarrow> existingOk existing wanted (tab (sWorld s1))"
  by (auto simp: existingOk_def progressed_def)

lemma grant_progressed:
  assumes "works os tab valid" "etab_ok os tab" "grantable valid wanted e" "ownsMatched tab wanted s"
    "tidy s wanted (tab (sWorld s))" "map_of wanted (nePath e, c) = Some want"
  shows "\<exists>s1. osStep (kernelGrant os e c) s = (True, s1) \<and> progressed tab wanted s s1 \<and> covered wanted (tab (sWorld s1)) (nePath e, c)"
proof -
  have e: "valid e" "policyOk e" "c \<in> set (exportClients e)" "map_of wanted (nePath e, c) = Some (exportEntry e c)"
    using assms(3,6) by (auto simp: grantable_def)
  note g = grant_step [OF assms(1,2) e _ assms(5)]
  let ?w = "kernelGrant os e c (sWorld s)"
  have "owns s row" if "row \<in> tab w" "matched wanted row" for row w using assms(4) that by (auto simp: ownsMatched_def)
  note g = g [OF this]
  have "osStep (kernelGrant os e c) s = (True, s\<lparr>sWorld := snd ?w\<rparr>)"
    using grant_works(1) [OF assms(1,2) e(1-3), of "sWorld s"] by (simp add: osStep_def split_def)
  moreover have "progressed tab wanted s (s\<lparr>sWorld := snd ?w\<rparr>)"
    using g by (auto simp: progressed_def sameState_def)
  ultimately show ?thesis using g(2) by auto
qed

lemma grantClients_works:
  assumes "works os tab valid" "etab_ok os tab" "grantable valid wanted e" "ownsMatched tab wanted s"
    "tidy s wanted (tab (sWorld s))" "existingOk existing wanted (tab (sWorld s))"
  shows "\<exists>s1. grantClients os existing wanted e cs s = (True, s1) \<and> progressed tab wanted s s1 \<and>
    (\<forall>c\<in>set cs. map_of wanted (nePath e, c) \<noteq> None \<longrightarrow> covered wanted (tab (sWorld s1)) (nePath e, c))"
  using assms(4-6)
proof (induction cs arbitrary: s)
  case Nil
  then show ?case by (simp add: progressed_refl)
next
  case (Cons c cs)
  have "\<exists>s0. grantClients os existing wanted e (c # cs) s = grantClients os existing wanted e cs s0 \<and> progressed tab wanted s s0 \<and>
      (map_of wanted (nePath e, c) \<noteq> None \<longrightarrow> covered wanted (tab (sWorld s0)) (nePath e, c))"
  proof (cases "map_of wanted (nePath e, c)")
    case None
    then show ?thesis using progressed_refl [of s] Cons.prems(2) by (intro exI [of _ s]) simp
  next
    case (Some want)
    show ?thesis
    proof (cases "\<exists>row\<in>set_option (existing (nePath e, c)). optionsMatch (enOptions row) (enOptions want)")
      case True
      then obtain row where row: "existing (nePath e, c) = Some row" "optionsMatch (enOptions row) (enOptions want)" by auto
      then have "rowKey row = (nePath e, c)" using Cons.prems(3) by (simp add: existingOk_def)
      then have "matched wanted row" using Some row(2) by (auto simp: matched_def rowKey_def)
      then have "covered wanted (tab (sWorld s)) (nePath e, c)" using Cons.prems(3) row(1) by (simp add: existingOk_def)
      then show ?thesis using Some True progressed_refl [of s] Cons.prems(2) by (intro exI [of _ s]) simp
    next
      case False
      obtain s0 where "osStep (kernelGrant os e c) s = (True, s0)" "progressed tab wanted s s0" "covered wanted (tab (sWorld s0)) (nePath e, c)"
        using grant_progressed [OF assms(1-3) Cons.prems(1,2) Some] by blast
      then show ?thesis using Some False by (intro exI [of _ s0]) (simp add: andThen_def)
    qed
  qed
  then obtain s0 where s0: "grantClients os existing wanted e (c # cs) s = grantClients os existing wanted e cs s0" "progressed tab wanted s s0"
      "map_of wanted (nePath e, c) \<noteq> None \<longrightarrow> covered wanted (tab (sWorld s0)) (nePath e, c)"
    by (elim exE conjE)
  from Cons.IH [OF ownsMatched_progressed [OF Cons.prems(1) s0(2)] progressed_tidy [OF s0(2)] existingOk_mono [OF Cons.prems(3) s0(2)]]
  obtain s1 where s1: "grantClients os existing wanted e cs s0 = (True, s1)" "progressed tab wanted s0 s1"
      "\<forall>c\<in>set cs. map_of wanted (nePath e, c) \<noteq> None \<longrightarrow> covered wanted (tab (sWorld s1)) (nePath e, c)"
    by (elim exE conjE)
  have "covered wanted (tab (sWorld s1)) (nePath e, c)" if "map_of wanted (nePath e, c) \<noteq> None"
    using s0(3) s1(2) that by (simp add: progressed_def)
  then show ?case using s0(1) s1 progressed_trans [OF s0(2) s1(2)] by auto
qed

lemma grantExports_works:
  assumes "works os tab valid" "etab_ok os tab" "\<forall>(i, e)\<in>set ds. grantable valid wanted e"
    "ownsMatched tab wanted s" "tidy s wanted (tab (sWorld s))" "existingOk existing wanted (tab (sWorld s))"
  shows "\<exists>s1. grantExports os existing wanted ds s = (True, s1) \<and> progressed tab wanted s s1 \<and>
    (\<forall>(i, e)\<in>set ds. \<forall>c\<in>set (exportClients e). map_of wanted (nePath e, c) \<noteq> None \<longrightarrow>
       covered wanted (tab (sWorld s1)) (nePath e, c))"
  using assms(3-6)
proof (induction ds arbitrary: s)
  case Nil
  then show ?case by (simp add: progressed_refl)
next
  case (Cons d ds)
  obtain i e where d: "d = (i, e)" by fastforce
  have ge: "grantable valid wanted e" using Cons.prems(1) by (simp add: d)
  from grantClients_works [OF assms(1,2) ge Cons.prems(2-4), of "exportClients e"]
  obtain s0 where s0: "grantClients os existing wanted e (exportClients e) s = (True, s0)" "progressed tab wanted s s0"
      "\<forall>c\<in>set (exportClients e). map_of wanted (nePath e, c) \<noteq> None \<longrightarrow> covered wanted (tab (sWorld s0)) (nePath e, c)"
    by (elim exE conjE)
  have "\<forall>(j, e')\<in>set ds. grantable valid wanted e'" using Cons.prems(1) by simp
  from Cons.IH [OF this ownsMatched_progressed [OF Cons.prems(2) s0(2)] progressed_tidy [OF s0(2)] existingOk_mono [OF Cons.prems(4) s0(2)]]
  obtain s1 where s1: "grantExports os existing wanted ds s0 = (True, s1)" "progressed tab wanted s0 s1"
      "\<forall>(i, e)\<in>set ds. \<forall>c\<in>set (exportClients e). map_of wanted (nePath e, c) \<noteq> None \<longrightarrow>
       covered wanted (tab (sWorld s1)) (nePath e, c)"
    by (elim exE conjE)
  have "covered wanted (tab (sWorld s1)) (nePath e, c)"
    if "c \<in> set (exportClients e)" "map_of wanted (nePath e, c) \<noteq> None" for c
    using s0(3) s1(2) that by (simp add: progressed_def)
  moreover have "grantExports os existing wanted (d # ds) s = (True, s1)" using s0(1) s1(1) by (simp add: d andThen_def)
  ultimately show ?case using s1(3) progressed_trans [OF s0(2) s1(2)] by (simp add: d)
qed

section \<open>Verifying\<close>

lemma verifyRows_works:
  assumes "distinct (map rowKey rows)" "tidy s wanted (set rows)"
  shows "verifyRows s rows wanted = Some (filter (\<lambda>(k, v). k \<notin> rowKey ` {r \<in> set rows. owns s r}) wanted)"
  using assms
proof (induction rows arbitrary: wanted)
  case Nil
  then show ?case by (simp add: split_def)
next
  case (Cons row rows)
  show ?case
  proof (cases "owns s row")
    case False
    then have "{r. (r = row \<or> r \<in> set rows) \<and> owns s r} = {r \<in> set rows. owns s r}" by auto
    then show ?thesis using Cons.IH [of wanted] Cons.prems False by (simp add: tidy_def)
  next
    case True
    let ?d = "AList.delete (rowKey row) wanted"
    obtain want where w: "map_of wanted (enPath row, enClient row) = Some want" "optionsMatch (enOptions row) (enOptions want)"
      using Cons.prems(2) True by (auto simp: tidy_def matched_def)
    have ne: "rowKey r \<noteq> rowKey row" if "r \<in> set rows" for r using Cons.prems(1) that by (simp, metis image_eqI)
    have "map_of ?d (enPath r, enClient r) = map_of wanted (enPath r, enClient r)" if "r \<in> set rows" for r
      using ne [OF that] by (auto simp add: delete_conv' rowKey_def)
    then have "tidy s ?d (set rows)"
      using Cons.prems(2) unfolding tidy_def matched_def by (metis list.set_intros(2))
    then have "verifyRows s rows ?d = Some (filter (\<lambda>(k, v). k \<notin> rowKey ` {r \<in> set rows. owns s r}) ?d)"
      using Cons.IH [of ?d] Cons.prems(1) by simp
    moreover have own: "{r \<in> set (row # rows). owns s r} = insert row {r \<in> set rows. owns s r}" using True by auto
    moreover have "filter (\<lambda>(k, v). k \<notin> rowKey ` {r \<in> set rows. owns s r}) ?d =
        filter (\<lambda>(k, v). k \<notin> rowKey ` {r \<in> set (row # rows). owns s r}) wanted"
      unfolding AList.delete_eq filter_filter own by (intro filter_cong) auto
    ultimately have "verifyRows s rows ?d = Some (filter (\<lambda>(k, v). k \<notin> rowKey ` {r \<in> set (row # rows). owns s r}) wanted)"
      by (simp only:)
    moreover have "verifyRows s (row # rows) wanted = verifyRows s rows ?d" using True w by (simp add: rowKey_def)
    ultimately show ?thesis by (simp only:)
  qed
qed

section \<open>A pass succeeds\<close>

lemma wantedSpecD:
  "wantedSpec s wanted \<Longrightarrow> map_of wanted (p, c) = Some en \<Longrightarrow>
     \<exists>i e. admits s i e \<and> p = nePath e \<and> c \<in> set (exportClients e) \<and> en = exportEntry e c"
  by (simp add: wantedSpec_def)

lemma spec_ownsMatched:
  assumes "etab_ok os tab" "wantedSpec s wanted"
  shows "ownsMatched tab wanted s"
  unfolding ownsMatched_def
proof (intro allI ballI impI)
  fix w row assume "row \<in> tab w" "matched wanted row"
  then obtain i e where "admits s i e" "ownsRow e row" using matched_owned [OF assms] by blast
  moreover from this have "e \<in> set (Ledger s)" using assms(2) by (simp add: wantedSpec_def)
  ultimately show "owns s row" by (simp add: owns_def ownsIn_member)
qed

lemma spec_grantable:
  assumes "desiredOk cfg (Desired s)" "wantedSpec s wanted" "\<forall>i e. admits s i e \<longrightarrow> valid e"
  shows "\<forall>(i, e)\<in>set (Desired s). grantable valid wanted e"
proof safe
  fix i e assume mem: "(i, e) \<in> set (Desired s)"
  have "valid e \<and> c \<in> set (exportClients e) \<and> want = exportEntry e c"
    if w: "map_of wanted (nePath e, c) = Some want" for c want
  proof -
    obtain j e' where e': "admits s j e'" "nePath e = nePath e'" "c \<in> set (exportClients e')" "want = exportEntry e' c"
      using wantedSpecD [OF assms(2) w] by blast
    then have "e' = e" using desiredOk_path [OF assms(1) mem] by (auto simp: admits_def)
    then show ?thesis using e' assms(3) by blast
  qed
  then show "grantable valid wanted e" using desiredOk_policy [OF assms(1) mem] by (simp add: grantable_def)
qed

lemma spec_existing:
  assumes "\<And>row. row \<in> set rows \<Longrightarrow> matched wanted row \<Longrightarrow> row \<in> R"
  shows "existingOk (existingRows s rows) wanted R"
  unfolding existingOk_def
proof (intro allI impI)
  fix k row assume "existingRows s rows k = Some row"
  from map_of_SomeD [OF this [unfolded existingRows_def]]
  have "row \<in> set rows" "rowKey row = k" by (auto simp: rowKey_def)
  then show "rowKey row = k \<and> (matched wanted row \<longrightarrow> covered wanted R k)"
    using assms by (auto simp: covered_def)
qed

lemma verify_works:
  assumes "works os tab valid" "etab_ok os tab" "wantedSpec s wanted" "tidy s wanted (tab (sWorld s))"
    "\<forall>(i, e)\<in>set (Desired s). \<forall>c\<in>set (exportClients e). map_of wanted (nePath e, c) \<noteq> None \<longrightarrow>
       covered wanted (tab (sWorld s)) (nePath e, c)"
  shows "verifyAdmissions os wanted s"
proof -
  obtain rows where rows: "kernelList os (sWorld s) = Some rows" "set rows = tab (sWorld s)" "distinct (map rowKey rows)"
    by (rule works_list [OF assms(1,2)])
  have "k \<in> rowKey ` {r \<in> set rows. owns s r}" if kv: "(k, v) \<in> set wanted" for k v
  proof -
    obtain p c where k: "k = (p, c)" by fastforce
    obtain want where want: "map_of wanted (p, c) = Some want"
      using weak_map_of_SomeI [OF kv] k by auto
    then obtain i e where e: "(i, e) \<in> set (Desired s)" "c \<in> set (exportClients e)" "p = nePath e"
      using wantedSpecD [OF assms(3)] unfolding admits_def by blast
    then have "covered wanted (tab (sWorld s)) (p, c)" using assms(5) want by auto
    then obtain row where "row \<in> tab (sWorld s)" "rowKey row = k" "matched wanted row" unfolding covered_def k by blast
    then show ?thesis using spec_ownsMatched [OF assms(2,3)] rows(2) by (auto simp: ownsMatched_def)
  qed
  then have "filter (\<lambda>(k, v). k \<notin> rowKey ` {r \<in> set rows. owns s r}) wanted = []" by (auto simp: filter_empty_conv)
  then show ?thesis using verifyRows_works [OF rows(3), of s wanted] assms(4) rows(1,2) by (simp add: verifyAdmissions_def)
qed

lemma kernel_steps_work:
  assumes "works os tab valid" "etab_ok os tab" "stateOk cfg (sState s)" "wantedSpec s wanted"
    "\<forall>i e. admits s i e \<longrightarrow> valid e" "healthLocked os s" "set rows = tab (sWorld s)"
    "\<forall>row\<in>set rows. owns s row \<or> \<not> foreignConflict s row"
  shows "fst (inOrder [revokeObsolete os rows wanted, grantDesired os rows wanted,
    require (verifyAdmissions os wanted), require (healthLocked os), change rebuildLedger, persistOrFail os] s)"
proof -
  obtain s1 where s1: "revokeObsolete os rows wanted s = (True, s1)"
      "\<forall>row\<in>tab (sWorld s). \<not> owns s row \<or> matched wanted row \<longrightarrow> row \<in> tab (sWorld s1)"
    using revokeObsolete_works [OF assms(1,2) _ _ works_keys [OF assms(1,2), of "sWorld s"], of rows s wanted] assms(3,7,8)
    by (auto simp: stateOk_sys)
  note rev = revokeObsolete_rows [OF assms(2) s1(1)]
  have same: "sameState s s1" using rev by simp
  have t1: "tidy s1 wanted (tab (sWorld s1))" using rev assms(7) tidy_cong [OF same] by (auto simp: tidy_def)
  have w1: "wantedSpec s1 wanted" by (rule wantedSpec_cong [OF same assms(4)])
  have st: "stateOk cfg (sState s1)" "healthLocked os s1"
    using sameStateD [OF same] assms(1,3,6) by (simp_all add: healthLocked_def works_def)
  have ok1: "desiredOk cfg (Desired s1)" using st(1) by (simp add: stateOk_sys)
  have g: "\<forall>(i, e)\<in>set (Desired s1). grantable valid wanted e"
    using assms(5) by (intro spec_grantable [OF ok1 w1]) (simp add: admits_cong [OF same])
  have ex: "existingOk (existingRows s1 rows) wanted (tab (sWorld s1))" using s1(2) assms(7) by (intro spec_existing) simp
  from grantExports_works [OF assms(1,2) g spec_ownsMatched [OF assms(2) w1] t1 ex]
  obtain s2 where s2: "grantDesired os rows wanted s1 = (True, s2)" "progressed tab wanted s1 s2"
      "\<forall>(i, e)\<in>set (Desired s1). \<forall>c\<in>set (exportClients e). map_of wanted (nePath e, c) \<noteq> None \<longrightarrow>
       covered wanted (tab (sWorld s2)) (nePath e, c)" unfolding grantDesired_def by (elim exE conjE)
  have same2: "sameState s1 s2" using s2(2) by (simp add: progressed_def)
  have "verifyAdmissions os wanted s2"
    using verify_works [OF assms(1,2) wantedSpec_cong [OF same2 w1] progressed_tidy [OF s2(2)]] s2(3) sameStateD [OF same2] by simp
  moreover have "healthLocked os s2" using st(2) sameStateD [OF same2] assms(1) by (simp add: healthLocked_def works_def)
  moreover have "fst (persistOrFail os (rebuildLedger s2))"
    using works_persist [OF assms(1), of "rebuildLedger s2"] by (simp add: persistOrFail_def split_def)
  ultimately show ?thesis using s1(1) s2(1) by (simp add: andThen_def require_def change_def split_def)
qed

lemma converge_works:
  assumes "works os tab valid" "etab_ok os tab" "cfgOk cfg" "rootUsable cfg valid" "stateOk cfg (sState s)"
    "healthLocked os s" "\<forall>row\<in>tab (sWorld s). undisputed cfg s row"
  shows "fst (converge os cfg s)"
proof -
  obtain rows where rows: "kernelList os (sWorld s) = Some rows" "set rows = tab (sWorld s)"
    by (rule works_list [OF assms(1,2)])
  obtain wanted s1 where s1: "desiredEntries os cfg s = (Some wanted, s1)" "sFailure s1 = sFailure s" "sClosed s1 = sClosed s"
      "sStarted s1 = sStarted s" "\<forall>i e. admits s1 i e \<longrightarrow> valid e"
      "\<forall>e\<in>set (Ledger s1). e \<in> set (Ledger s) \<union> snd ` set (Desired s) \<or>
       neVolumeID e = rootVolumeID \<and> nePath e = cfgExportRoot cfg"
    by (rule desiredEntries_works [OF assms(1-5)])
  have u: "undisturbed tab s s1" "stateOk cfg (sState s1)" using desiredEntries_cases [OF assms(2,3,5) s1(1)] by metis+
  have spec: "wantedSpec s1 wanted" using desiredEntries_wanted [OF assms(2,3,5) s1(1)] by (auto simp: wantedSpec_def)
  obtain s2 where s2: "persist os s1 = (True, s2)" using works_persist [OF assms(1), of s1] by (cases "persist os s1") simp
  obtain w where w: "tab w = tab (sWorld s1)" "s2 = s1\<lparr>sDisk := Owner (sState s1), sWorld := w\<rparr>"
    by (rule persist_done [OF etab_persist [OF assms(2)] s2])
  have "admits s2 = admits s1" "Ledger s2 = Ledger s1" using w(2) by (simp_all add: admits_def fun_eq_iff)
  then have "wantedSpec s2 wanted" "\<forall>i e. admits s2 i e \<longrightarrow> valid e" using spec s1(5) by (simp_all add: wantedSpec_def)
  moreover have "healthLocked os s2" using assms(1,6) w(2) s1(2-4) by (simp add: healthLocked_def works_def)
  moreover have "\<forall>row\<in>set rows. owns s2 row \<or> \<not> foreignConflict s2 row"
    using undisputed_free [of cfg s _ s2] assms(7) rows(2) u(1) s1(6) \<open>Ledger s2 = Ledger s1\<close> by (simp add: undisturbed_def)
  moreover have "set rows = tab (sWorld s2)" using rows(2) w u(1) by (simp add: undisturbed_def)
  ultimately have "fst (inOrder [revokeObsolete os rows wanted, grantDesired os rows wanted,
      require (verifyAdmissions os wanted), require (healthLocked os), change rebuildLedger, persistOrFail os] s2)"
    using kernel_steps_work [OF assms(1,2), of cfg s2 wanted rows] u(2) w(2) by simp
  then show ?thesis using rows(1) s1(1) s2 by (simp add: converge_def andThen_def)
qed

section \<open>Removing a volume\<close>

lemma Start_healthy: "healthLocked os s \<Longrightarrow> \<not> osCancelled os (sWorld s) \<Longrightarrow> Start os cfg s = (True, s)"
  by (simp add: Start_def healthLocked_def)

text \<open>The state a removal has committed before it converges.\<close>

lemma removal_committed:
  assumes "works os tab valid" "etab_ok os tab" "cfgOk cfg" "bothOk F cfg tab s" "healthLocked os s"
    "\<forall>row\<in>tab (sWorld s). undisputed cfg s row" "i \<noteq> rootVolumeID"
  obtains s1 where "persist os (updateRoot cfg (removeDesired i s)) = (True, s1)" "bothOk F cfg tab s1" "healthLocked os s1"
    "\<forall>row\<in>tab (sWorld s1). undisputed cfg s1 row" "map_of (Desired s1) i = None"
    "\<forall>(j, e)\<in>set (Desired s1). j = rootVolumeID \<or> (j, e) \<in> set (Desired s) \<and> j \<noteq> i"
proof -
  let ?s = "updateRoot cfg (removeDesired i s)"
  obtain s1 where s1: "persist os ?s = (True, s1)" using works_persist [OF assms(1), of ?s] by (cases "persist os ?s") simp
  obtain w where w: "tab w = tab (sWorld ?s)" "s1 = ?s\<lparr>sDisk := Owner (sState ?s), sWorld := w\<rparr>"
    by (rule persist_done [OF etab_persist [OF assms(2)] s1])
  let ?R = "rootExport cfg (sErrors s) (AList.delete i (Desired s))"
  have D: "Desired s1 = AList.update rootVolumeID ?R (AList.delete i (Desired s))"
    using w(2) updateRoot_desired [of cfg "removeDesired i s"] by (simp add: removeDesired_def Desired_def)
  have L: "set (Ledger s) \<subseteq> set (Ledger s1)" "set (Ledger s1) \<subseteq> insert ?R (set (Ledger s))"
    using w(2) by (auto simp: updateRoot_def Let_def removeDesired_def Ledger_def Desired_def addLedger_def setLedger_def setDesired_def)
  have "distinct (map fst (AList.delete i (Desired s)))"
    using bothOk_desired [OF assms(4)] by (simp add: desiredOk_def distinct_delete)
  from set_update [OF this, of rootVolumeID ?R]
  have mem: "j = rootVolumeID \<and> e = ?R \<or> (j, e) \<in> set (Desired s) \<and> j \<noteq> i" if "(j, e) \<in> set (Desired s1)" for j e
    using that unfolding D by (auto simp: AList.delete_eq)
  have free: "undisputed cfg s1 row" if "row \<in> tab (sWorld s1)" for row
  proof -
    have u: "undisputed cfg s row" using assms(6) that w by (simp add: removeDesired_def)
    show ?thesis
    proof (cases "ownsIn (Ledger s) row")
      case True
      then show ?thesis using L(1) by (auto simp: undisputed_def ownsIn_def list_ex_iff)
    next
      case False
      have "e \<in> set (Ledger s) \<union> snd ` set (Desired s) \<or> e = ?R" if "e \<in> set (Ledger s1) \<union> snd ` set (Desired s1)" for e
        using that L(2) by (auto dest!: mem simp: image_iff intro: bexI)
      moreover have "nePath ?R = nePath (emptyRoot cfg)" "exportFsid ?R = exportFsid (emptyRoot cfg)"
        using exportFsid_root [of ?R cfg] rootExport_fields [of cfg "sErrors s" "AList.delete i (Desired s)"]
        by (simp_all add: emptyRoot_def)
      ultimately show ?thesis using u False unfolding undisputed_def by (metis UnCI UnE insertI1 singletonD)
    qed
  qed
  have ok: "bothOk F cfg tab s1"
    by (rule persist_ok [OF assms(2) updateRoot_ok [OF assms(3) removeDesired_ok [OF assms(4)]] s1])
  have h: "healthLocked os s1"
    using assms(1,5) w(2) by (auto simp: healthLocked_def works_def updateRoot_def Let_def removeDesired_def addLedger_def setLedger_def setDesired_def)
  have "map_of (Desired s1) i = None" unfolding D using assms(7) by (simp add: update_conv' delete_conv')
  then show thesis using that s1 ok h free mem by blast
qed

text \<open>The path of a removed volume belongs to no policy of the state that has converged.\<close>

lemma removed_row:
  assumes "cfgOk cfg" "bothOk F cfg tab s" "map_of (Desired s) i = Some e" "i \<noteq> rootVolumeID" "bothOk F cfg tab s'"
    "converged F tab s' \<and> \<not> sFailure s' \<and> (\<exists>R. Desired s' = AList.update rootVolumeID R (Desired s1))"
    "row \<in> tab (sWorld s')" "enPath row = nePath e"
    "\<forall>(j, e)\<in>set (Desired s1). j = rootVolumeID \<or> (j, e) \<in> set (Desired s) \<and> j \<noteq> i"
    "distinct (map fst (Desired s1))"
  shows "row \<in> F"
proof (rule ccontr)
  assume "row \<notin> F"
  then obtain j e' where e': "admits s' j e'" "ownsRow e' row" using assms(6,7) by (auto simp: converged_def)
  then have mem: "(j, e') \<in> set (Desired s')" and p: "nePath e' = nePath e"
    using assms(8) by (simp_all add: admits_def ownsRow_def)
  note i = map_of_SomeD [OF assms(3)]
  show False
  proof (cases "j = rootVolumeID")
    case True
    then have "nePath e' = cfgExportRoot cfg"
      using desiredOk_member [OF bothOk_desired [OF assms(5)] mem] by (simp add: exportOk_def)
    then show ?thesis using root_other_path [OF assms(1) bothOk_desired [OF assms(2)] i assms(4)] p by simp
  next
    case False
    then have "(j, e') \<in> set (Desired s1)" using mem assms(6) set_update [OF assms(10)] by auto
    then have "(j, e') \<in> set (Desired s)" "j \<noteq> i" using assms(9) False by auto
    then show ?thesis using desiredOk_path [OF bothOk_desired [OF assms(2)] i] p by metis
  qed
qed

text \<open>
  C19: On a node where the export utility, the file system and the daemons work, and where no
  foreign row claims a path or an identity of the manager, removing a volume from a healthy
  manager returns success: the volume is gone from the stored policies and no row but a foreign
  one exports its path any more. The pass needs no retry, whatever rows and policies were there.
\<close>

theorem removal_succeeds:
  assumes "etab_ok os tab" "works os tab valid" "NewManager stateDir root bind guarded = Some cfg" "rootUsable cfg valid"
    "nfs_reachable os cfg tab F s" "healthLocked os s" "\<not> osCancelled os (sWorld s)"
    "\<forall>row\<in>tab (sWorld s). undisputed cfg s row" "map_of (Desired s) i = Some e" "i \<noteq> rootVolumeID"
  shows "\<exists>s'. Remove os cfg i s = (True, s') \<and> map_of (Desired s') i = None \<and> \<not> sFailure s' \<and>
     (\<forall>row\<in>tab (sWorld s'). enPath row = nePath e \<longrightarrow> row \<in> F)"
proof -
  note cfg = NewManager_cfgOk [OF assms(3)]
  have st: "sStarted s" using assms(6) by (simp add: healthLocked_def)
  have ok: "bothOk F cfg tab s" by (rule sysOk_both [OF reachable_ok [OF assms(1,3,5)] st])
  obtain s1 where s1: "persist os (updateRoot cfg (removeDesired i s)) = (True, s1)" "bothOk F cfg tab s1" "healthLocked os s1"
      "\<forall>row\<in>tab (sWorld s1). undisputed cfg s1 row" "map_of (Desired s1) i = None"
      "\<forall>(j, e)\<in>set (Desired s1). j = rootVolumeID \<or> (j, e) \<in> set (Desired s) \<and> j \<noteq> i"
    by (rule removal_committed [OF assms(2,1) cfg ok assms(6,8,10)])
  have "fst (converge os cfg s1)" by (rule converge_works [OF assms(2,1) cfg assms(4) bothOk_state [OF s1(2)] s1(3,4)])
  then obtain s' where a: "applyDesired os cfg s1 = (True, s')" by (cases "converge os cfg s1") (simp add: applyDesired_def)
  then have "Remove os cfg i s = (True, s')"
    using Start_healthy [OF assms(6,7), of cfg] assms(7) s1(1,3) by (simp add: Remove_def removeLocked_def applyOrStop_def)
  moreover note ap = applyDesired_ok [OF assms(1) cfg s1(2) a]
  have "map_of (Desired s') i = None" using ap(2) [OF TrueI] s1(5) by (auto simp: map_of_update_root assms(10))
  moreover have "row \<in> F" if "row \<in> tab (sWorld s')" "enPath row = nePath e" for row
    using removed_row [OF cfg ok assms(9,10) ap(1) ap(2) [OF TrueI] that s1(6)] bothOk_desired [OF s1(2)] by (simp add: desiredOk_def)
  ultimately show ?thesis using ap(2) by blast
qed

end
