(* ===== verification/Nfs_Table.thy ===== *)
theory Nfs_Table
  imports Nfs_Progress
begin

text \<open>
  An admission table kept as text, the way the export utility keeps it: one line for each path and
  client. The manager's parser reads every line back, exporting replaces a line and unexporting
  removes it. This gives an operating system on which the hypotheses about the export utility
  hold.
\<close>

section \<open>Lines and rows\<close>

text \<open>A byte that is neither white space nor part of a longer character.\<close>

definition visible :: "char \<Rightarrow> bool" where
  "visible c \<longleftrightarrow> (let n = of_char c :: nat in 33 \<le> n \<and> n < 127)"

lemma visible_not: "visible c \<Longrightarrow> \<not> visible d \<Longrightarrow> c \<noteq> d"
  by auto

lemma not_visible [simp]:
  "\<not> visible (CHR 0x09)" "\<not> visible (CHR 0x0A)" "\<not> visible (CHR 0x0B)" "\<not> visible (CHR 0x0C)" "\<not> visible (CHR 0x0D)"
  "\<not> visible (CHR 0x20)" "\<not> visible (CHR 0xC2)" "\<not> visible (CHR 0xE1)" "\<not> visible (CHR 0xE2)" "\<not> visible (CHR 0xE3)"
  by (simp_all add: visible_def)

lemma spaceLen_visible [simp]: "visible c \<Longrightarrow> spaceLen (c # cs) = 0"
proof -
  assume v: "visible c"
  have "c \<noteq> CHR 0x09" "c \<noteq> CHR 0x0A" "c \<noteq> CHR 0x0B" "c \<noteq> CHR 0x0C" "c \<noteq> CHR 0x0D" "c \<noteq> CHR 0x20" "c \<noteq> CHR 0xC2"
      "c \<noteq> CHR 0xE1" "c \<noteq> CHR 0xE2" "c \<noteq> CHR 0xE3"
    by (rule visible_not [OF v], simp only: not_visible simp_thms)+
  then show ?thesis by (simp add: spaceLen_def numeral_2_eq_2 numeral_3_eq_3)
qed

lemma spaceLen_space [simp]: "spaceLen (CHR '' '' # cs) = 1"
  by (simp add: spaceLen_def)

lemma fieldsFrom_visible:
  "list_all visible v \<Longrightarrow> fieldsFrom cur (v @ rest) = fieldsFrom (rev v @ cur) rest"
  by (induction v arbitrary: cur) auto

definition rowText :: "entry \<Rightarrow> string" where
  "rowText row = enPath row @ '' '' @ enClient row @ ''('' @ enOptions row @ '')''"

definition clientChar :: "char \<Rightarrow> bool" where
  "clientChar c \<longleftrightarrow> visible c \<and> c \<notin> {CHR ''('', CHR ''['', CHR '']''}"

definition rowOk :: "entry \<Rightarrow> bool" where
  "rowOk row \<longleftrightarrow> enPath row \<noteq> [] \<and> hd (enPath row) = CHR ''/'' \<and> list_all visible (enPath row) \<and>
     enClient row \<noteq> [] \<and> list_all clientChar (enClient row) \<and> list_all visible (enOptions row) \<and>
     length (rowText row) < maxScanTokenSize \<and>
     list_all (\<lambda>opt. prefix ''fsid='' opt \<longrightarrow> drop 5 opt = optionValue (enOptions row) ''fsid'')
       (splitOn (CHR '','') (enOptions row))"

lemma rowOk_visible:
  "rowOk row \<Longrightarrow> list_all visible (enPath row) \<and> list_all visible (enClient row) \<and> list_all visible (enOptions row)"
  by (auto simp: rowOk_def clientChar_def elim: list.pred_mono_strong)

lemma rowText_fields:
  assumes "rowOk row"
  shows "stringFields (rowText row) = [enPath row, enClient row @ ''('' @ enOptions row @ '')'']"
proof -
  let ?f = "enClient row @ ''('' @ enOptions row @ '')''"
  have v: "list_all visible (enPath row)" "list_all visible ?f" "enPath row \<noteq> []"
    using assms by (auto simp: rowOk_def clientChar_def list_all_iff visible_def)
  have "fieldsFrom [] (rowText row) = fieldsFrom (rev (enPath row)) (CHR '' '' # ?f)"
    using fieldsFrom_visible [OF v(1), of "[]"] by (simp add: rowText_def)
  also have "\<dots> = [enPath row] @ fieldsFrom [] (?f @ [])" using v(3) by (simp add: endField_def)
  also have "fieldsFrom [] (?f @ []) = [?f]"
    unfolding fieldsFrom_visible [OF v(2)] by (simp add: endField_def)
  finally show ?thesis by (simp add: stringFields_def)
qed

lemma parse_rowText:
  assumes "rowOk row"
  shows "parseEtabLine (rowText row) = Some (Some row)"
proof -
  have p: "enPath row \<noteq> []" "hd (enPath row) = CHR ''/''" and c: "enClient row \<noteq> []" "list_all clientChar (enClient row)"
    using assms by (auto simp: rowOk_def)
  have "CHR ''('' \<notin> set (enClient row)" using c(2) by (auto simp: list_all_iff clientChar_def)
  then have i: "indexByte (enClient row @ CHR ''('' # enOptions row @ '')'') (CHR ''('') = Some (length (enClient row))"
    by (rule indexByte_append)
  have "clientChar (last (enClient row))" "clientChar (hd (enClient row))" using c by (auto simp: list_all_iff)
  then have "trimClient (enClient row) = enClient row" using c(1) by (auto simp: trimClient_def clientChar_def)
  then show ?thesis using p c(1) i by (auto simp: parseEtabLine_def rowText_fields [OF assms] Let_def)
qed

section \<open>The file\<close>

definition tableText :: "entry list \<Rightarrow> string" where
  "tableText rows = concat (map (\<lambda>row. rowText row @ [CHR 0x0A]) rows)"

lemma splitOn_line: "c \<notin> set l \<Longrightarrow> splitOn c (l @ c # rest) = l # splitOn c rest"
  by (induction l) auto

lemma rowText_plain:
  assumes "rowOk row"
  shows "CHR 0x0A \<notin> set (rowText row)" "dropCR (rowText row) = rowText row"
proof -
  have "visible x \<or> x \<in> {CHR '' '', CHR ''('', CHR '')''}" if "x \<in> set (rowText row)" for x
    using that rowOk_visible [OF assms] by (auto simp: rowText_def list_all_iff)
  from this [of "CHR 0x0A"] show "CHR 0x0A \<notin> set (rowText row)" by auto
  show "dropCR (rowText row) = rowText row" by (simp add: dropCR_def rowText_def)
qed

lemma tableText_lines:
  "list_all rowOk rows \<Longrightarrow> splitOn (CHR 0x0A) (tableText rows) = map rowText rows @ [[]]"
  by (induction rows) (auto simp: tableText_def splitOn_line rowText_plain)

lemma parse_tableText:
  assumes "list_all rowOk rows"
  shows "parseEtab (tableText rows) = Some rows"
proof -
  have "\<not> list_ex (\<lambda>l. length l \<ge> maxScanTokenSize) (map rowText rows)"
    using assms by (auto simp: list_ex_iff list_all_iff rowOk_def)
  moreover have "map dropCR (map rowText rows) = map rowText rows"
    using assms rowText_plain(2) by (auto simp: list_all_iff)
  ultimately have "scanLines (tableText rows) = Some (map rowText rows)"
    by (simp add: scanLines_def tableText_lines [OF assms] Let_def)
  moreover have "parseEtabLines (map rowText rows) = Some rows"
    using assms by (induction rows) (simp_all add: parse_rowText)
  ultimately show ?thesis by (simp add: parseEtab_def)
qed

section \<open>Rows of stored policies\<close>

definition addrChar :: "char \<Rightarrow> bool" where
  "addrChar c \<longleftrightarrow> hexValue c \<noteq> None \<or> c \<in> {CHR '':'', CHR ''.''}"

lemma hexValue_visible: "hexValue c \<noteq> None \<Longrightarrow> clientChar c"
  by (auto simp: hexValue_def clientChar_def visible_def Let_def split: if_splits)

lemma addrChar_client: "addrChar c \<Longrightarrow> clientChar c"
  using hexValue_visible [of c] by (auto simp: addrChar_def clientChar_def visible_def)

lemma decimalByte_text: "x < 256 \<Longrightarrow> list_all addrChar (decimalByte x) \<and> length (decimalByte x) \<le> 3"
  by (auto simp: decimalByte_def addrChar_def)

lemma hexGroup_text: "x < 65536 \<Longrightarrow> list_all addrChar (hexGroup x) \<and> length (hexGroup x) \<le> 4"
  by (auto simp: hexGroup_def addrChar_def)

lemma joinWith_text:
  "addrChar c \<Longrightarrow> \<forall>p\<in>set ps. list_all addrChar p \<and> length p \<le> n \<Longrightarrow>
     list_all addrChar (joinWith c ps) \<and> length (joinWith c ps) \<le> length ps * Suc n"
  by (induction c ps rule: joinWith.induct) auto

lemma ipv4String_text:
  assumes "length bs = 4" "list_all (\<lambda>b. b < 256) bs"
  shows "list_all addrChar (ipv4String bs) \<and> length (ipv4String bs) \<le> 100 \<and> ipv4String bs \<noteq> []"
proof -
  have "list_all addrChar (ipv4String bs) \<and> length (ipv4String bs) \<le> length (map decimalByte bs) * Suc 3"
    unfolding ipv4String_def using assms(2) decimalByte_text
    by (intro joinWith_text) (auto simp: addrChar_def list_all_iff)
  then show ?thesis using assms ipv4String_chars(1) by simp
qed

lemma ipv6String_text:
  assumes "length gs = 8" "list_all (\<lambda>g. g < 65536) gs"
  shows "list_all addrChar (ipv6String gs) \<and> length (ipv6String gs) \<le> 100 \<and> ipv6String gs \<noteq> []"
proof -
  have g: "list_all addrChar (joinWith (CHR '':'') (map hexGroup hs)) \<and>
      length (joinWith (CHR '':'') (map hexGroup hs)) \<le> 40" if "set hs \<subseteq> set gs" "length hs \<le> 8" for hs
  proof -
    have "list_all addrChar (joinWith (CHR '':'') (map hexGroup hs)) \<and>
        length (joinWith (CHR '':'') (map hexGroup hs)) \<le> length (map hexGroup hs) * Suc 4"
      using assms(2) that(1) hexGroup_text by (intro joinWith_text) (auto simp: addrChar_def list_all_iff)
    then show ?thesis using that(2) by auto
  qed
  have "list_all addrChar (ipv6String gs) \<and> length (ipv6String gs) \<le> 100"
  proof (cases "longestZeroRun gs")
    case None
    then show ?thesis using g [of gs] assms(1) by (simp add: ipv6String_def)
  next
    case (Some ab)
    obtain a b where ab: "ab = (a, b)" by fastforce
    have "addrChar (CHR '':'')" by (simp add: addrChar_def)
    then show ?thesis
      using g [of "take a gs"] g [of "drop b gs"] set_take_subset [of a gs] set_drop_subset [of b gs] assms(1)
      by (simp add: ipv6String_def Some ab)
  qed
  moreover have "ipv6String gs \<noteq> []" using family_ipv6String(1) [OF assms] by auto
  ultimately show ?thesis by simp
qed

lemma canonicalAddress_text:
  assumes "canonicalAddress c"
  shows "list_all addrChar c \<and> length c \<le> 100 \<and> c \<noteq> []"
proof -
  obtain s a where a: "parseAddr s = Some a" "addrZone a = []" "c = addrString (Unmap a)"
    using assms by (auto simp: canonicalAddress_def unicastAddress_def split: option.splits if_splits)
  have wf: "addr_wf (Unmap a)" by (rule Unmap_wf [OF parseAddr_wf [OF a(1)]])
  show ?thesis
  proof (cases "Unmap a")
    case (Addr4 bs)
    then show ?thesis using ipv4String_text [of bs] wf a(3) by simp
  next
    case (Addr6 gs z)
    moreover have "z = []" using a(2) Addr6 by (cases a) (auto split: if_splits)
    moreover have "\<not> Is4In6 (Addr6 gs z)" using Unmap_not_mapped [of a] Addr6 by simp
    ultimately show ?thesis using ipv6String_text [of gs] wf a(3) by (simp add: zoneSuffix_def)
  qed
qed

lemma exportClients_text:
  assumes "policyOk e" "c \<in> set (exportClients e)"
  shows "list_all clientChar c \<and> length c \<le> 100 \<and> c \<noteq> []"
proof (cases "c = ''*''")
  case True
  then show ?thesis by (simp add: clientChar_def visible_def)
next
  case False
  then have "canonicalAddress c" using assms by (auto simp: exportClients_def policyOk_def split: if_splits)
  from canonicalAddress_text [OF this] show ?thesis using addrChar_client by (auto simp: list_all_iff)
qed

lemma FSID_text: "list_all visible (FSID v) \<and> length (FSID v) \<le> 100"
proof -
  have "visible x" if "x \<in> set (hexEncode xs)" for x xs
    using hexValue_visible [OF hexEncode_plain [OF that]] by (simp add: clientChar_def)
  moreover have "visible (CHR ''-'')" by (simp add: visible_def)
  ultimately show ?thesis
    by (auto simp: FSID_def Let_def list_all_iff sha256_Size_def dest!: in_set_takeD in_set_dropD)
qed

lemma exportOptions_text: "list_all visible (exportOptions e) \<and> length (exportOptions e) \<le> 300"
proof -
  have "list_all visible (exportFsid e) \<and> length (exportFsid e) \<le> 100"
    using FSID_text by (auto simp: exportFsid_def visible_def)
  moreover have "list_all visible (squashOption (neSquash e)) \<and> length (squashOption (neSquash e)) \<le> 20"
    by (simp add: squashOption_def visible_def)
  ultimately show ?thesis by (auto simp: exportOptions_def visible_def)
qed

lemma exportEntry_rowOk:
  assumes "policyOk e" "c \<in> set (exportClients e)" "nePath e \<noteq> []" "hd (nePath e) = CHR ''/''" "list_all visible (nePath e)"
    "length (nePath e) \<le> 100"
  shows "rowOk (exportEntry e c)"
proof -
  have "drop 5 opt = exportFsid e" if "opt \<in> set (optionList e)" "prefix ''fsid='' opt" for opt
    using that optionList_mem(3) by (auto simp: prefix_def)
  then show ?thesis
    using assms exportClients_text [OF assms(1,2)] exportOptions_text [of e]
    by (auto simp: rowOk_def exportEntry_def rowText_def maxScanTokenSize_def split_exportOptions optionValue_fsid list_all_iff)
qed

section \<open>The export utility\<close>

type_synonym table = "((string \<times> string) \<times> string) list"

definition rowOf :: "(string \<times> string) \<times> string \<Rightarrow> entry" where
  "rowOf x = (case x of ((p, c), opts) \<Rightarrow> \<lparr>enPath = p, enClient = c, enOptions = opts\<rparr>)"

definition tableRows :: "table \<Rightarrow> entry list" where
  "tableRows w = filter rowOk (map rowOf (AList.clearjunk w))"

definition operandKey :: "string \<Rightarrow> string \<times> string" where
  "operandKey s =
     (if take 1 s = ''['' then (let c = takeWhile (\<lambda>x. x \<noteq> CHR '']'') (tl s) in (drop (length c + 3) s, c))
      else (let c = takeWhile (\<lambda>x. x \<noteq> CHR '':'') s in (drop (length c + 1) s, c)))"

fun tableExportfs :: "string list \<Rightarrow> table \<Rightarrow> bool \<times> table" where
  "tableExportfs [a, b, opts, d, operand] w = (True, AList.update (operandKey operand) opts w)"
| "tableExportfs [a, b, operand] w = (True, AList.delete (operandKey operand) w)"
| "tableExportfs args w = (False, w)"

lemma operandKey_exportOperand:
  assumes "list_all clientChar c" "c \<noteq> []"
  shows "operandKey (exportOperand c p) = (p, c)"
proof -
  have no: "CHR '']'' \<notin> set c" "hd c \<noteq> CHR ''[''" using assms by (auto simp: list_all_iff clientChar_def)
  show ?thesis
  proof (cases "CHR '':'' \<in> set c")
    case True
    have "takeWhile (\<lambda>x. x \<noteq> CHR '']'') (c @ CHR '']'' # CHR '':'' # p) = c"
      using no(1) by (subst takeWhile_append2) auto
    then show ?thesis using True by (simp add: operandKey_def exportOperand_def numeral_3_eq_3)
  next
    case False
    have "takeWhile (\<lambda>x. x \<noteq> CHR '':'') (c @ CHR '':'' # p) = c"
      using False by (subst takeWhile_append2) auto
    moreover have "take 1 (c @ CHR '':'' # p) \<noteq> ''[''" using no(2) assms(2) by (cases c) auto
    ultimately show ?thesis using False by (simp add: operandKey_def exportOperand_def)
  qed
qed

lemma rowKey_rowOf: "rowKey (rowOf x) = fst x"
  by (auto simp: rowOf_def rowKey_def split: prod.splits)

lemma tableRows_keys: "distinct (map rowKey (tableRows w))"
proof -
  have "distinct (map rowKey (map rowOf (AList.clearjunk w)))" by (simp add: comp_def rowKey_rowOf distinct_clearjunk)
  then show ?thesis unfolding tableRows_def by (rule distinct_map_filter)
qed

lemma tableRows_mem:
  "row \<in> set (tableRows w) \<longleftrightarrow> rowOk row \<and> map_of w (rowKey row) = Some (enOptions row)"
proof -
  have "row \<in> rowOf ` set (AList.clearjunk w) \<longleftrightarrow> map_of (AList.clearjunk w) (rowKey row) = Some (enOptions row)"
    by (subst map_of_eq_Some_iff [OF distinct_clearjunk]) (force simp: rowOf_def rowKey_def)
  then show ?thesis by (auto simp: tableRows_def map_of_clearjunk)
qed

text \<open>
  A node with the pseudoroot \<open>/srv/nfs\<close> and one file system mounted at \<open>/srv/nfs/v\<close>, on which every
  step succeeds.
\<close>

definition tableMounts :: string where
  "tableMounts = ''30 1 0:30 / /srv/nfs/v rw - zfs tank/v rw''"

definition tableOs :: "table nfs_os" where
  "tableOs = \<lparr>osIdentity = (\<lambda>_. Some ''boot-1''), osEtab = (\<lambda>w. Content (tableText (tableRows w))),
     osKernelExports = (\<lambda>_. Some []), osEvalSymlinks = (\<lambda>p _. Some p), osIsDir = (\<lambda>_ _. Some True),
     osFileHandle = (\<lambda>p _. p = ''/srv/nfs''), osMountinfo = (\<lambda>_. Some tableMounts), osPrivateEtab = Pair True,
     osExportfs = tableExportfs, osPrerequisites = (\<lambda>_ _. Pair True), osPrepareKernel = (\<lambda>_. Pair (Some (0, []))),
     osPreparePaths = Pair True, osVersions = (\<lambda>_. Pair True), osListener = (\<lambda>_. Pair True),
     osStartHelper = (\<lambda>_. Pair (Some (7, ''100''))), osHelperHealthy = (\<lambda>_ _. True), osTrackerReady = Pair True,
     osWaitChannels = (\<lambda>_. Pair True), osWriteControl = (\<lambda>_ _. Pair True), osHealth = (\<lambda>_. True), osClose = Pair True,
     osPersist = Pair PersistOk, osOwnerReadable = (\<lambda>_. True), osMkdirState = Pair True, osAcquireLock = Pair True,
     osReleaseLock = Pair True, osBeforeActivate = (\<lambda>_. Pair True), osCancelled = (\<lambda>_. False)\<rparr>"

definition tableSet :: "table \<Rightarrow> entry set" where
  "tableSet w = set (tableRows w)"

definition tableValid :: "nfs_export \<Rightarrow> bool" where
  "tableValid e \<longleftrightarrow> nePath e = (if neVolumeID e = rootVolumeID then ''/srv/nfs'' else ''/srv/nfs/v'')"

lemma tableOs_list [simp]: "kernelList tableOs w = Some (tableRows w)"
  by (simp add: kernelList_def tableOs_def parse_tableText tableRows_def list_all_iff)

lemma tableMounts_mounted [simp]: "mountedAt tableMounts p \<longleftrightarrow> p = ''/srv/nfs/v''"
  by (auto simp: mountedAt_def tableMounts_def stringFields_def visible_def endField_def)

lemma tableOs_validate [simp]: "kernelValidate tableOs e w = (if tableValid e then Valid else Invalid)"
  by (simp add: kernelValidate_def tableOs_def tableValid_def)

lemma tableValid_rowOk:
  assumes "tableValid e" "policyOk e" "c \<in> set (exportClients e)"
  shows "rowOk (exportEntry e c)"
  using assms by (intro exportEntry_rowOk) (auto simp: tableValid_def visible_def split: if_splits)

lemma tableExportfs_revoke: "tableExportfs (revokeArgs c p) w = (True, AList.delete (operandKey (exportOperand c p)) w)"
  by (simp add: revokeArgs_def)

lemma tableExportfs_grant:
  "tableExportfs (grantArgs opts c p) w = (True, AList.update (operandKey (exportOperand c p)) opts w)"
  by (simp add: grantArgs_def)

lemma tableSet_mem: "row \<in> tableSet w \<longleftrightarrow> rowOk row \<and> map_of w (rowKey row) = Some (enOptions row)"
  by (simp add: tableSet_def tableRows_mem)

lemma tableOs_quiet: "quiet_os tableOs tableSet"
  by (simp add: quiet_os_def quiet_def tableOs_def)

lemma tableOs_simps [simp]:
  "osIdentity tableOs w = Some ''boot-1''" "osKernelExports tableOs w = Some []" "osEvalSymlinks tableOs p w = Some p"
  "osIsDir tableOs p w = Some True" "osPrivateEtab tableOs w = (True, w)" "osExportfs tableOs = tableExportfs"
  "osPrerequisites tableOs st owned w = (True, w)" "osPrepareKernel tableOs owned w = (Some (0, []), w)"
  "osPreparePaths tableOs w = (True, w)" "osVersions tableOs n w = (True, w)" "osListener tableOs ports w = (True, w)"
  "osStartHelper tableOs name w = (Some (7, ''100''), w)" "osHelperHealthy tableOs name w" "osTrackerReady tableOs w = (True, w)"
  "osWaitChannels tableOs ps w = (True, w)" "osWriteControl tableOs name v w = (True, w)" "osHealth tableOs = (\<lambda>_. True)"
  "osClose tableOs w = (True, w)" "osPersist tableOs w = (PersistOk, w)" "osOwnerReadable tableOs w"
  "osMkdirState tableOs w = (True, w)" "osAcquireLock tableOs w = (True, w)" "osReleaseLock tableOs w = (True, w)"
  "\<not> osCancelled tableOs w"
  by (simp_all add: tableOs_def)

lemma tableOs_grant_rows:
  assumes "policyOk e" "c \<in> set (exportClients e)"
  shows "r \<in> tableSet (snd (tableExportfs (grantArgs (exportOptions e) c (nePath e)) w)) \<longleftrightarrow>
    rowOk r \<and> (if rowKey r = (nePath e, c) then enOptions r = exportOptions e else r \<in> tableSet w)"
proof -
  have "operandKey (exportOperand c (nePath e)) = (nePath e, c)"
    using exportClients_text [OF assms] by (simp add: operandKey_exportOperand)
  then show ?thesis by (auto simp: tableExportfs_grant tableSet_mem update_conv')
qed

lemma tableOs_revoke_rows:
  "r \<in> tableSet (snd (tableExportfs (revokeArgs c p) w)) \<longleftrightarrow>
     r \<in> tableSet w \<and> rowKey r \<noteq> operandKey (exportOperand c p)"
  by (auto simp: tableExportfs_revoke tableSet_mem delete_conv')

lemma rowOk_operand: "rowOk r \<Longrightarrow> operandKey (exportOperand (enClient r) p) = (p, enClient r)"
  by (simp add: rowOk_def operandKey_exportOperand)

lemma rowOk_fsid:
  assumes "rowOk r" "''fsid='' @ x \<in> set (splitOn (CHR '','') (enOptions r))"
  shows "x = optionValue (enOptions r) ''fsid''"
  using assms by (auto simp: rowOk_def list_all_iff dest!: bspec)

lemma tableOs_etab: "etab_ok tableOs tableSet"
  unfolding etab_ok_def
proof (intro conjI allI impI)
  show "quiet_os tableOs tableSet" by (rule tableOs_quiet)
next
  fix w rows assume "kernelList tableOs w = Some rows"
  then show "set rows = tableSet w" by (simp add: tableSet_def)
next
  fix w r x assume "r \<in> tableSet w" "''fsid='' @ x \<in> set (splitOn (CHR '','') (enOptions r))"
  then show "x = optionValue (enOptions r) ''fsid''" by (simp add: tableSet_mem rowOk_fsid)
next
  fix w e c r assume a: "policyOk e" "c \<in> set (exportClients e)"
    "r \<in> tableSet (snd (osExportfs tableOs (grantArgs (exportOptions e) c (nePath e)) w))"
  then show "r \<in> tableSet w \<or> enPath r = nePath e \<and> enClient r = c \<and> optionValue (enOptions r) ''fsid'' = exportFsid e"
    by (auto simp: tableOs_grant_rows rowKey_def optionValue_fsid split: if_splits)
next
  fix w c p r assume "r \<in> tableSet (snd (osExportfs tableOs (revokeArgs c p) w))"
  then have r: "r \<in> tableSet w" "rowKey r \<noteq> operandKey (exportOperand c p)" by (simp_all add: tableOs_revoke_rows)
  then show "r \<in> tableSet w" by simp
  have "rowOk r" using r(1) by (simp add: tableSet_mem)
  then show "\<not> (fst (osExportfs tableOs (revokeArgs c p) w) \<and> enPath r = p \<and> enClient r = c)"
    using r(2) rowOk_operand [of r p] by (auto simp: rowKey_def)
qed

lemma tableOs_works: "works tableOs tableSet tableValid"
  unfolding works_def
proof (intro conjI)
  show "\<forall>w. \<exists>rows. kernelList tableOs w = Some rows \<and> distinct (map rowKey rows)" by (simp add: tableRows_keys)
  show "revokes tableOs tableSet" unfolding revokes_def
    by (auto simp: tableOs_revoke_rows tableExportfs_revoke [THEN arg_cong, of fst, simplified] dest!: exportClients_text
        simp: operandKey_exportOperand)
  show "grants tableOs tableSet tableValid" unfolding grants_def
  proof (intro allI impI)
    fix w e c assume e: "tableValid e" "policyOk e" "c \<in> set (exportClients e)"
    let ?x = "tableExportfs (grantArgs (exportOptions e) c (nePath e)) w"
    note g = tableOs_grant_rows [OF e(2,3), of _ w]
    have "exportEntry e c \<in> tableSet (snd ?x)"
      using g [of "exportEntry e c"] tableValid_rowOk [OF e] by (simp add: exportEntry_def rowKey_def)
    then have "\<exists>r\<in>tableSet (snd ?x). rowKey r = (nePath e, c) \<and> optionsMatch (enOptions r) (exportOptions e)"
      by (rule bexI [rotated]) (simp add: exportEntry_def rowKey_def optionsMatch_refl)
    moreover have "\<forall>r\<in>tableSet w. rowKey r \<noteq> (nePath e, c) \<longrightarrow> r \<in> tableSet (snd ?x)"
      using tableSet_mem [of _ w] by (auto simp: g)
    moreover have "fst ?x" by (simp add: tableExportfs_grant)
    ultimately show "let (done, w1) = osExportfs tableOs (grantArgs (exportOptions e) c (nePath e)) w in
       done \<and> (\<exists>r\<in>tableSet w1. rowKey r = (nePath e, c) \<and> optionsMatch (enOptions r) (exportOptions e)) \<and>
       (\<forall>r\<in>tableSet w. rowKey r \<noteq> (nePath e, c) \<longrightarrow> r \<in> tableSet w1)"
      unfolding Let_def split_def tableOs_simps by blast
  qed
qed simp_all

end
