(* ===== verification/Nfs_Example.thy ===== *)
theory Nfs_Example
  imports Nfs_Table
begin

text \<open>
  A run of the NFS manager on a node that works: it starts on an empty table, puts a volume with
  one client, denies the client, and removes the volume.
\<close>

definition exCfg :: nfs_config where
  "exCfg = \<lparr>cfgBindAddress = ''10.0.0.1'', cfgExportRoot = ''/srv/nfs'', cfgGuarded = False\<rparr>"

definition exShare :: nfs_export where
  "exShare = \<lparr>neVolumeID = ''tank/v'', nePath = ''/srv/nfs/v'', neBindAddress = ''10.0.0.1'', neVersion = ''4.2'',
     neSquash = ''root'', neReadOnly = False, neACLEnabled = True, neClients = [''10.0.0.9''], neActive = True,
     neSourceKey = [], neFenceUID = []\<rparr>"

definition exRoot :: nfs_export where
  "exRoot = (emptyRoot exCfg)\<lparr>neClients := [''10.0.0.9''], neActive := True\<rparr>"

lemma exCfg_manager: "NewManager ''/var/lib/pillar'' ''/srv/nfs'' ''10.0.0.1'' False = Some exCfg"
proof -
  have "safeExportPath ''/srv/nfs''" "isAbs ''/var/lib/pillar''" by code_simp+
  moreover have "unicastAddress ''10.0.0.1'' = Some (Addr4 [10, 0, 0, 1])" by code_simp
  moreover have "addrString (Addr4 [10, 0, 0, 1]) = ''10.0.0.1''" by code_simp
  ultimately show ?thesis by (simp add: NewManager_def exCfg_def Let_def)
qed

lemma exShare_normalized: "normalized exShare = Some exShare"
  by code_simp

definition exState :: "(string \<times> nfs_export) list \<Rightarrow> nfs_export list \<Rightarrow> disk_state" where
  "exState ds l = \<lparr>dsSchema = 1, dsIdentity = ''boot-1'', dsBindAddress = ''10.0.0.1'', dsExportRoot = ''/srv/nfs'',
     dsTrackerPID = 7, dsTrackerStart = ''100'', dsMountdPID = 7, dsMountdStart = ''100'', dsDesired = ds, dsLedger = l\<rparr>"

definition exSys :: "(string \<times> nfs_export) list \<Rightarrow> nfs_export list \<Rightarrow> table \<Rightarrow> table nfs_sys" where
  "exSys ds l w = \<lparr>sState = exState ds l, sLock = True, sStarted = True, sClosed = False, sFailure = False,
     sErrors = [], sCloseErr = False, sDisk = Owner (exState ds l), sWorld = w\<rparr>"

definition exStarted :: "table nfs_sys" where
  "exStarted = exSys [(rootVolumeID, emptyRoot exCfg)] [] []"

lemma tableRows_Nil [simp]: "tableRows [] = []"
  by (simp add: tableRows_def)

lemmas step_defs = osStep_def andThen_def require_def change_def persist_def split_def Let_def

lemmas state_defs = Desired_def Ledger_def setDesired_def setLedger_def addLedger_def updateRoot_def rootExport_def
  emptyRoot_def exSys_def exState_def

lemmas converge_defs = converge_def desiredEntries_def rootEntries_def validateActivation_def beforeActivate_def addError_def
  grantDesired_def existingRows_def verifyAdmissions_def rebuildLedger_def persistOrFail_def healthLocked_def

lemma parseEtab_Nil: "parseEtab [] = Some []"
  by (simp add: parseEtab_def scanLines_def)

definition exMem :: "disk_state \<Rightarrow> owner_file \<Rightarrow> table nfs_sys" where
  "exMem st disk = \<lparr>sState = st, sLock = True, sStarted = False, sClosed = False, sFailure = False,
     sErrors = [], sCloseErr = False, sDisk = disk, sWorld = []\<rparr>"

definition exFreshState :: disk_state where
  "exFreshState = (freshState exCfg)\<lparr>dsDesired := [(rootVolumeID, emptyRoot exCfg)]\<rparr>"

definition exClaimed :: "table nfs_sys" where
  "exClaimed = exStarted\<lparr>sStarted := False\<rparr>"

lemma osStep_same: "f (sWorld s) = (True, sWorld s) \<Longrightarrow> osStep f s = (True, s)"
  by (simp add: osStep_def)

lemma exConverge: "converge tableOs exCfg exStarted = (True, exStarted)"
  by (simp add: converge_defs state_defs step_defs exStarted_def exCfg_def tableValid_def exportClients_def)

lemma exLoad: "loadState tableOs exCfg ((newProcess NoOwner [])\<lparr>sLock := True\<rparr>) = (True, exMem (freshState exCfg) NoOwner)"
  by (simp add: loadState_def newProcess_def exMem_def)

lemma exUpdateRoot: "updateRoot exCfg (exMem (freshState exCfg) NoOwner) = exMem exFreshState NoOwner"
  by (simp add: state_defs Let_def exMem_def exFreshState_def freshState_def)

lemma exPreflight: "preflightActivation tableOs exCfg (exMem exFreshState NoOwner) = (True, exMem exFreshState NoOwner)"
  by (simp add: preflightActivation_def guardedState_def state_defs exMem_def exFreshState_def freshState_def)

lemma exHelpers:
  "startHelpers tableOs 0 (exMem (exFreshState\<lparr>dsIdentity := ''boot-1''\<rparr>) (Owner (exFreshState\<lparr>dsIdentity := ''boot-1''\<rparr>))) = (True, exClaimed)"
  by (simp add: startHelpers_def startHelper_def recordHelper_def step_defs exMem_def exFreshState_def freshState_def exClaimed_def
      exStarted_def exSys_def exState_def exCfg_def)

lemma exKernelStart: "kernelStart tableOs (exMem exFreshState NoOwner) = (True, exClaimed)"
proof -
  let ?d = "exFreshState\<lparr>dsIdentity := ''boot-1''\<rparr>"
  have p: "persist tableOs (claimServer ''boot-1'' (exMem exFreshState NoOwner)) = (True, exMem ?d (Owner ?d))"
    by (simp add: persist_def claimServer_def exMem_def exFreshState_def freshState_def)
  have v: "verifyExports tableOs (sState (exMem exFreshState NoOwner)) (sWorld (exMem exFreshState NoOwner))"
    by (simp add: verifyExports_def verifyLedgerRows_def parseEtab_Nil exMem_def)
  have "runServer tableOs ''boot-1'' 0 [] (exMem exFreshState NoOwner) = (True, exClaimed)"
    by (simp add: runServer_def andThen_def osStep_same require_def change_def v p exHelpers)
  moreover have "dsIdentity (sState (exMem exFreshState NoOwner)) \<noteq> ''boot-1''" by (simp add: exMem_def exFreshState_def freshState_def)
  ultimately show ?thesis
    by (simp add: kernelStart_def claimAndRun_def prepareAndRun_def andThen_def osStep_same)
qed

lemma exStart: "Start tableOs exCfg (newProcess NoOwner []) = (True, exStarted)"
proof -
  have s: "setIdentity ''boot-1'' exClaimed = exClaimed" "persistOrClose tableOs exClaimed = (True, exClaimed)"
      "exClaimed\<lparr>sStarted := True\<rparr> = exStarted"
    by (simp_all add: setIdentity_def persistOrClose_def persist_def exClaimed_def exStarted_def exSys_def exState_def)
  have "startLocked tableOs exCfg ((newProcess NoOwner [])\<lparr>sLock := True\<rparr>) = (True, exStarted)"
    by (simp add: startLocked_def andThen_def change_def exLoad exUpdateRoot exPreflight exKernelStart s applyDesired_def exConverge)
  then show ?thesis by (simp add: Start_def osStep_def) (simp add: newProcess_def exStarted_def exSys_def)
qed

section \<open>Putting the volume\<close>

abbreviation exClient :: string where
  "exClient \<equiv> ''10.0.0.9''"

abbreviation exDesired :: "(string \<times> nfs_export) list" where
  "exDesired \<equiv> [(rootVolumeID, exRoot), (''tank/v'', exShare)]"

definition exRows :: table where
  "exRows = [((''/srv/nfs'', exClient), exportOptions exRoot), ((''/srv/nfs/v'', exClient), exportOptions exShare)]"

definition exWanted :: wanted where
  "exWanted = [((''/srv/nfs/v'', exClient), exportEntry exShare exClient), ((''/srv/nfs'', exClient), exportEntry exRoot exClient)]"

definition exServed :: "table nfs_sys" where
  "exServed = exSys exDesired [exRoot, exShare] exRows"

lemma ex_fields [simp]:
  "nePath exShare = ''/srv/nfs/v''" "neVolumeID exShare = ''tank/v''" "neClients exShare = [exClient]" "neActive exShare" "neACLEnabled exShare"
  "neSourceKey exShare = []" "neFenceUID exShare = []" "neBindAddress exShare = ''10.0.0.1''"
  "nePath exRoot = ''/srv/nfs''" "neVolumeID exRoot = rootVolumeID" "neClients exRoot = [exClient]" "neActive exRoot" "neACLEnabled exRoot"
  "exportClients exShare = [exClient]" "exportClients exRoot = [exClient]" "rootVolumeID \<noteq> ''tank/v''" "''tank/v'' \<noteq> rootVolumeID" "tableValid exShare" "tableValid exRoot"
  by (simp_all add: exShare_def exRoot_def emptyRoot_def exCfg_def exportClients_def rootVolumeID_def tableValid_def)

lemma exSys_fields [simp]:
  "Desired (exSys ds l w) = ds" "Ledger (exSys ds l w) = l" "sWorld (exSys ds l w) = w" "sErrors (exSys ds l w) = []"
  "healthLocked tableOs (exSys ds l w)" "sStarted (exSys ds l w)" "sLock (exSys ds l w)"
  "(exSys ds l w)\<lparr>sWorld := w'\<rparr> = exSys ds l w'" "(exSys ds l w)\<lparr>sErrors := []\<rparr> = exSys ds l w"
  by (simp_all add: exSys_def exState_def Desired_def Ledger_def healthLocked_def)

text \<open>The state in memory may be ahead of the file.\<close>

definition exAhead :: "(string \<times> nfs_export) list \<Rightarrow> nfs_export list \<Rightarrow> owner_file \<Rightarrow> table \<Rightarrow> table nfs_sys" where
  "exAhead ds l disk w = (exSys ds l w)\<lparr>sDisk := disk\<rparr>"

lemma exAhead_fields [simp]:
  "Desired (exAhead ds l d w) = ds" "Ledger (exAhead ds l d w) = l" "sWorld (exAhead ds l d w) = w" "sErrors (exAhead ds l d w) = []"
  "persist tableOs (exAhead ds l d w) = (True, exSys ds l w)"
  "setDesired i e (exAhead ds l d w) = exAhead (AList.update i e ds) l d w"
  "setLedger l' (exAhead ds l d w) = exAhead ds l' d w" "addLedger e (exAhead ds l d w) = exAhead ds (l @ [e]) d w"
  "removeDesired i (exAhead ds l d w) = exAhead (AList.delete i ds) l d w"
  by (simp_all add: exAhead_def exSys_def exState_def Desired_def Ledger_def persist_def setDesired_def setLedger_def addLedger_def
      removeDesired_def)

lemma exSys_ahead: "exSys ds l w = exAhead ds l (Owner (exState ds l)) w"
  by (simp add: exAhead_def exSys_def)

lemma exRootExport: "rootExport exCfg [] ((rootVolumeID, r) # (''tank/v'', exShare) # []) = exRoot"
  by (simp add: rootExport_def Let_def) (simp add: exRoot_def emptyRoot_def)

lemma exUpdateRoot_served:
  "updateRoot exCfg (exAhead [(rootVolumeID, r), (''tank/v'', exShare)] l d w) = exAhead exDesired (l @ [exRoot]) d w"
  by (simp add: updateRoot_def Let_def exRootExport)

lemma exEntries:
  "desiredEntries tableOs exCfg (exSys exDesired l w) =
     (Some exWanted, exAhead exDesired (l @ [exShare, exRoot]) (Owner (exState exDesired l)) w)"
proof -
  have "validateActivation tableOs exCfg exShare (exSys exDesired l w) = (Usable, exSys exDesired l w)"
    by (simp add: validateActivation_def beforeActivate_def)
  then have "desiredLoop tableOs exCfg exDesired [] (exSys exDesired l w) =
      (Some (wantRows exShare []), exAhead exDesired (l @ [exShare]) (Owner (exState exDesired l)) w)"
    by (simp add: exSys_ahead)
  then show ?thesis
    by (simp add: desiredEntries_def rootEntries_def Let_def exRootExport exUpdateRoot_served wantRows_def exWanted_def)
qed

lemma exPolicies: "policyOk exShare" "policyOk exRoot"
proof -
  show v: "policyOk exShare" by (rule normalized_policyOk [OF exShare_normalized])
  then show "policyOk exRoot"
    by (auto simp: policyOk_def exRoot_def emptyRoot_def exCfg_def squashes_def exShare_def)
qed

lemma exOperands [simp]:
  "operandKey (exportOperand exClient p) = (p, exClient)"
  by (rule operandKey_exportOperand) (simp_all add: clientChar_def visible_def)

lemma exGrant [simp]:
  "kernelGrant tableOs exShare exClient w = (True, AList.update (''/srv/nfs/v'', exClient) (exportOptions exShare) w)"
  "kernelGrant tableOs exRoot exClient w = (True, AList.update (''/srv/nfs'', exClient) (exportOptions exRoot) w)"
  by (simp_all add: kernelGrant_def runExportfs_def tableExportfs_grant)

lemma exRevoke [simp]: "kernelRevoke tableOs p exClient w = (True, AList.delete (p, exClient) w)"
  by (simp add: kernelRevoke_def runExportfs_def tableExportfs_revoke)

lemma exGrantDesired: "grantDesired tableOs [] exWanted (exSys exDesired l []) = (True, exSys exDesired l exRows)"
  by (simp add: grantDesired_def existingRows_def exWanted_def andThen_def osStep_def exRows_def)

lemma exTableRows: "tableRows exRows = [exportEntry exRoot exClient, exportEntry exShare exClient]"
proof -
  have "rowOk (exportEntry exShare exClient)" "rowOk (exportEntry exRoot exClient)"
    using tableValid_rowOk [of exShare exClient] tableValid_rowOk [of exRoot exClient] exPolicies by simp_all
  then show ?thesis by (simp add: tableRows_def exRows_def rowOf_def exportEntry_def)
qed

lemma exOwns [simp]:
  "e \<in> set l \<Longrightarrow> c \<in> set (exportClients e) \<Longrightarrow> owns (exSys ds l w) (exportEntry e c)"
  by (auto simp: owns_def ownsIn_def list_ex_iff ownsRow_def exportEntry_def optionValue_fsid)

lemma exEntry_fields [simp]:
  "enPath (exportEntry e c) = nePath e" "enClient (exportEntry e c) = c" "enOptions (exportEntry e c) = exportOptions e"
  by (simp_all add: exportEntry_def)

lemma exVerify: "exShare \<in> set l \<Longrightarrow> exRoot \<in> set l \<Longrightarrow> verifyAdmissions tableOs exWanted (exSys exDesired l exRows)"
  by (simp add: verifyAdmissions_def exTableRows exWanted_def optionsMatch_refl)

lemma exRebuild: "rebuildLedger (exSys exDesired l w) = exAhead exDesired [exRoot, exShare] (Owner (exState exDesired l)) w"
  by (simp add: rebuildLedger_def) (simp add: exSys_ahead)

lemma exConverge_put: "converge tableOs exCfg (exSys exDesired [exShare, exRoot] []) = (True, exServed)"
  by (simp add: converge_def exEntries andThen_def require_def change_def exGrantDesired exVerify exRebuild persistOrFail_def
      exServed_def)

lemma exPut: "Put tableOs exCfg exShare True True (newProcess NoOwner []) = (True, exServed)"
proof -
  have "ExportPath ''/srv/nfs'' ''/srv/nfs/v'' \<noteq> None" by code_simp
  then have v: "validatePut tableOs exCfg exShare []" by (simp add: validatePut_def) (simp add: exCfg_def)
  have a: "exShare\<lparr>neActive := True\<rparr> = exShare" by (simp add: exShare_def)
  have pol: "putPolicy [(rootVolumeID, emptyRoot exCfg)] exShare True = Some exShare"
    by (simp add: putPolicy_def) (simp add: emptyRoot_def exCfg_def)
  have "persist tableOs (updateRoot exCfg (addLedger exShare (setDesired ''tank/v'' exShare exStarted))) = (True, exSys exDesired [exShare, exRoot] [])"
    by (simp add: exStarted_def exSys_ahead exUpdateRoot_served)
  moreover have "healthLocked tableOs exStarted" "Desired exStarted = [(rootVolumeID, emptyRoot exCfg)]" by (simp_all add: exStarted_def)
  ultimately have "putLocked tableOs exCfg exShare True True exStarted = (True, exServed)"
    by (simp add: putLocked_def pol a applyDesired_def exConverge_put) (simp add: exServed_def)
  then show ?thesis by (simp add: Put_def exShare_normalized andThen_def exStart) (simp add: v newProcess_def)
qed

section \<open>Denying the client\<close>

definition exShut :: nfs_export where
  "exShut = exShare\<lparr>neClients := []\<rparr>"

abbreviation exShutDesired :: "(string \<times> nfs_export) list" where
  "exShutDesired \<equiv> [(rootVolumeID, emptyRoot exCfg), (''tank/v'', exShut)]"

definition exDenied :: "table nfs_sys" where
  "exDenied = exSys exShutDesired [exShut] []"

lemma exAddress: "unicastAddress exClient = Some (Addr4 [10, 0, 0, 9])" "addrString (Addr4 [10, 0, 0, 9]) = exClient"
  by code_simp+

lemma exChanged: "changedClient exShare exClient False = Some exShut"
  by code_simp

lemma exShut_fields [simp]:
  "neActive exShut" "neACLEnabled exShut" "exportClients exShut = []" "neClients exShut = []" "tableValid exShut"
  "neSourceKey exShut = []" "neFenceUID exShut = []" "neVolumeID exShut = ''tank/v''"
  "neActive (emptyRoot exCfg) = False" "exportClients (emptyRoot exCfg) = []"
  by (simp_all add: exShut_def exportClients_def tableValid_def emptyRoot_def)

lemma exRootExport_shut: "rootExport exCfg [] ((rootVolumeID, r) # (''tank/v'', exShut) # []) = emptyRoot exCfg"
  by (simp add: rootExport_def Let_def) (simp add: emptyRoot_def)

lemma exUpdateRoot_shut:
  "updateRoot exCfg (exAhead [(rootVolumeID, r), (''tank/v'', exShut)] l d w) = exAhead exShutDesired l d w"
  by (simp add: updateRoot_def Let_def exRootExport_shut)

lemma exEntries_shut:
  "desiredEntries tableOs exCfg (exSys exShutDesired l w) =
     (Some [], exAhead exShutDesired (l @ [exShut]) (Owner (exState exShutDesired l)) w)"
proof -
  have "validateActivation tableOs exCfg exShut (exSys exShutDesired l w) = (Usable, exSys exShutDesired l w)"
    by (simp add: validateActivation_def beforeActivate_def)
  then have "desiredLoop tableOs exCfg exShutDesired [] (exSys exShutDesired l w) =
      (Some [], exAhead exShutDesired (l @ [exShut]) (Owner (exState exShutDesired l)) w)"
    by (simp add: exSys_ahead wantRows_def)
  then show ?thesis
    by (simp add: desiredEntries_def rootEntries_def Let_def exRootExport_shut exUpdateRoot_shut)
qed

lemma exConverge_deny: "converge tableOs exCfg (exSys exShutDesired [exRoot, exShare, exShut] exRows) = (True, exDenied)"
proof -
  let ?l = "[exRoot, exShare, exShut, exShut]"
  have "revokeObsolete tableOs [exportEntry exRoot exClient, exportEntry exShare exClient] [] (exSys exShutDesired ?l exRows) =
      (True, exSys exShutDesired ?l [])"
    by (simp add: andThen_def osStep_def) (simp add: exRows_def)
  moreover have "rebuildLedger (exSys exShutDesired ?l []) = exAhead exShutDesired [exShut] (Owner (exState exShutDesired ?l)) []"
    by (simp add: rebuildLedger_def) (simp add: exSys_ahead)
  ultimately show ?thesis
    by (simp add: converge_def exTableRows exEntries_shut andThen_def require_def change_def grantDesired_def verifyAdmissions_def
        persistOrFail_def exDenied_def)
qed

lemma exDeny: "ChangeClient tableOs exCfg ''tank/v'' exClient False exServed = (True, exDenied)"
proof -
  have "persist tableOs (updateRoot exCfg (addLedger exShut (setDesired ''tank/v'' exShut exServed))) =
      (True, exSys exShutDesired [exRoot, exShare, exShut] exRows)"
    by (simp add: exServed_def exSys_ahead exUpdateRoot_shut)
  then have "commitClientChange tableOs exCfg ''tank/v'' exShut False exServed = (True, exDenied)"
    by (simp add: commitClientChange_def applyOrStop_def applyDesired_def exConverge_deny)
  moreover have "Start tableOs exCfg exServed = (True, exServed)" by (rule Start_healthy) (simp_all add: exServed_def)
  moreover have "Desired exServed = exDesired" by (simp add: exServed_def)
  ultimately show ?thesis by (simp add: ChangeClient_def changeClientLocked_def exChanged)
qed

section \<open>The properties on this run\<close>

lemma exReachable: "nfs_reachable tableOs exCfg tableSet {} exServed"
proof -
  have "nfs_reachable tableOs exCfg tableSet {} (newProcess NoOwner [])"
    unfolding nfs_reachable_def by (rule exI [of _ "[]"]) (simp add: tableSet_def)
  from reachable_steps [OF this Put_steps [of tableOs exCfg tableSet "{}" _ exShare True True]]
  show ?thesis by (simp add: exPut)
qed

lemma exServed_set: "tableSet (sWorld exServed) = {exportEntry exRoot exClient, exportEntry exShare exClient}"
  by (simp add: exServed_def tableSet_def exTableRows)

theorem granted_rows_recorded_witness:
  "etab_ok tableOs tableSet \<and> exportEntry exShare ''10.0.0.9'' \<in> tableSet (sWorld exServed) \<and>
     (\<exists>d. sDisk exServed = Owner d \<and> ownsIn (dsLedger d) (exportEntry exShare ''10.0.0.9''))"
  using granted_rows_recorded [OF tableOs_etab exCfg_manager exReachable, of "exportEntry exShare exClient"] tableOs_etab
  by (simp add: exServed_set)



theorem removal_succeeds_witness:
  "works tableOs tableSet tableValid \<and> tableSet (sWorld exServed) \<noteq> {} \<and> fst (Remove tableOs exCfg ''tank/v'' exServed)"
proof -
  have "rootUsable exCfg tableValid" by (simp add: rootUsable_def tableValid_def exCfg_def)
  moreover have "healthLocked tableOs exServed" "map_of (Desired exServed) ''tank/v'' = Some exShare" by (simp_all add: exServed_def)
  moreover have "\<forall>row\<in>tableSet (sWorld exServed). undisputed exCfg exServed row"
    unfolding exServed_set
    by (auto simp: undisputed_def exServed_def ownsIn_def ownsRow_def optionValue_fsid)
  ultimately have "fst (Remove tableOs exCfg ''tank/v'' exServed)"
    using removal_succeeds [OF tableOs_etab tableOs_works exCfg_manager _ exReachable, of "''tank/v''" exShare] by auto
  then show ?thesis by (simp add: tableOs_works exServed_set)
qed

end
