(* ===== verification/Go_Strconv.thy ===== *)
theory Go_Strconv
  imports Go_Text Netip
begin

text \<open>
  Go's \<open>strconv\<close> on unsigned numbers of at most 32 bits, \<open>base64\<close> decoding, and
  \<open>net.SplitHostPort\<close>, on byte strings. An error is \<open>None\<close>. Numbers are natural numbers: a value
  that has passed the range check is below \<open>2^32\<close>, so the next step stays below \<open>2^64\<close>.
\<close>

section \<open>Numbers\<close>

definition digitOf :: "char \<Rightarrow> nat option" where
  "digitOf c =
     (let n = of_char c :: nat in
      if 48 \<le> n \<and> n \<le> 57 then Some (n - 48)
      else if 97 \<le> lowerBit c \<and> lowerBit c \<le> 122 then Some (lowerBit c - 87) else None)"

fun parseDigits :: "bool \<Rightarrow> nat \<Rightarrow> nat \<Rightarrow> string \<Rightarrow> nat \<Rightarrow> nat option" where
  "parseDigits base0 base maxVal [] n = Some n"
| "parseDigits base0 base maxVal (c # cs) n =
     (if c = CHR ''_'' \<and> base0 then parseDigits base0 base maxVal cs n
      else (case digitOf c of
              None \<Rightarrow> None
            | Some d \<Rightarrow> if d \<ge> base \<or> n * base + d > maxVal then None
                        else parseDigits base0 base maxVal cs (n * base + d)))"

text \<open>The prefix of a literal chooses the base when none is given.\<close>

definition basePrefix :: "string \<Rightarrow> nat \<times> string" where
  "basePrefix s =
     (if hd s \<noteq> CHR ''0'' then (10, s)
      else if length s \<ge> 3 \<and> lowerBit (s ! 1) = 98 then (2, drop 2 s)
      else if length s \<ge> 3 \<and> lowerBit (s ! 1) = 111 then (8, drop 2 s)
      else if length s \<ge> 3 \<and> lowerBit (s ! 1) = 120 then (16, drop 2 s)
      else (8, drop 1 s))"

text \<open>Underscores only between digits; \<open>saw\<close> is the kind of the last character.\<close>

fun underscoreScan :: "bool \<Rightarrow> char \<Rightarrow> string \<Rightarrow> bool" where
  "underscoreScan hex saw [] \<longleftrightarrow> saw \<noteq> CHR ''_''"
| "underscoreScan hex saw (c # cs) \<longleftrightarrow>
     (let n = of_char c :: nat in
      if 48 \<le> n \<and> n \<le> 57 \<or> hex \<and> 97 \<le> lowerBit c \<and> lowerBit c \<le> 102 then underscoreScan hex (CHR ''0'') cs
      else if c = CHR ''_'' then saw = CHR ''0'' \<and> underscoreScan hex (CHR ''_'') cs
      else saw \<noteq> CHR ''_'' \<and> underscoreScan hex (CHR ''!'') cs)"

definition underscoreOK :: "string \<Rightarrow> bool" where
  "underscoreOK s0 =
     (let s = (if s0 \<noteq> [] \<and> hd s0 \<in> {CHR ''-'', CHR ''+''} then tl s0 else s0) in
      if length s \<ge> 2 \<and> hd s = CHR ''0'' \<and> lowerBit (s ! 1) \<in> {98, 111, 120}
      then underscoreScan (lowerBit (s ! 1) = 120) (CHR ''0'') (drop 2 s)
      else underscoreScan False (CHR ''^'') s)"

definition parseUint :: "string \<Rightarrow> nat \<Rightarrow> nat \<Rightarrow> nat option" where
  "parseUint s base bits =
     (if s = [] then None
      else
        (let (b, digits) = (if base = 0 then basePrefix s else (base, s)) in
         case parseDigits (base = 0) b (2 ^ bits - 1) digits 0 of
           None \<Rightarrow> None
         | Some n \<Rightarrow> if base = 0 \<and> CHR ''_'' \<in> set digits \<and> \<not> underscoreOK s then None else Some n))"

fun formatUint :: "nat \<Rightarrow> string" where
  "formatUint n = (if n < 10 then [digitChar n] else formatUint (n div 10) @ [digitChar (n mod 10)])"

declare formatUint.simps [simp del]

text \<open>\<open>strconv.Atoi\<close> for 64-bit integers.\<close>

definition atoi :: "string \<Rightarrow> int option" where
  "atoi s =
     (let neg = (s \<noteq> [] \<and> hd s = CHR ''-'');
          digits = (if s \<noteq> [] \<and> hd s \<in> {CHR ''-'', CHR ''+''} then tl s else s) in
      if digits = [] then None
      else (case parseDigits False 10 (if neg then 2 ^ 63 else 2 ^ 63 - 1) digits 0 of
              None \<Rightarrow> None
            | Some n \<Rightarrow> Some (if neg then - int n else int n)))"

lemma of_char_digitChar: "d < 10 \<Longrightarrow> (of_char (digitChar d) :: nat) = 48 + d"
  by (simp add: digitChar_def)

lemma digitOf_digitChar [simp]: "d < 10 \<Longrightarrow> digitOf (digitChar d) = Some d"
  by (simp add: digitOf_def of_char_digitChar)

lemma digitChar_plain [simp]: "d < 10 \<Longrightarrow> digitChar d \<noteq> CHR ''_''"
  using of_char_digitChar [of d] by auto

lemma digitChar_zero: "d < 10 \<Longrightarrow> digitChar d = CHR ''0'' \<longleftrightarrow> d = 0"
proof -
  assume "d < 10"
  moreover have "digitChar d = CHR ''0'' \<longleftrightarrow> (of_char (digitChar d) :: nat) = of_char (CHR ''0'')"
    by (simp only: of_char_eq_iff)
  ultimately show ?thesis by (simp add: of_char_digitChar)
qed

lemma parseDigits_append:
  "parseDigits b0 base mx (xs @ ys) n = Option.bind (parseDigits b0 base mx xs n) (parseDigits b0 base mx ys)"
  by (induction xs arbitrary: n) (auto split: option.splits)

lemma parseDigits_format: "n \<le> mx \<Longrightarrow> parseDigits b0 10 mx (formatUint n) 0 = Some n"
proof (induction n rule: formatUint.induct)
  case (1 n)
  have "n div 10 \<le> mx" using 1(2) by simp
  moreover have "n div 10 * 10 + n mod 10 = n" by simp
  moreover have "n mod 10 < 10" by simp
  ultimately show ?case
    using 1 by (subst formatUint.simps) (simp add: parseDigits_append not_le [symmetric])
qed

lemma formatUint_hd: "hd (formatUint n) = CHR ''0'' \<longleftrightarrow> n = 0"
proof (induction n rule: formatUint.induct)
  case (1 n)
  have ne: "formatUint m \<noteq> []" for m by (subst formatUint.simps) simp
  show ?case
  proof (cases "n < 10")
    case True
    then show ?thesis by (subst formatUint.simps) (simp add: digitChar_zero)
  next
    case False
    then have "hd (formatUint n) = hd (formatUint (n div 10))" by (subst formatUint.simps) (simp add: ne)
    then show ?thesis using 1 [OF False] False by auto
  qed
qed

lemma formatUint_plain: "CHR ''_'' \<notin> set (formatUint n) \<and> formatUint n \<noteq> []"
proof (induction n rule: formatUint.induct)
  case (1 n)
  then show ?case using digitChar_plain [of "n mod 10"] digitChar_plain [of n]
    by (subst formatUint.simps, subst (2) formatUint.simps) (auto simp del: digitChar_plain)
qed

text \<open>A printed number is read back, also without a given base.\<close>

lemma parse_formatUint:
  assumes "n < 2 ^ bits"
  shows "parseUint (formatUint n) 0 bits = Some n" "parseUint (formatUint n) 10 bits = Some n"
proof -
  have le: "n \<le> 2 ^ bits - 1" using assms by simp
  show "parseUint (formatUint n) 10 bits = Some n"
    using parseDigits_format [OF le, of False] formatUint_plain by (simp add: parseUint_def)
  show "parseUint (formatUint n) 0 bits = Some n"
  proof (cases "n = 0")
    case True
    have "formatUint 0 = ''0''" using digitChar_zero [of 0] by (subst formatUint.simps) simp
    then show ?thesis using True by (simp add: parseUint_def basePrefix_def)
  next
    case False
    then have "basePrefix (formatUint n) = (10, formatUint n)" using formatUint_hd [of n] by (simp add: basePrefix_def)
    then show ?thesis using parseDigits_format [OF le, of True] formatUint_plain by (simp add: parseUint_def)
  qed
qed

section \<open>Base64\<close>

definition base64Value :: "char \<Rightarrow> nat option" where
  "base64Value c =
     (let n = of_char c :: nat in
      if 65 \<le> n \<and> n \<le> 90 then Some (n - 65) else if 97 \<le> n \<and> n \<le> 122 then Some (n - 71)
      else if 48 \<le> n \<and> n \<le> 57 then Some (n + 4) else if n = 43 then Some 62 else if n = 47 then Some 63 else None)"

definition byteOf :: "nat \<Rightarrow> char" where
  "byteOf n = char_of (n mod 256)"

text \<open>
  The decoder skips line breaks, so they are removed first. \<open>padded\<close> selects \<open>StdEncoding\<close>, which
  needs its padding; \<open>RawStdEncoding\<close> refuses it. Unused bits of the last group are not checked.
\<close>

fun base64Groups :: "bool \<Rightarrow> string \<Rightarrow> string option" where
  "base64Groups padded [] = Some []"
| "base64Groups padded [a] = None"
| "base64Groups padded [a, b] =
     (case (base64Value a, base64Value b) of
        (Some x, Some y) \<Rightarrow> if padded then None else Some [byteOf (x * 4 + y div 16)]
      | _ \<Rightarrow> None)"
| "base64Groups padded [a, b, c] =
     (case (base64Value a, base64Value b, base64Value c) of
        (Some x, Some y, Some z) \<Rightarrow>
          if padded then None else Some [byteOf (x * 4 + y div 16), byteOf (y * 16 + z div 4)]
      | _ \<Rightarrow> None)"
| "base64Groups padded (a # b # c # d # rest) =
     (case (base64Value a, base64Value b, base64Value c, base64Value d) of
        (Some x, Some y, Some z, Some v) \<Rightarrow>
          map_option (\<lambda>r. byteOf (x * 4 + y div 16) # byteOf (y * 16 + z div 4) # byteOf (z * 64 + v) # r)
            (base64Groups padded rest)
      | (Some x, Some y, Some z, None) \<Rightarrow>
          if padded \<and> d = CHR ''='' \<and> rest = [] then Some [byteOf (x * 4 + y div 16), byteOf (y * 16 + z div 4)] else None
      | (Some x, Some y, None, None) \<Rightarrow>
          if padded \<and> c = CHR ''='' \<and> d = CHR ''='' \<and> rest = [] then Some [byteOf (x * 4 + y div 16)] else None
      | _ \<Rightarrow> None)"

definition base64Decode :: "bool \<Rightarrow> string \<Rightarrow> string option" where
  "base64Decode padded s = base64Groups padded (filter (\<lambda>c. c \<noteq> CHR 0x0A \<and> c \<noteq> CHR 0x0D) s)"

section \<open>Host and port\<close>

fun lastIndex :: "char \<Rightarrow> string \<Rightarrow> nat option" where
  "lastIndex c [] = None"
| "lastIndex c (x # xs) =
     (case lastIndex c xs of Some i \<Rightarrow> Some (Suc i) | None \<Rightarrow> if x = c then Some 0 else None)"

definition splitHostPort :: "string \<Rightarrow> (string \<times> string) option" where
  "splitHostPort s =
     (case lastIndex (CHR '':'') s of
        None \<Rightarrow> None
      | Some i \<Rightarrow>
          if hd s = CHR ''['' then
            (case indexByte s (CHR '']'') of
               None \<Rightarrow> None
             | Some e \<Rightarrow>
                 if e + 1 \<noteq> i \<or> CHR ''['' \<in> set (drop 1 s) \<or> CHR '']'' \<in> set (drop (e + 1) s) then None
                 else Some (drop 1 (take e s), drop (i + 1) s))
          else if CHR '':'' \<in> set (take i s) \<or> CHR ''['' \<in> set s \<or> CHR '']'' \<in> set s then None
          else Some (take i s, drop (i + 1) s))"

end
