(* ===== verification/Iscsi_Pdu.thy ===== *)
theory Iscsi_Pdu
  imports Go_Strconv Sha256
begin

text \<open>
  The iSCSI PDUs userspace exchanges with a target during login and logout
  (\<open>internal/iscsi/pdu.go\<close>): the 48-byte Basic Header Segment, big endian, and the text segment of
  NUL-terminated \<open>key=value\<close> pairs. A byte slice is a \<open>string\<close>; a malformed PDU is \<open>None\<close>.
\<close>

unbundle bit_operations_syntax

type_synonym byte = "8 word"

definition byteWord :: "char \<Rightarrow> byte" where
  "byteWord c = word_of_nat (of_char c)"

definition wordByte :: "byte \<Rightarrow> char" where
  "wordByte b = char_of (unat b)"

text \<open>\<open>binary.BigEndian\<close>, for fields of \<open>n\<close> bytes.\<close>

definition putUint :: "nat \<Rightarrow> 'a::len word \<Rightarrow> string" where
  "putUint n x = map char_of (beBytes n x)"

definition getUint :: "nat \<Rightarrow> string \<Rightarrow> 'a::len word" where
  "getUint n h = foldl (\<lambda>a c. push_bit 8 a OR word_of_nat (of_char c)) 0 (take n h)"

section \<open>Headers\<close>

definition bhsLen :: nat where "bhsLen = 48"

definition opLoginReq :: byte where "opLoginReq = 0x03"
definition opLogoutReq :: byte where "opLogoutReq = 0x06"
definition opLoginRsp :: byte where "opLoginRsp = 0x23"
definition opLogoutRsp :: byte where "opLogoutRsp = 0x26"
definition opReject :: byte where "opReject = 0x3f"
definition opImmediate :: byte where "opImmediate = 0x40"
definition opcodeMask :: byte where "opcodeMask = 0x3f"
definition flagTransit :: byte where "flagTransit = 0x80"
definition flagContinue :: byte where "flagContinue = 0x40"
definition flagFinal :: byte where "flagFinal = 0x80"

definition stageSecurity :: byte where "stageSecurity = 0"
definition stageOperational :: byte where "stageOperational = 1"
definition stageFullFeature :: byte where "stageFullFeature = 3"

definition maxLoginDataLen :: nat where "maxLoginDataLen = 8192"

definition logoutReasonCloseSession :: byte where "logoutReasonCloseSession = 0"

lemmas opcode_defs = opLoginReq_def opLogoutReq_def opLoginRsp_def opLogoutRsp_def opReject_def
  opImmediate_def opcodeMask_def flagTransit_def flagContinue_def flagFinal_def logoutReasonCloseSession_def

lemmas stage_defs = stageSecurity_def stageOperational_def stageFullFeature_def

text \<open>An initiator session id: six bytes.\<close>

type_synonym isid = string

definition isidString :: "isid \<Rightarrow> string" where
  "isidString i = hexEncode i"

record loginRequest =
  reqTransit :: bool
  reqContinue :: bool
  reqCSG :: byte
  reqNSG :: byte
  reqISID :: isid
  reqTSIH :: "16 word"
  reqITT :: "32 word"
  reqCID :: "16 word"
  reqCmdSN :: "32 word"
  reqExpStatSN :: "32 word"
  reqData :: string

record loginResponse =
  rspTransit :: bool
  rspContinue :: bool
  rspCSG :: byte
  rspNSG :: byte
  rspVersionMax :: byte
  rspVersionActive :: byte
  rspISID :: isid
  rspTSIH :: "16 word"
  rspITT :: "32 word"
  rspStatSN :: "32 word"
  rspExpCmdSN :: "32 word"
  rspMaxCmdSN :: "32 word"
  rspStatusClass :: byte
  rspStatusDetail :: byte
  rspData :: string

definition putDataSegmentLength :: "nat \<Rightarrow> string" where
  "putDataSegmentLength n = map wordByte [word_of_nat (n div 2 ^ 16), word_of_nat (n div 2 ^ 8), word_of_nat n]"

definition dataSegmentLength :: "string \<Rightarrow> nat" where
  "dataSegmentLength h = of_char (h ! 5) * 2 ^ 16 + of_char (h ! 6) * 2 ^ 8 + of_char (h ! 7)"

definition loginFlags :: "loginRequest \<Rightarrow> byte" where
  "loginFlags r =
     (if reqTransit r then flagTransit else 0) OR (if reqContinue r then flagContinue else 0)
     OR push_bit 2 (reqCSG r AND 3) OR (if reqTransit r then reqNSG r AND 3 else 0)"

definition marshal :: "loginRequest \<Rightarrow> (string \<times> string) option" where
  "marshal r =
     (if length (reqData r) > maxLoginDataLen then None
      else Some
        (map wordByte [opImmediate OR opLoginReq, loginFlags r, 0, 0, 0]
         @ putDataSegmentLength (length (reqData r)) @ reqISID r @ putUint 2 (reqTSIH r)
         @ putUint 4 (reqITT r) @ putUint 2 (reqCID r) @ map wordByte [0, 0]
         @ putUint 4 (reqCmdSN r) @ putUint 4 (reqExpStatSN r) @ map wordByte (replicate 16 0),
         reqData r))"

definition splitPDU :: "string \<Rightarrow> (string \<times> string) option" where
  "splitPDU pdu =
     (if length pdu < bhsLen then None
      else
        (let hdr = take bhsLen pdu; dl = dataSegmentLength hdr; rest = drop bhsLen pdu in
         if byteWord (hdr ! 4) \<noteq> 0 \<or> dl > length rest then None else Some (hdr, take dl rest)))"

definition pduOpcode :: "string \<Rightarrow> byte" where
  "pduOpcode pdu = (if pdu = [] then 0 else byteWord (pdu ! 0) AND opcodeMask)"

definition parseLoginResponse :: "string \<Rightarrow> loginResponse option" where
  "parseLoginResponse pdu =
     (case splitPDU pdu of
        None \<Rightarrow> None
      | Some (hdr, data) \<Rightarrow>
          if byteWord (hdr ! 0) AND opcodeMask \<noteq> opLoginRsp then None
          else
            (let flags = byteWord (hdr ! 1);
                 r = \<lparr>rspTransit = (flags AND flagTransit \<noteq> 0), rspContinue = (flags AND flagContinue \<noteq> 0),
                      rspCSG = drop_bit 2 flags AND 3, rspNSG = flags AND 3,
                      rspVersionMax = byteWord (hdr ! 2), rspVersionActive = byteWord (hdr ! 3),
                      rspISID = take 6 (drop 8 hdr), rspTSIH = getUint 2 (drop 14 hdr),
                      rspITT = getUint 4 (drop 16 hdr), rspStatSN = getUint 4 (drop 24 hdr),
                      rspExpCmdSN = getUint 4 (drop 28 hdr), rspMaxCmdSN = getUint 4 (drop 32 hdr),
                      rspStatusClass = byteWord (hdr ! 36), rspStatusDetail = byteWord (hdr ! 37),
                      rspData = data\<rparr>
             in if rspTransit r \<and> rspContinue r then None else Some r))"

definition marshalLogoutRequest :: string where
  "marshalLogoutRequest =
     map wordByte ([opImmediate OR opLogoutReq, flagFinal OR logoutReasonCloseSession] @ replicate 46 0)"

definition parseLogoutResponse :: "string \<Rightarrow> byte option" where
  "parseLogoutResponse pdu =
     (case splitPDU pdu of
        None \<Rightarrow> None
      | Some (hdr, data) \<Rightarrow>
          if byteWord (hdr ! 0) AND opcodeMask \<noteq> opLogoutRsp then None else Some (byteWord (hdr ! 2)))"

section \<open>Text segments\<close>

type_synonym textKV = "string \<times> string"

definition NUL :: char where "NUL = CHR 0x00"

definition encodeText :: "textKV list \<Rightarrow> string" where
  "encodeText kvs = concat (map (\<lambda>(k, v). k @ [CHR ''=''] @ v @ [NUL]) kvs)"

definition decodePair :: "string \<Rightarrow> textKV option" where
  "decodePair f =
     (case indexByte f (CHR ''='') of
        None \<Rightarrow> None
      | Some i \<Rightarrow> if i = 0 then None else Some (take i f, drop (i + 1) f))"

fun decodePairs :: "string list \<Rightarrow> textKV list option" where
  "decodePairs [] = Some []"
| "decodePairs (f # fs) =
     (if f = [] then decodePairs fs
      else (case decodePair f of None \<Rightarrow> None | Some kv \<Rightarrow> map_option (Cons kv) (decodePairs fs)))"

definition decodeText :: "string \<Rightarrow> textKV list option" where
  "decodeText data = decodePairs (splitOn NUL data)"

section \<open>Round trips\<close>

definition pair_ok :: "textKV \<Rightarrow> bool" where
  "pair_ok kv \<longleftrightarrow> fst kv \<noteq> [] \<and> CHR ''='' \<notin> set (fst kv) \<and> NUL \<notin> set (fst kv) \<and> NUL \<notin> set (snd kv)"

lemma splitOn_field: "c \<notin> set p \<Longrightarrow> splitOn c (p @ c # rest) = p # splitOn c rest"
  by (induction p) auto

lemma splitOn_padding: "splitOn c (replicate n c) = replicate (Suc n) []"
  by (induction n) simp_all

lemma decodePairs_empty [simp]: "decodePairs (replicate n []) = Some []"
  by (induction n) simp_all

lemma encodeText_simps [simp]:
  "encodeText [] = []" "encodeText ((k, v) # kvs) = k @ [CHR ''=''] @ v @ [NUL] @ encodeText kvs"
  by (simp_all add: encodeText_def)

lemma encodeText_append [simp]: "encodeText (xs @ ys) = encodeText xs @ encodeText ys"
  by (simp add: encodeText_def)

lemma decodePair_encoded:
  "pair_ok (k, v) \<Longrightarrow> decodePair (k @ CHR ''='' # v) = Some (k, v)"
  by (simp add: decodePair_def pair_ok_def indexByte_append)

lemma decode_encodeText:
  "list_all pair_ok kvs \<Longrightarrow> decodeText (encodeText kvs @ replicate n NUL) = Some kvs"
proof (induction kvs)
  case Nil
  then show ?case by (simp add: decodeText_def splitOn_padding del: replicate_Suc)
next
  case (Cons kv kvs)
  obtain k v where kv: "kv = (k, v)" by (cases kv)
  then have "NUL \<notin> set (k @ CHR ''='' # v)" using Cons.prems by (auto simp: pair_ok_def NUL_def)
  from splitOn_field [OF this, of "encodeText kvs @ replicate n NUL"]
  show ?case using Cons by (simp add: decodeText_def kv decodePair_encoded)
qed

lemma of_char_wordByte [simp]: "of_char (wordByte b) = unat b"
proof -
  have "unat b < 2 ^ LENGTH(8)" by (rule unsigned_less)
  then show ?thesis by (simp add: wordByte_def)
qed

lemma byteWord_wordByte [simp]: "byteWord (wordByte b) = b"
  by (simp add: byteWord_def)

lemma length_putUint [simp]: "length (putUint n x) = n"
  by (simp add: putUint_def)

lemma length_putDataSegmentLength [simp]: "length (putDataSegmentLength n) = 3"
  by (simp add: putDataSegmentLength_def)

lemma dataSegmentLength_put:
  assumes "n < 2 ^ 24" "length pre = 5"
  shows "dataSegmentLength (pre @ putDataSegmentLength n @ post) = n"
proof -
  have nth: "(pre @ putDataSegmentLength n @ post) ! (5 + i) = putDataSegmentLength n ! i" if "i < 3" for i
    using that assms(2) by (simp add: nth_append)
  have "n div 65536 < 256" using assms(1) by simp
  moreover have "n div 65536 = n div 256 div 256" by (simp add: div_mult2_eq [symmetric])
  then have "n div 65536 * 65536 + n div 256 mod 256 * 256 + n mod 256 = n"
    using div_mult_mod_eq [of "n div 256" 256] div_mult_mod_eq [of n 256] by linarith
  ultimately show ?thesis
    using nth [of 0] nth [of 1] nth [of 2]
    by (simp add: dataSegmentLength_def putDataSegmentLength_def unsigned_of_nat take_bit_eq_mod)
qed

text \<open>A request that fits the kernel's limit is split at the same place on the wire, padding ignored.\<close>

lemma marshal_splits:
  assumes "length (reqISID r) = 6" "length (reqData r) \<le> maxLoginDataLen"
  shows "\<exists>hdr. marshal r = Some (hdr, reqData r) \<and> length hdr = bhsLen \<and>
    splitPDU (hdr @ reqData r @ pad) = Some (hdr, reqData r)"
proof -
  obtain post where post: "marshal r = Some (map wordByte [opImmediate OR opLoginReq, loginFlags r, 0, 0, 0]
      @ putDataSegmentLength (length (reqData r)) @ post, reqData r)" "length post = 40"
    using assms by (simp add: marshal_def putDataSegmentLength_def)
  have lt: "length (reqData r) < 2 ^ 24" using assms(2) by (simp add: maxLoginDataLen_def)
  let ?hdr = "map wordByte [opImmediate OR opLoginReq, loginFlags r, 0, 0, 0]
    @ putDataSegmentLength (length (reqData r)) @ post"
  have len: "length ?hdr = 48" using post(2) by (simp add: putDataSegmentLength_def)
  have "dataSegmentLength ?hdr = length (reqData r)" by (rule dataSegmentLength_put [OF lt]) simp
  then show ?thesis using post(1) len by (simp add: splitPDU_def bhsLen_def Let_def)
qed

end
