(* ===== verification/Md5.thy ===== *)
theory Md5
  imports Sha256
begin

text \<open>
  MD5 (RFC 1321), the digest of Go's \<open>crypto/md5\<close>, which CHAP in an iSCSI login uses by definition
  (\<open>internal/iscsi/chap.go\<close>). The definition is executable; the development relies on the length of
  the digest only.
\<close>

unbundle bit_operations_syntax

text \<open>The binary integer parts of \<open>2^32 * abs (sin i)\<close> for \<open>i\<close> from 1 to 64.\<close>

definition md5_K :: "u32 list" where
  "md5_K = [0xd76aa478, 0xe8c7b756, 0x242070db, 0xc1bdceee, 0xf57c0faf, 0x4787c62a, 0xa8304613, 0xfd469501,
     0x698098d8, 0x8b44f7af, 0xffff5bb1, 0x895cd7be, 0x6b901122, 0xfd987193, 0xa679438e, 0x49b40821,
     0xf61e2562, 0xc040b340, 0x265e5a51, 0xe9b6c7aa, 0xd62f105d, 0x02441453, 0xd8a1e681, 0xe7d3fbc8,
     0x21e1cde6, 0xc33707d6, 0xf4d50d87, 0x455a14ed, 0xa9e3e905, 0xfcefa3f8, 0x676f02d9, 0x8d2a4c8a,
     0xfffa3942, 0x8771f681, 0x6d9d6122, 0xfde5380c, 0xa4beea44, 0x4bdecfa9, 0xf6bb4b60, 0xbebfbc70,
     0x289b7ec6, 0xeaa127fa, 0xd4ef3085, 0x04881d05, 0xd9d4d039, 0xe6db99e5, 0x1fa27cf8, 0xc4ac5665,
     0xf4292244, 0x432aff97, 0xab9423a7, 0xfc93a039, 0x655b59c3, 0x8f0ccc92, 0xffeff47d, 0x85845dd1,
     0x6fa87e4f, 0xfe2ce6e0, 0xa3014314, 0x4e0811a1, 0xf7537e82, 0xbd3af235, 0x2ad7d2bb, 0xeb86d391]"

definition md5_shift :: "nat \<Rightarrow> nat" where
  "md5_shift i =
     (if i < 16 then [7, 12, 17, 22] else if i < 32 then [5, 9, 14, 20]
      else if i < 48 then [4, 11, 16, 23] else [6, 10, 15, 21]) ! (i mod 4)"

definition md5_index :: "nat \<Rightarrow> nat" where
  "md5_index i =
     (if i < 16 then i else if i < 32 then 5 * i + 1 else if i < 48 then 3 * i + 5 else 7 * i) mod 16"

definition md5_mix :: "nat \<Rightarrow> u32 \<Rightarrow> u32 \<Rightarrow> u32 \<Rightarrow> u32" where
  "md5_mix i b c d =
     (if i < 16 then (b AND c) OR (NOT b AND d)
      else if i < 32 then (d AND b) OR (NOT d AND c)
      else if i < 48 then b XOR c XOR d
      else c XOR (b OR NOT d))"

text \<open>Little-endian numbers, as the bytes of the big-endian ones in reverse.\<close>

definition leWord :: "nat list \<Rightarrow> u32" where
  "leWord bs = beWord (rev bs)"

fun md5_round :: "u32 list \<Rightarrow> nat \<Rightarrow> u32 list \<Rightarrow> u32 list" where
  "md5_round m i [a, b, c, d] =
     [d, b + word_rotl (md5_shift i) (md5_mix i b c d + a + md5_K ! i + m ! md5_index i), b, c]"
| "md5_round m i s = s"

definition md5_block :: "nat list \<Rightarrow> u32 list \<Rightarrow> u32 list" where
  "md5_block block s = map2 (+) s (fold (md5_round (map leWord (chunks 16 4 block))) [0..<64] s)"

definition md5_pad :: "nat list \<Rightarrow> nat list" where
  "md5_pad bs = bs @ [128] @ replicate ((119 - length bs mod 64) mod 64) 0
     @ rev (beBytes 8 (of_nat (8 * length bs) :: 64 word))"

definition md5_words :: "nat list \<Rightarrow> u32 list" where
  "md5_words bs =
     (let p = md5_pad bs in
      fold md5_block (chunks (length p div 64) 64 p) [0x67452301, 0xefcdab89, 0x98badcfe, 0x10325476])"

text \<open>\<open>md5.Sum\<close> on a byte string.\<close>

definition md5 :: "string \<Rightarrow> string" where
  "md5 s = map char_of (concat (map (\<lambda>w. rev (beBytes 4 w)) (md5_words (map of_char s))))"

lemma length_md5_round [simp]: "length (md5_round m i s) = length s"
  by (cases "(m, i, s)" rule: md5_round.cases) simp_all

lemma length_md5_rounds [simp]: "length (fold (md5_round m) is s) = length s"
  by (induction "is" arbitrary: s) simp_all

lemma length_md5_blocks [simp]: "length (fold md5_block bs s) = length s"
  by (induction bs arbitrary: s) (simp_all add: md5_block_def)

lemma length_md5 [simp]: "length (md5 s) = 16"
  by (simp add: md5_def md5_words_def Let_def length_concat comp_def sum_list_triv)

end
