(* ===== verification/Iscsi_Chap.thy ===== *)
theory Iscsi_Chap
  imports Iscsi_Pdu Md5
begin

text \<open>
  CHAP in the security stage of an iSCSI login (\<open>internal/iscsi/chap.go\<close>). The challenges this
  process has sent in logins that still run are a count per challenge, absent entries being 0, and
  are shared by all logins. The bytes \<open>crypto/rand\<close> hands to a login are a list of draws, one
  identifier and one challenge each; a used-up list is a failed read.
\<close>

section \<open>Credentials\<close>

record CHAPCredentials =
  Username :: string
  Secret :: string
  MutualUsername :: string
  MutualSecret :: string

definition Mutual :: "CHAPCredentials \<Rightarrow> bool" where
  "Mutual c \<longleftrightarrow> MutualUsername c \<noteq> [] \<or> MutualSecret c \<noteq> []"

definition chapString :: "CHAPCredentials \<Rightarrow> string" where
  "chapString c = ''CHAP{secrets redacted, mutual='' @ (if Mutual c then ''true'' else ''false'') @ ''}''"

datatype chap_error =
    NotBinary | BinaryMalformed | BinaryEmpty | IdentifierInvalid
  | KeyTwice | KeyUnexpected | MethodMissing | MethodNone | MethodOther
  | ChallengeIncomplete | AlgorithmOther | ChallengeTooLong | ChallengeReflected | RandomFailed
  | ErrTargetAuthenticationFailed

datatype credential_error =
    UsernameEmpty | SecretEmpty | MutualUsernameEmpty | MutualSecretEmpty | SecretsEqual

definition validateCHAP :: "CHAPCredentials \<Rightarrow> credential_error option" where
  "validateCHAP c =
     (if Username c = [] then Some UsernameEmpty
      else if Secret c = [] then Some SecretEmpty
      else if Mutual c \<and> MutualUsername c = [] then Some MutualUsernameEmpty
      else if Mutual c \<and> MutualSecret c = [] then Some MutualSecretEmpty
      else if Mutual c \<and> MutualSecret c = Secret c then Some SecretsEqual
      else None)"

section \<open>Values\<close>

definition valueNone :: string where "valueNone = ''None''"
definition authMethodCHAP :: string where "authMethodCHAP = ''CHAP''"
definition chapAlgorithmMD5 :: string where "chapAlgorithmMD5 = ''5''"
definition keyAuthMethod :: string where "keyAuthMethod = ''AuthMethod''"
definition keyCHAPA :: string where "keyCHAPA = ''CHAP_A''"
definition keyCHAPI :: string where "keyCHAPI = ''CHAP_I''"
definition keyCHAPC :: string where "keyCHAPC = ''CHAP_C''"
definition keyCHAPN :: string where "keyCHAPN = ''CHAP_N''"
definition keyCHAPR :: string where "keyCHAPR = ''CHAP_R''"

lemmas chap_keys = keyAuthMethod_def keyCHAPA_def keyCHAPI_def keyCHAPC_def keyCHAPN_def keyCHAPR_def

definition maxCHAPChallengeLength :: nat where "maxCHAPChallengeLength = 1024"

definition chapResponse :: "char \<Rightarrow> string \<Rightarrow> string \<Rightarrow> string" where
  "chapResponse ident secret challenge = md5 ([ident] @ secret @ challenge)"

definition decodeCHAPBinary :: "string \<Rightarrow> chap_error + string" where
  "decodeCHAPBinary v =
     (if length v < 3 \<or> v ! 0 \<noteq> CHR ''0'' then Inl NotBinary
      else
        (let body = drop 2 v;
             decoded =
               (if v ! 1 \<in> {CHR ''x'', CHR ''X''}
                then Some (hexDecode (if length body mod 2 = 1 then ''0'' @ body else body))
                else if v ! 1 \<in> {CHR ''b'', CHR ''B''}
                then Some (case base64Decode True body of None \<Rightarrow> base64Decode False body | Some b \<Rightarrow> Some b)
                else None)
         in case decoded of
              None \<Rightarrow> Inl NotBinary
            | Some None \<Rightarrow> Inl BinaryMalformed
            | Some (Some b) \<Rightarrow> if b = [] then Inl BinaryEmpty else Inr b))"

definition encodeCHAPBinary :: "string \<Rightarrow> string" where
  "encodeCHAPBinary b = ''0x'' @ hexEncode b"

definition parseCHAPID :: "string \<Rightarrow> chap_error + char" where
  "parseCHAPID v =
     (case (if take 2 v \<in> {''0x'', ''0X''} then parseUint (drop 2 v) 16 8 else parseUint v 10 8) of
        None \<Rightarrow> Inl IdentifierInvalid
      | Some n \<Rightarrow> Inr (char_of n))"

section \<open>Outstanding challenges\<close>

type_synonym challenges = "string \<Rightarrow> nat"

definition registerChallenge :: "string \<Rightarrow> challenges \<Rightarrow> challenges" where
  "registerChallenge k m = m(k := m k + 1)"

definition releaseChallenge :: "string \<Rightarrow> challenges \<Rightarrow> challenges" where
  "releaseChallenge k m = m(k := m k - 1)"

definition isOutstandingChallenge :: "string \<Rightarrow> challenges \<Rightarrow> bool" where
  "isOutstandingChallenge c m \<longleftrightarrow> m c > 0"

type_synonym draw = "char \<times> string"

fun newMutualChallenge :: "string \<Rightarrow> draw list \<Rightarrow> (chap_error + draw) \<times> draw list" where
  "newMutualChallenge targetChallenge [] = (Inl RandomFailed, [])"
| "newMutualChallenge targetChallenge (buf # draws) =
     (if snd buf \<noteq> targetChallenge then (Inr buf, draws) else newMutualChallenge targetChallenge draws)"

section \<open>The exchange\<close>

datatype chapStep = chapAwaitMethod | chapAwaitChallenge | chapAwaitResult | chapAwaitMutual | chapDone

text \<open>\<open>release\<close> is the pending release function: the challenge it was made for.\<close>

record chapState =
  creds :: CHAPCredentials
  chapProgress :: chapStep
  recv :: "textKV list"
  chapId :: char
  challenge :: string
  release :: "string option"

definition chapStore :: "textKV \<Rightarrow> chapState \<Rightarrow> chap_error + chapState" where
  "chapStore kv c =
     (if map_of (recv c) (fst kv) \<noteq> None then Inl KeyTwice else Inr (c\<lparr>recv := kv # recv c\<rparr>))"

definition chapClose :: "chapState \<times> challenges \<Rightarrow> chapState \<times> challenges" where
  "chapClose = (\<lambda>(c, out). case release c of
       None \<Rightarrow> (c, out)
     | Some k \<Rightarrow> (c\<lparr>release := None\<rparr>, releaseChallenge k out))"

definition chapUnexpected :: "string list \<Rightarrow> chapState \<Rightarrow> bool" where
  "chapUnexpected allowed c \<longleftrightarrow> list_ex (\<lambda>kv. fst kv \<notin> set allowed) (recv c)"

definition onMethod :: "chapState \<Rightarrow> (chap_error + textKV list \<times> bool) \<times> chapState" where
  "onMethod c =
     (if chapUnexpected [keyAuthMethod] c then (Inl KeyUnexpected, c)
      else
        (case map_of (recv c) keyAuthMethod of
           None \<Rightarrow> (Inl MethodMissing, c)
         | Some m \<Rightarrow>
             if m = valueNone then (Inl MethodNone, c)
             else if m \<noteq> authMethodCHAP then (Inl MethodOther, c)
             else (Inr ([(keyCHAPA, chapAlgorithmMD5)], True), c\<lparr>chapProgress := chapAwaitChallenge\<rparr>)))"

text \<open>The target's identifier and challenge, read from \<open>CHAP_A\<close>, \<open>CHAP_I\<close> and \<open>CHAP_C\<close>.\<close>

definition readChallenge :: "challenges \<Rightarrow> chapState \<Rightarrow> chap_error + draw" where
  "readChallenge out c =
     (if chapUnexpected [keyCHAPA, keyCHAPI, keyCHAPC] c then Inl KeyUnexpected
      else
        (case (map_of (recv c) keyCHAPA, map_of (recv c) keyCHAPI, map_of (recv c) keyCHAPC) of
           (Some a, Some i, Some ch) \<Rightarrow>
             if a \<noteq> chapAlgorithmMD5 then Inl AlgorithmOther
             else
               (case parseCHAPID i of
                  Inl e \<Rightarrow> Inl e
                | Inr ident \<Rightarrow>
                    (case decodeCHAPBinary ch of
                       Inl e \<Rightarrow> Inl e
                     | Inr b \<Rightarrow>
                         if length b > maxCHAPChallengeLength then Inl ChallengeTooLong
                         else if isOutstandingChallenge b out then Inl ChallengeReflected
                         else Inr (ident, b)))
         | _ \<Rightarrow> Inl ChallengeIncomplete))"

definition onChallenge ::
    "challenges \<Rightarrow> draw list \<Rightarrow> chapState
      \<Rightarrow> (chap_error + textKV list \<times> bool) \<times> chapState \<times> challenges \<times> draw list" where
  "onChallenge out draws c =
     (case readChallenge out c of
        Inl e \<Rightarrow> (Inl e, c, out, draws)
      | Inr (ident, targetChallenge) \<Rightarrow>
          (let response = encodeCHAPBinary (chapResponse ident (Secret (creds c)) targetChallenge);
               answer = [(keyCHAPN, Username (creds c)), (keyCHAPR, response)] in
           if \<not> Mutual (creds c) then (Inr (answer, False), c\<lparr>chapProgress := chapAwaitResult\<rparr>, out, draws)
           else
             (case newMutualChallenge targetChallenge draws of
                (Inl e, draws') \<Rightarrow> (Inl e, c\<lparr>chapId := NUL, challenge := []\<rparr>, out, draws')
              | (Inr (i, ch), draws') \<Rightarrow>
                  (Inr (answer @ [(keyCHAPI, formatUint (of_char i)), (keyCHAPC, encodeCHAPBinary ch)], False),
                   c\<lparr>chapId := i, challenge := ch, release := Some ch, chapProgress := chapAwaitMutual\<rparr>,
                   registerChallenge ch out, draws'))))"

definition onMutualResponse :: "challenges \<Rightarrow> chapState \<Rightarrow> chap_error option \<times> chapState \<times> challenges" where
  "onMutualResponse out c =
     (if chapUnexpected [keyCHAPN, keyCHAPR] c then (Some KeyUnexpected, c, out)
      else
        (case (map_of (recv c) keyCHAPN, map_of (recv c) keyCHAPR) of
           (Some name, Some resp) \<Rightarrow>
             if name \<noteq> MutualUsername (creds c)
               \<or> decodeCHAPBinary resp \<noteq> Inr (chapResponse (chapId c) (MutualSecret (creds c)) (challenge c))
             then (Some ErrTargetAuthenticationFailed, c, out)
             else (let (c', out') = chapClose (c, out) in (None, c'\<lparr>chapProgress := chapDone\<rparr>, out'))
         | _ \<Rightarrow> (Some ErrTargetAuthenticationFailed, c, out)))"

definition chapAdvance ::
    "challenges \<Rightarrow> draw list \<Rightarrow> chapState
      \<Rightarrow> (chap_error + textKV list \<times> bool) \<times> chapState \<times> challenges \<times> draw list" where
  "chapAdvance out draws c =
     (let (r, c', out', draws') =
        (case chapProgress c of
           chapAwaitMethod \<Rightarrow> (let (r, c') = onMethod c in (r, c', out, draws))
         | chapAwaitChallenge \<Rightarrow> onChallenge out draws c
         | chapAwaitMutual \<Rightarrow>
             (let (e, c', out') = onMutualResponse out c in
              (case e of None \<Rightarrow> Inr ([], False) | Some x \<Rightarrow> Inl x, c', out', draws))
         | _ \<Rightarrow>
             if chapUnexpected [] c then (Inl KeyUnexpected, c, out, draws)
             else (Inr ([], False), c\<lparr>chapProgress := chapDone\<rparr>, out, draws))
      in (r, c'\<lparr>recv := []\<rparr>, out', draws'))"

section \<open>Facts\<close>

text \<open>A formatted credential does not depend on its secrets.\<close>

lemma chapString_redacts: "Mutual c = Mutual d \<Longrightarrow> chapString c = chapString d"
  by (simp add: chapString_def)

lemma decode_encodeCHAPBinary: "b \<noteq> [] \<Longrightarrow> decodeCHAPBinary (encodeCHAPBinary b) = Inr b"
  by (cases b) (simp_all add: decodeCHAPBinary_def encodeCHAPBinary_def del: hexEncode_simps)

lemma parse_printed_id: "parseCHAPID (formatUint (of_char i)) = Inr i"
proof -
  have "take 2 (formatUint n) \<notin> {''0x'', ''0X''}" for n
  proof
    assume pre: "take 2 (formatUint n) \<in> {''0x'', ''0X''}"
    then obtain c rest where "formatUint n = CHR ''0'' # c # rest"
      by (cases "formatUint n"; cases "tl (formatUint n)") auto
    moreover from this have "n = 0" using formatUint_hd [of n] by simp
    ultimately show False by (simp add: formatUint.simps)
  qed
  then show ?thesis using parse_formatUint(2) [of "of_char i" 8] by (simp add: parseCHAPID_def)
qed

lemma newMutualChallenge_draws:
  "newMutualChallenge t draws = (Inr d, draws') \<Longrightarrow> d \<in> set draws \<and> snd d \<noteq> t \<and> set draws' \<subseteq> set draws"
  by (induction draws) (auto split: if_splits)

text \<open>The answer to a challenge is never a challenge of our own that is still outstanding.\<close>

lemma readChallenge_fresh: "readChallenge out c = Inr (i, ch) \<Longrightarrow> \<not> isOutstandingChallenge ch out"
  by (auto simp: readChallenge_def split: if_splits option.splits sum.splits)

lemma onMutualResponse_proof:
  assumes "onMutualResponse out c = (None, c', out')"
  shows "chapProgress c' = chapDone" "map_of (recv c) keyCHAPN = Some (MutualUsername (creds c))"
    "\<exists>resp. map_of (recv c) keyCHAPR = Some resp \<and>
       decodeCHAPBinary resp = Inr (chapResponse (chapId c) (MutualSecret (creds c)) (challenge c))"
  using assms by (auto simp: onMutualResponse_def Let_def split: if_splits option.splits prod.splits)

end
