(* ===== verification/Iscsi_Login.thy ===== *)
theory Iscsi_Login
  imports Iscsi_Chap
begin

text \<open>
  The login phase of the iSCSI initiator (\<open>internal/iscsi/login.go\<close>): security negotiation followed
  by operational negotiation for a normal session. The exchanger, which carries one request to the
  target and returns its response, is a parameter: a function of the rest of the system, which may
  answer anything, fail, and let other logins of the process register and release challenges.
  Failures are values, one constructor per place of the code that returns an error.
\<close>

section \<open>Portals and session parameters\<close>

record Portal =
  Address :: string
  Port :: int

definition DefaultPort :: int where "DefaultPort = 3260"

definition normalizedPortal :: "Portal \<Rightarrow> Portal" where
  "normalizedPortal p =
     (case parseAddr (Address p) of
        None \<Rightarrow> p
      | Some a \<Rightarrow> if addrZone a = [] then p\<lparr>Address := addrString (Unmap a)\<rparr> else p)"

definition trimBrackets :: "string \<Rightarrow> string" where
  "trimBrackets s =
     (let t = (if s \<noteq> [] \<and> hd s = CHR ''['' then tl s else s) in
      if t \<noteq> [] \<and> last t = CHR '']'' then butlast t else t)"

definition parseTargetAddress :: "string \<Rightarrow> Portal option" where
  "parseTargetAddress v =
     (let addr = takeWhile (\<lambda>c. c \<noteq> CHR '','') v in
      if addr = [] then None
      else
        (case splitHostPort addr of
           None \<Rightarrow> Some (normalizedPortal \<lparr>Address = trimBrackets addr, Port = DefaultPort\<rparr>)
         | Some (host, portStr) \<Rightarrow>
             (case atoi portStr of
                None \<Rightarrow> None
              | Some port \<Rightarrow>
                  if port < 1 \<or> port > 65535 then None
                  else Some (normalizedPortal \<lparr>Address = host, Port = port\<rparr>))))"

text \<open>Durations are nanoseconds, as in Go; a timeout that is not set is \<open>None\<close>.\<close>

record SessionParams =
  spInitiatorIQN :: string
  spTargetIQN :: string
  spPortal :: Portal
  LoginTimeout :: int
  ReplacementTimeout :: "int option"
  NoopOutInterval :: "int option"
  NoopOutTimeout :: "int option"
  spCHAP :: "CHAPCredentials option"

definition DefaultLoginTimeout :: int where "DefaultLoginTimeout = 15 * 10 ^ 9"
definition DefaultReplacementTimeout :: int where "DefaultReplacementTimeout = 120 * 10 ^ 9"
definition DefaultNoopOutInterval :: int where "DefaultNoopOutInterval = 5 * 10 ^ 9"
definition DefaultNoopOutTimeout :: int where "DefaultNoopOutTimeout = 5 * 10 ^ 9"

definition durationOr :: "int option \<Rightarrow> int \<Rightarrow> int option" where
  "durationOr d def = Some (case d of None \<Rightarrow> def | Some v \<Rightarrow> v)"

definition withDefaults :: "SessionParams \<Rightarrow> SessionParams" where
  "withDefaults p =
     p\<lparr>LoginTimeout := (if LoginTimeout p \<le> 0 then DefaultLoginTimeout else LoginTimeout p),
       ReplacementTimeout := durationOr (ReplacementTimeout p) DefaultReplacementTimeout,
       NoopOutInterval := durationOr (NoopOutInterval p) DefaultNoopOutInterval,
       NoopOutTimeout := durationOr (NoopOutTimeout p) DefaultNoopOutTimeout,
       spPortal := normalizedPortal (if Port (spPortal p) = 0 then (spPortal p)\<lparr>Port := DefaultPort\<rparr> else spPortal p)\<rparr>"

datatype session_error =
    InitiatorIQNEmpty | TargetIQNEmpty | PortalAddressEmpty | PortalPortInvalid | ReplacementTimeoutNegative
  | NoopOutIntervalNegative | NoopOutTimeoutNegative | CredentialsInvalid credential_error

definition negative :: "int option \<Rightarrow> bool" where
  "negative d \<longleftrightarrow> (case d of None \<Rightarrow> False | Some v \<Rightarrow> v < 0)"

definition validateSession :: "SessionParams \<Rightarrow> session_error option" where
  "validateSession p =
     (if spInitiatorIQN p = [] then Some InitiatorIQNEmpty
      else if spTargetIQN p = [] then Some TargetIQNEmpty
      else if Address (spPortal p) = [] then Some PortalAddressEmpty
      else if Port (spPortal p) < 1 \<or> Port (spPortal p) > 65535 then Some PortalPortInvalid
      else if negative (ReplacementTimeout p) then Some ReplacementTimeoutNegative
      else if negative (NoopOutInterval p) then Some NoopOutIntervalNegative
      else if negative (NoopOutTimeout p) then Some NoopOutTimeoutNegative
      else map_option CredentialsInvalid (Option.bind (spCHAP p) validateCHAP))"

lemma normalizedPortal_Port [simp]: "Port (normalizedPortal p) = Port p"
  by (simp add: normalizedPortal_def split: option.splits)

text \<open>A portal stays as it is once it is normalized, so two spellings of an address stay equal.\<close>

lemma normalizedPortal_idem: "normalizedPortal (normalizedPortal p) = normalizedPortal p"
proof (cases "parseAddr (Address p)")
  case None
  then show ?thesis by (simp add: normalizedPortal_def)
next
  case (Some a)
  show ?thesis
  proof (cases "addrZone a = []")
    case True
    have zone: "addrZone (Unmap a) = []" using True by (cases a) auto
    with stored_address [OF Some this] show ?thesis using Some True by (simp add: normalizedPortal_def)
  next
    case False
    then show ?thesis using Some by (simp add: normalizedPortal_def)
  qed
qed

lemma withDefaults_idem: "withDefaults (withDefaults p) = withDefaults p"
  by (auto simp: withDefaults_def durationOr_def normalizedPortal_idem DefaultLoginTimeout_def DefaultPort_def)

section \<open>Negotiation\<close>

record negotiated =
  HeaderDigest :: bool
  DataDigest :: bool
  MaxRecvDLength :: u32
  MaxXmitDLength :: u32
  InitialR2T :: bool
  ImmediateData :: bool
  MaxBurstLength :: u32
  FirstBurstLength :: u32
  MaxOutstandingR2T :: u32
  DataPDUInOrder :: bool
  DataSequenceInOrder :: bool
  ErrorRecoveryLevel :: u32
  IFMarker :: bool
  OFMarker :: bool
  DefaultTime2Wait :: u32
  DefaultTime2Retain :: u32

definition offerMaxRecvDataSegmentLength :: nat where "offerMaxRecvDataSegmentLength = 262144"
definition offerMaxBurstLength :: nat where "offerMaxBurstLength = 16776192"
definition offerFirstBurstLength :: nat where "offerFirstBurstLength = 262144"
definition offerMaxOutstandingR2T :: nat where "offerMaxOutstandingR2T = 1"
definition offerDefaultTime2Wait :: nat where "offerDefaultTime2Wait = 2"
definition offerDefaultTime2Retain :: nat where "offerDefaultTime2Retain = 0"
definition offerErrorRecoveryLevel :: nat where "offerErrorRecoveryLevel = 0"
definition maxLoginRounds :: nat where "maxLoginRounds = 32"

lemmas offer_defs = offerMaxRecvDataSegmentLength_def offerMaxBurstLength_def offerFirstBurstLength_def
  offerMaxOutstandingR2T_def offerDefaultTime2Wait_def offerDefaultTime2Retain_def offerErrorRecoveryLevel_def

definition keyMaxRecvDataSegmentLength :: string where
  "keyMaxRecvDataSegmentLength = ''MaxRecvDataSegmentLength''"

definition valueYes :: string where "valueYes = ''Yes''"
definition valueNo :: string where "valueNo = ''No''"

definition rfcDefaults :: negotiated where
  "rfcDefaults = \<lparr>HeaderDigest = False, DataDigest = False,
     MaxRecvDLength = word_of_nat offerMaxRecvDataSegmentLength, MaxXmitDLength = 8192,
     InitialR2T = True, ImmediateData = True, MaxBurstLength = 262144, FirstBurstLength = 65536,
     MaxOutstandingR2T = 1, DataPDUInOrder = True, DataSequenceInOrder = True, ErrorRecoveryLevel = 0,
     IFMarker = False, OFMarker = False, DefaultTime2Wait = 2, DefaultTime2Retain = 20\<rparr>"

datatype keyRule = ruleMin | ruleMax | ruleOr | ruleAnd | ruleDigest

record operationalKey =
  opName :: string
  opRule :: keyRule
  opOffer :: string

definition operationalOffers :: "operationalKey list" where
  "operationalOffers =
     [\<lparr>opName = ''HeaderDigest'', opRule = ruleDigest, opOffer = valueNone\<rparr>,
      \<lparr>opName = ''DataDigest'', opRule = ruleDigest, opOffer = valueNone\<rparr>,
      \<lparr>opName = ''MaxConnections'', opRule = ruleMin, opOffer = ''1''\<rparr>,
      \<lparr>opName = ''InitialR2T'', opRule = ruleOr, opOffer = valueNo\<rparr>,
      \<lparr>opName = ''ImmediateData'', opRule = ruleAnd, opOffer = valueYes\<rparr>,
      \<lparr>opName = ''MaxBurstLength'', opRule = ruleMin, opOffer = formatUint offerMaxBurstLength\<rparr>,
      \<lparr>opName = ''FirstBurstLength'', opRule = ruleMin, opOffer = formatUint offerFirstBurstLength\<rparr>,
      \<lparr>opName = ''DefaultTime2Wait'', opRule = ruleMax, opOffer = formatUint offerDefaultTime2Wait\<rparr>,
      \<lparr>opName = ''DefaultTime2Retain'', opRule = ruleMin, opOffer = formatUint offerDefaultTime2Retain\<rparr>,
      \<lparr>opName = ''MaxOutstandingR2T'', opRule = ruleMin, opOffer = formatUint offerMaxOutstandingR2T\<rparr>,
      \<lparr>opName = ''DataPDUInOrder'', opRule = ruleOr, opOffer = valueYes\<rparr>,
      \<lparr>opName = ''DataSequenceInOrder'', opRule = ruleOr, opOffer = valueYes\<rparr>,
      \<lparr>opName = ''ErrorRecoveryLevel'', opRule = ruleMin, opOffer = formatUint offerErrorRecoveryLevel\<rparr>,
      \<lparr>opName = ''IFMarker'', opRule = ruleAnd, opOffer = valueNo\<rparr>,
      \<lparr>opName = ''OFMarker'', opRule = ruleAnd, opOffer = valueNo\<rparr>]"

definition isNonValue :: "string \<Rightarrow> bool" where
  "isNonValue v \<longleftrightarrow> v = ''Irrelevant'' \<or> v = ''NotUnderstood'' \<or> v = ''Reject''"

definition parseBoolKey :: "string \<Rightarrow> bool option" where
  "parseBoolKey v = (if v = valueYes then Some True else if v = valueNo then Some False else None)"

definition parseNumKey :: "string \<Rightarrow> u32 option" where
  "parseNumKey v = map_option word_of_nat (parseUint v 0 32)"

definition resolveBoolKey :: "operationalKey \<Rightarrow> string \<Rightarrow> string option" where
  "resolveBoolKey k answer =
     (case (parseBoolKey (opOffer k), parseBoolKey answer) of
        (Some ours, Some theirs) \<Rightarrow>
          Some (if (if opRule k = ruleOr then ours \<or> theirs else ours \<and> theirs) then valueYes else valueNo)
      | _ \<Rightarrow> None)"

definition resolveNumKey :: "operationalKey \<Rightarrow> string \<Rightarrow> string option" where
  "resolveNumKey k answer =
     (case (parseNumKey (opOffer k), parseNumKey answer) of
        (Some ours, Some theirs) \<Rightarrow>
          Some (formatUint (unat (if opRule k = ruleMax then max ours theirs else min ours theirs)))
      | _ \<Rightarrow> None)"

definition resolveKey :: "operationalKey \<Rightarrow> string \<Rightarrow> string option" where
  "resolveKey k answer =
     (case opRule k of
        ruleDigest \<Rightarrow> if valueNone \<in> set (splitOn (CHR '','') answer) then Some valueNone else None
      | ruleOr \<Rightarrow> resolveBoolKey k answer
      | ruleAnd \<Rightarrow> resolveBoolKey k answer
      | _ \<Rightarrow> resolveNumKey k answer)"

text \<open>The field a key negotiates, as the assignment to it.\<close>

definition boolField :: "string \<Rightarrow> (bool \<Rightarrow> negotiated \<Rightarrow> negotiated) option" where
  "boolField key =
     (if key = ''InitialR2T'' then Some (\<lambda>b n. n\<lparr>InitialR2T := b\<rparr>)
      else if key = ''ImmediateData'' then Some (\<lambda>b n. n\<lparr>ImmediateData := b\<rparr>)
      else if key = ''DataPDUInOrder'' then Some (\<lambda>b n. n\<lparr>DataPDUInOrder := b\<rparr>)
      else if key = ''DataSequenceInOrder'' then Some (\<lambda>b n. n\<lparr>DataSequenceInOrder := b\<rparr>)
      else if key = ''IFMarker'' then Some (\<lambda>b n. n\<lparr>IFMarker := b\<rparr>)
      else if key = ''OFMarker'' then Some (\<lambda>b n. n\<lparr>OFMarker := b\<rparr>)
      else None)"

definition numField :: "string \<Rightarrow> (u32 \<Rightarrow> negotiated \<Rightarrow> negotiated) option" where
  "numField key =
     (if key = ''MaxBurstLength'' then Some (\<lambda>x n. n\<lparr>MaxBurstLength := x\<rparr>)
      else if key = ''FirstBurstLength'' then Some (\<lambda>x n. n\<lparr>FirstBurstLength := x\<rparr>)
      else if key = ''DefaultTime2Wait'' then Some (\<lambda>x n. n\<lparr>DefaultTime2Wait := x\<rparr>)
      else if key = ''DefaultTime2Retain'' then Some (\<lambda>x n. n\<lparr>DefaultTime2Retain := x\<rparr>)
      else if key = ''MaxOutstandingR2T'' then Some (\<lambda>x n. n\<lparr>MaxOutstandingR2T := x\<rparr>)
      else if key = ''ErrorRecoveryLevel'' then Some (\<lambda>x n. n\<lparr>ErrorRecoveryLevel := x\<rparr>)
      else None)"

definition applyNegotiated :: "string \<Rightarrow> string \<Rightarrow> negotiated \<Rightarrow> negotiated option" where
  "applyNegotiated key v n =
     (if key = ''HeaderDigest'' then Some (n\<lparr>HeaderDigest := v \<noteq> valueNone\<rparr>)
      else if key = ''DataDigest'' then Some (n\<lparr>DataDigest := v \<noteq> valueNone\<rparr>)
      else if key = keyMaxRecvDataSegmentLength then
        (case parseNumKey v of
           None \<Rightarrow> None
         | Some x \<Rightarrow> if x < 512 \<or> x > 16777215 then None else Some (n\<lparr>MaxXmitDLength := x\<rparr>))
      else
        (case boolField key of
           Some dst \<Rightarrow> map_option (\<lambda>b. dst b n) (parseBoolKey v)
         | None \<Rightarrow>
             (case numField key of
                Some dst \<Rightarrow> map_option (\<lambda>x. dst x n) (parseNumKey v)
              | None \<Rightarrow> Some n)))"

definition finalizeNegotiated :: "negotiated \<Rightarrow> negotiated" where
  "finalizeNegotiated n0 =
     (let n = (if FirstBurstLength n0 > MaxBurstLength n0 then n0\<lparr>FirstBurstLength := MaxBurstLength n0\<rparr> else n0)
      in if MaxOutstandingR2T n = 0 then n\<lparr>MaxOutstandingR2T := 1\<rparr> else n)"

section \<open>Login errors\<close>

record LoginError =
  leTarget :: string
  lePortal :: Portal
  leStatusClass :: byte
  leStatusDetail :: byte
  leRedirect :: "Portal option"

definition Retryable :: "LoginError \<Rightarrow> bool" where
  "Retryable e \<longleftrightarrow> leStatusClass e = 1 \<or> leStatusClass e = 3"

text \<open>\<open>errors.Is(e, ErrAuthenticationFailed)\<close>.\<close>

definition isAuthenticationFailed :: "LoginError \<Rightarrow> bool" where
  "isAuthenticationFailed e \<longleftrightarrow> leStatusClass e = 2 \<and> leStatusDetail e = 0x01"

definition sessionDoesNotExist :: "LoginError \<Rightarrow> bool" where
  "sessionDoesNotExist e \<longleftrightarrow> leStatusClass e = 2 \<and> leStatusDetail e = 0x0a"

datatype login_failure =
    ExchangeFailed string | IsidMismatch | TextMalformed | TextUnending
  | TargetRejected LoginError | RedirectMissing LoginError | RedirectInvalid
  | VersionUnsupported | StageMismatch | GroupTagInvalid | AuthKeyUnexpected | AuthMethodRequired
  | ChapFailed chap_error | KeyInvalid | StageInvalid | SecurityIncomplete
  | OperationalSkipped | KeysUnanswered | TsihZero | NoFullFeature

section \<open>The login phase\<close>

record loginInput =
  inInitiatorIQN :: string
  inTargetIQN :: string
  inISID :: isid
  inTSIH :: "16 word"
  inCID :: "16 word"
  inCHAP :: "CHAPCredentials option"

record loginResult =
  resTSIH :: "16 word"
  resTPGT :: int
  resStatSN :: u32
  resTargetAlias :: string
  resParams :: negotiated

record loginState =
  loginIn :: loginInput
  loginPortal :: Portal
  res :: loginResult
  csg :: byte
  pending :: "textKV list"
  offeredOperational :: bool
  answered :: "string list"
  authAccepted :: bool
  chap :: "chapState option"
  holdTransit :: bool
  expStatSN :: u32

definition newLoginState :: "loginInput \<Rightarrow> Portal \<Rightarrow> loginState" where
  "newLoginState inp portal =
     \<lparr>loginIn = inp, loginPortal = portal,
      res = \<lparr>resTSIH = 0, resTPGT = -1, resStatSN = 0, resTargetAlias = [], resParams = rfcDefaults\<rparr>,
      csg = stageSecurity,
      pending = [(''InitiatorName'', inInitiatorIQN inp), (''TargetName'', inTargetIQN inp),
        (''SessionType'', ''Normal''),
        (keyAuthMethod, if inCHAP inp = None then valueNone else authMethodCHAP)],
      offeredOperational = False, answered = [], authAccepted = False,
      chap = map_option (\<lambda>c. \<lparr>creds = c, chapProgress = chapAwaitMethod, recv = [], chapId = NUL, challenge = [],
        release = None\<rparr>) (inCHAP inp),
      holdTransit = False, expStatSN = 0\<rparr>"

definition offerOperational :: "loginState \<Rightarrow> loginState" where
  "offerOperational st =
     (if offeredOperational st then st
      else st\<lparr>pending := pending st
             @ map (\<lambda>k. (opName k, opOffer k)) (filter (\<lambda>k. opName k \<notin> set (answered st)) operationalOffers)
             @ [(keyMaxRecvDataSegmentLength, formatUint offerMaxRecvDataSegmentLength)],
           offeredOperational := True\<rparr>)"

definition nextRequest :: "loginState \<Rightarrow> loginRequest \<times> loginState" where
  "nextRequest st0 =
     (let transit = \<not> holdTransit st0;
          st1 = st0\<lparr>holdTransit := False\<rparr>;
          st = (if csg st1 = stageOperational then offerOperational st1 else st1);
          nsg = (if \<not> transit then 0 else if csg st1 = stageOperational then stageFullFeature else stageOperational)
      in (\<lparr>reqTransit = transit, reqContinue = False, reqCSG = csg st, reqNSG = nsg,
           reqISID = inISID (loginIn st), reqTSIH = inTSIH (loginIn st), reqITT = 0,
           reqCID = inCID (loginIn st), reqCmdSN = 0, reqExpStatSN = expStatSN st,
           reqData = encodeText (pending st)\<rparr>,
          st\<lparr>pending := []\<rparr>))"

fun redirectPortal :: "textKV list \<Rightarrow> Portal option \<Rightarrow> Portal option option" where
  "redirectPortal [] p = Some p"
| "redirectPortal ((k, v) # kvs) p =
     (if k \<noteq> ''TargetAddress'' then redirectPortal kvs p
      else (case parseTargetAddress v of None \<Rightarrow> None | Some q \<Rightarrow> redirectPortal kvs (Some q)))"

definition rejection :: "loginState \<Rightarrow> loginResponse \<Rightarrow> textKV list \<Rightarrow> login_failure" where
  "rejection st resp text =
     (let le = \<lparr>leTarget = inTargetIQN (loginIn st), lePortal = loginPortal st,
                leStatusClass = rspStatusClass resp, leStatusDetail = rspStatusDetail resp, leRedirect = None\<rparr>
      in if rspStatusClass resp \<noteq> 1 then TargetRejected le
         else (case redirectPortal text None of
                 None \<Rightarrow> RedirectInvalid
               | Some None \<Rightarrow> RedirectMissing le
               | Some (Some p) \<Rightarrow> TargetRejected (le\<lparr>leRedirect := Some p\<rparr>)))"

definition checkResponse :: "loginState \<Rightarrow> loginResponse \<Rightarrow> textKV list \<Rightarrow> login_failure option" where
  "checkResponse st resp text =
     (if rspStatusClass resp \<noteq> 0 then Some (rejection st resp text)
      else if rspVersionActive resp \<noteq> 0 then Some VersionUnsupported
      else if rspCSG resp \<noteq> csg st then Some StageMismatch
      else None)"

definition applyAuthKey :: "textKV \<Rightarrow> loginState \<Rightarrow> login_failure + loginState" where
  "applyAuthKey kv st =
     (case chap st of
        Some c \<Rightarrow> (case chapStore kv c of Inl e \<Rightarrow> Inl (ChapFailed e) | Inr c' \<Rightarrow> Inr (st\<lparr>chap := Some c'\<rparr>))
      | None \<Rightarrow>
          if fst kv \<noteq> keyAuthMethod then Inl AuthKeyUnexpected
          else if snd kv \<noteq> valueNone then Inl AuthMethodRequired
          else Inr (st\<lparr>authAccepted := True\<rparr>))"

definition storeParams :: "loginState \<Rightarrow> negotiated option \<Rightarrow> login_failure + loginState" where
  "storeParams st n =
     (case n of None \<Rightarrow> Inl KeyInvalid | Some n' \<Rightarrow> Inr (st\<lparr>res := (res st)\<lparr>resParams := n'\<rparr>\<rparr>))"

definition applyOperational :: "textKV \<Rightarrow> loginState \<Rightarrow> login_failure + loginState" where
  "applyOperational kv st =
     (case find (\<lambda>k. opName k = fst kv) operationalOffers of
        None \<Rightarrow>
          Inr (if isNonValue (snd kv) then st else st\<lparr>pending := pending st @ [(fst kv, ''NotUnderstood'')]\<rparr>)
      | Some k \<Rightarrow>
          if isNonValue (snd kv) then Inr st
          else
            (case resolveKey k (snd kv) of
               None \<Rightarrow> Inl KeyInvalid
             | Some v \<Rightarrow>
                 (let st' = (if offeredOperational st then st
                             else st\<lparr>pending := pending st @ [(fst kv, v)], answered := fst kv # answered st\<rparr>)
                  in storeParams st' (applyNegotiated (fst kv) v (resParams (res st'))))))"

definition applyKey :: "textKV \<Rightarrow> loginState \<Rightarrow> login_failure + loginState" where
  "applyKey kv st =
     (if fst kv \<in> {keyAuthMethod, keyCHAPA, keyCHAPI, keyCHAPC, keyCHAPN, keyCHAPR} then applyAuthKey kv st
      else if fst kv = ''TargetPortalGroupTag'' then
        (case parseUint (snd kv) 0 16 of
           None \<Rightarrow> Inl GroupTagInvalid
         | Some tpgt \<Rightarrow> Inr (st\<lparr>res := (res st)\<lparr>resTPGT := int tpgt\<rparr>\<rparr>))
      else if fst kv = ''TargetAlias'' then Inr (st\<lparr>res := (res st)\<lparr>resTargetAlias := snd kv\<rparr>\<rparr>)
      else if fst kv = ''TargetAddress'' then Inr st
      else if fst kv = keyMaxRecvDataSegmentLength then
        storeParams st (applyNegotiated (fst kv) (snd kv) (resParams (res st)))
      else applyOperational kv st)"

fun applyText :: "textKV list \<Rightarrow> loginState \<Rightarrow> login_failure + loginState" where
  "applyText [] st = Inr st"
| "applyText (kv # kvs) st = (case applyKey kv st of Inl e \<Rightarrow> Inl e | Inr st' \<Rightarrow> applyText kvs st')"

definition advanceCHAP ::
    "challenges \<Rightarrow> draw list \<Rightarrow> loginState \<Rightarrow> login_failure option \<times> loginState \<times> challenges \<times> draw list" where
  "advanceCHAP out draws st =
     (case chap st of
        None \<Rightarrow> (None, st, out, draws)
      | Some c \<Rightarrow>
          if csg st \<noteq> stageSecurity then
            (if chapUnexpected [] c then Some (ChapFailed KeyUnexpected) else None,
             st\<lparr>chap := Some (c\<lparr>recv := []\<rparr>)\<rparr>, out, draws)
          else
            (case chapAdvance out draws c of
               (Inl e, c', out', draws') \<Rightarrow> (Some (ChapFailed e), st\<lparr>chap := Some c'\<rparr>, out', draws')
             | (Inr (send, hold), c', out', draws') \<Rightarrow>
                 (None, st\<lparr>chap := Some c', pending := pending st @ send, holdTransit := hold\<rparr>, out', draws')))"

definition securityDone :: "loginState \<Rightarrow> bool" where
  "securityDone st = (case chap st of Some c \<Rightarrow> chapProgress c = chapDone | None \<Rightarrow> authAccepted st)"

definition finish :: "loginResponse \<Rightarrow> loginState \<Rightarrow> login_failure + loginState" where
  "finish resp st =
     (if \<not> offeredOperational st \<or> csg st \<noteq> stageOperational then Inl OperationalSkipped
      else if pending st \<noteq> [] then Inl KeysUnanswered
      else if rspTSIH resp = 0 then Inl TsihZero
      else Inr (st\<lparr>res := (res st)\<lparr>resTSIH := rspTSIH resp, resStatSN := rspStatSN resp,
                                    resParams := finalizeNegotiated (resParams (res st))\<rparr>\<rparr>))"

definition transition :: "loginResponse \<Rightarrow> loginState \<Rightarrow> login_failure + bool \<times> loginState" where
  "transition resp st =
     (if rspNSG resp = stageFullFeature then
        (case finish resp st of Inl e \<Rightarrow> Inl e | Inr st' \<Rightarrow> Inr (True, st'))
      else if rspNSG resp = stageOperational then
        (if csg st = stageSecurity \<and> \<not> securityDone st then Inl SecurityIncomplete
         else Inr (False, st\<lparr>csg := stageOperational\<rparr>))
      else Inl StageInvalid)"

section \<open>The exchange with the target\<close>

type_synonym 'w login_env = "challenges \<times> 'w"
type_synonym 'w loginExchanger = "'w login_env \<Rightarrow> loginRequest \<Rightarrow> (string + loginResponse) \<times> 'w login_env"

fun exchangeFrom ::
    "'w loginExchanger \<Rightarrow> nat \<Rightarrow> string \<Rightarrow> loginRequest \<Rightarrow> u32 \<Rightarrow> 'w login_env
      \<Rightarrow> (login_failure + loginResponse \<times> textKV list) \<times> u32 \<times> 'w login_env" where
  "exchangeFrom ex 0 buf req sn env = (Inl TextUnending, sn, env)"
| "exchangeFrom ex (Suc rounds) buf req sn env =
     (case ex env req of
        (Inl e, env') \<Rightarrow> (Inl (ExchangeFailed e), sn, env')
      | (Inr resp, env') \<Rightarrow>
          if rspStatusClass resp = 0 \<and> reqISID req \<noteq> rspISID resp then (Inl IsidMismatch, sn, env')
          else
            (let sn' = rspStatSN resp + 1; buf' = buf @ rspData resp in
             if rspStatusClass resp \<noteq> 0 \<or> \<not> rspContinue resp then
               (case decodeText buf' of
                  None \<Rightarrow> (Inl TextMalformed, sn', env')
                | Some text \<Rightarrow> (Inr (resp, text), sn', env'))
             else
               exchangeFrom ex rounds buf'
                 \<lparr>reqTransit = False, reqContinue = False, reqCSG = reqCSG req, reqNSG = 0,
                  reqISID = reqISID req, reqTSIH = reqTSIH req, reqITT = 0, reqCID = reqCID req,
                  reqCmdSN = 0, reqExpStatSN = sn', reqData = []\<rparr>
                 sn' env'))"

definition exchangeComplete ::
    "'w loginExchanger \<Rightarrow> loginRequest \<Rightarrow> u32 \<Rightarrow> 'w login_env
      \<Rightarrow> (login_failure + loginResponse \<times> textKV list) \<times> u32 \<times> 'w login_env" where
  "exchangeComplete ex req sn env = exchangeFrom ex maxLoginRounds [] req sn env"

text \<open>
  What happens to one complete response; the flag tells that the full feature phase is reached. When
  reading the text fails the login ends, and nothing the text had already changed is used again.
\<close>

definition handleResponse ::
    "loginResponse \<Rightarrow> textKV list \<Rightarrow> challenges \<Rightarrow> draw list \<Rightarrow> loginState
      \<Rightarrow> (login_failure + bool) \<times> loginState \<times> challenges \<times> draw list" where
  "handleResponse resp text out draws st =
     (case checkResponse st resp text of
        Some e \<Rightarrow> (Inl e, st, out, draws)
      | None \<Rightarrow>
          (case applyText text st of
             Inl e \<Rightarrow> (Inl e, st, out, draws)
           | Inr st1 \<Rightarrow>
               (case advanceCHAP out draws st1 of
                  (Some e, st2, out', draws') \<Rightarrow> (Inl e, st2, out', draws')
                | (None, st2, out', draws') \<Rightarrow>
                    if \<not> rspTransit resp then (Inr False, st2, out', draws')
                    else
                      (case transition resp st2 of
                         Inl e \<Rightarrow> (Inl e, st2, out', draws')
                       | Inr (done, st3) \<Rightarrow> (Inr done, st3, out', draws')))))"

fun loginRounds ::
    "'w loginExchanger \<Rightarrow> nat \<Rightarrow> loginState \<Rightarrow> draw list \<Rightarrow> 'w login_env
      \<Rightarrow> (login_failure + loginResult) \<times> loginState \<times> 'w login_env" where
  "loginRounds ex 0 st draws env = (Inl NoFullFeature, st, env)"
| "loginRounds ex (Suc rounds) st draws env =
     (let (req, st1) = nextRequest st in
      case exchangeComplete ex req (expStatSN st1) env of
        (Inl e, sn, env1) \<Rightarrow> (Inl e, st1\<lparr>expStatSN := sn\<rparr>, env1)
      | (Inr (resp, text), sn, env1) \<Rightarrow>
          (case handleResponse resp text (fst env1) draws (st1\<lparr>expStatSN := sn\<rparr>) of
             (Inl e, st2, out, draws') \<Rightarrow> (Inl e, st2, (out, snd env1))
           | (Inr True, st2, out, draws') \<Rightarrow> (Inr (res st2), st2, (out, snd env1))
           | (Inr False, st2, out, draws') \<Rightarrow> loginRounds ex rounds st2 draws' (out, snd env1)))"

definition closeLogin :: "loginState \<Rightarrow> 'w login_env \<Rightarrow> 'w login_env" where
  "closeLogin st env =
     (case chap st of None \<Rightarrow> env | Some c \<Rightarrow> (snd (chapClose (c, fst env)), snd env))"

definition loginSession ::
    "'w loginExchanger \<Rightarrow> draw list \<Rightarrow> loginInput \<Rightarrow> Portal \<Rightarrow> 'w login_env
      \<Rightarrow> (login_failure + loginResult) \<times> 'w login_env" where
  "loginSession ex draws inp portal env =
     (case loginRounds ex maxLoginRounds (newLoginState inp portal) draws env of
        (r, st, env') \<Rightarrow> (r, closeLogin st env'))"

end
