(* ===== verification/Iscsi_Negotiation.thy ===== *)
theory Iscsi_Negotiation
  imports Iscsi_Login
begin

text \<open>
  The operational parameters of a completed iSCSI login are within the limits the initiator
  supports, whatever the target answers.
\<close>

section \<open>Negotiated parameters\<close>

definition params_ok :: "negotiated \<Rightarrow> bool" where
  "params_ok n \<longleftrightarrow>
     \<not> HeaderDigest n \<and> \<not> DataDigest n \<and> \<not> IFMarker n \<and> \<not> OFMarker n \<and>
     DataPDUInOrder n \<and> DataSequenceInOrder n \<and> ErrorRecoveryLevel n = 0 \<and>
     MaxRecvDLength n = 262144 \<and> 512 \<le> MaxXmitDLength n \<and> MaxXmitDLength n \<le> 16777215 \<and>
     MaxBurstLength n \<le> 16776192 \<and> FirstBurstLength n \<le> 262144 \<and> MaxOutstandingR2T n \<le> 1 \<and>
     2 \<le> DefaultTime2Wait n \<and> DefaultTime2Retain n \<le> 20"

lemma parseNumKey_format: "n < 2 ^ 32 \<Longrightarrow> parseNumKey (formatUint n) = Some (word_of_nat n)"
  using parse_formatUint(1) [of n 32] by (simp add: parseNumKey_def)

lemma parseNumKey_printed [simp]: "parseNumKey (formatUint (unat x)) = Some x"
proof -
  have "unat x < 2 ^ LENGTH(32)" by (rule unsigned_less)
  then show ?thesis by (simp add: parseNumKey_format)
qed

lemma rfcDefaults_ok: "params_ok rfcDefaults"
  by (simp add: params_ok_def rfcDefaults_def offer_defs)

lemma declared_length_ok:
  "applyNegotiated keyMaxRecvDataSegmentLength v n = Some n' \<Longrightarrow> params_ok n \<Longrightarrow> params_ok n'"
  by (auto simp: applyNegotiated_def keyMaxRecvDataSegmentLength_def params_ok_def not_less
      split: option.splits if_splits)

lemma parseBoolKey_simps [simp]:
  "parseBoolKey valueYes = Some True" "parseBoolKey valueNo = Some False"
  by (simp_all add: parseBoolKey_def valueYes_def valueNo_def)

lemma parseNumKey_offers:
  "parseNumKey (formatUint offerMaxBurstLength) = Some 16776192"
  "parseNumKey (formatUint offerFirstBurstLength) = Some 262144"
  "parseNumKey (formatUint offerDefaultTime2Wait) = Some 2"
  "parseNumKey (formatUint offerDefaultTime2Retain) = Some 0"
  "parseNumKey (formatUint offerMaxOutstandingR2T) = Some 1"
  "parseNumKey (formatUint offerErrorRecoveryLevel) = Some 0"
  by (simp_all add: parseNumKey_format offer_defs)

text \<open>The value a key is resolved to, by its rule.\<close>

lemma resolved_digest: "opRule k = ruleDigest \<Longrightarrow> resolveKey k a = Some v \<Longrightarrow> v = valueNone"
  by (simp add: resolveKey_def split: if_splits)

lemma resolved_or:
  "opRule k = ruleOr \<Longrightarrow> opOffer k = valueYes \<Longrightarrow> resolveKey k a = Some v \<Longrightarrow> v = valueYes"
  by (auto simp: resolveKey_def resolveBoolKey_def split: option.splits)

lemma resolved_and:
  "opRule k = ruleAnd \<Longrightarrow> opOffer k = valueNo \<Longrightarrow> resolveKey k a = Some v \<Longrightarrow> v = valueNo"
  by (auto simp: resolveKey_def resolveBoolKey_def split: option.splits)

lemma resolved_min:
  "opRule k = ruleMin \<Longrightarrow> parseNumKey (opOffer k) = Some x \<Longrightarrow> resolveKey k a = Some v \<Longrightarrow>
     \<exists>y. parseNumKey v = Some y \<and> y \<le> x"
  by (auto simp: resolveKey_def resolveNumKey_def split: option.splits)

lemma resolved_max:
  "opRule k = ruleMax \<Longrightarrow> parseNumKey (opOffer k) = Some x \<Longrightarrow> resolveKey k a = Some v \<Longrightarrow>
     \<exists>y. parseNumKey v = Some y \<and> x \<le> y"
  by (auto simp: resolveKey_def resolveNumKey_def split: option.splits)

lemmas resolved_rules = resolved_or resolved_and resolved_min resolved_max

lemmas apply_defs = applyNegotiated_def boolField_def numField_def keyMaxRecvDataSegmentLength_def

lemma applied_key_ok:
  assumes "k \<in> set operationalOffers" "resolveKey k a = Some v"
    "applyNegotiated (opName k) v n = Some n'" "params_ok n"
  shows "params_ok n'"
proof -
  note r = resolved_rules [OF _ _ assms(2)] resolved_digest [OF _ assms(2)]
  from assms(1) show ?thesis
    unfolding operationalOffers_def list.set insert_iff empty_iff
    by (elim disjE FalseE) (use assms(3,4) r in \<open>auto simp: apply_defs parseNumKey_offers params_ok_def\<close>)
qed

abbreviation stParams :: "loginState \<Rightarrow> negotiated" where
  "stParams st \<equiv> resParams (res st)"

lemma storeParams_Inr:
  "storeParams st n = Inr st' \<Longrightarrow> \<exists>n'. n = Some n' \<and> st' = st\<lparr>res := (res st)\<lparr>resParams := n'\<rparr>\<rparr>"
  by (auto simp: storeParams_def split: option.splits)

lemma applyOperational_params:
  assumes "applyOperational kv st = Inr st'" "params_ok (stParams st)"
  shows "params_ok (stParams st')"
proof (cases "find (\<lambda>k. opName k = fst kv) operationalOffers")
  case None
  then show ?thesis using assms by (auto simp: applyOperational_def split: if_splits)
next
  case (Some k)
  then have k: "k \<in> set operationalOffers" "opName k = fst kv" by (auto simp: find_Some_iff)
  show ?thesis
  proof (cases "isNonValue (snd kv)")
    case True
    then show ?thesis using assms Some by (simp add: applyOperational_def)
  next
    case False
    then obtain v where v: "resolveKey k (snd kv) = Some v"
      using assms(1) Some by (auto simp: applyOperational_def split: option.splits)
    obtain n' where "applyNegotiated (opName k) v (stParams st) = Some n'" "stParams st' = n'"
      using assms(1) Some False v k(2)
      by (auto simp: applyOperational_def Let_def dest!: storeParams_Inr split: if_splits)
    then show ?thesis using applied_key_ok [OF k(1) v] assms(2) by simp
  qed
qed

lemma applyKey_params:
  "applyKey kv st = Inr st' \<Longrightarrow> params_ok (stParams st) \<Longrightarrow> params_ok (stParams st')"
  by (auto simp: applyKey_def applyAuthKey_def applyOperational_params declared_length_ok
      dest!: storeParams_Inr split: if_splits option.splits sum.splits)

lemma applyText_params:
  "applyText kvs st = Inr st' \<Longrightarrow> params_ok (stParams st) \<Longrightarrow> params_ok (stParams st')"
  by (induction kvs arbitrary: st) (auto split: sum.splits dest: applyKey_params)

lemma advanceCHAP_res:
  "advanceCHAP out draws st = (e, st', out', draws') \<Longrightarrow> res st' = res st \<and> csg st' = csg st"
  by (auto simp: advanceCHAP_def split: option.splits if_splits prod.splits sum.splits)

lemma nextRequest_res: "nextRequest st = (req, st') \<Longrightarrow> res st' = res st \<and> csg st' = csg st \<and> chap st' = chap st"
  by (auto simp: nextRequest_def offerOperational_def Let_def split: if_splits)

text \<open>Every round keeps the parameters within the limits.\<close>

lemma handleResponse_params:
  assumes "handleResponse resp text out draws st = (Inr False, st', out', draws')" "params_ok (stParams st)"
  shows "params_ok (stParams st')"
  using assms
  by (auto simp: handleResponse_def transition_def finish_def dest!: advanceCHAP_res applyText_params
      split: option.splits sum.splits prod.splits if_splits)

lemma handleResponse_final:
  assumes "handleResponse resp text out draws st = (Inr True, st', out', draws')" "params_ok (stParams st)"
  shows "resTSIH (res st') \<noteq> 0 \<and> csg st' = stageOperational \<and>
    (\<exists>n. params_ok n \<and> stParams st' = finalizeNegotiated n)"
  using assms
  by (auto simp: handleResponse_def transition_def finish_def dest!: advanceCHAP_res applyText_params
      split: option.splits sum.splits prod.splits if_splits)

lemma loginRounds_params:
  assumes "loginRounds ex rounds st draws env = (Inr r, st', env')" "params_ok (stParams st)"
  shows "resTSIH r \<noteq> 0 \<and> (\<exists>n. params_ok n \<and> resParams r = finalizeNegotiated n)"
  using assms
proof (induction rounds arbitrary: st draws env)
  case 0
  then show ?case by simp
next
  case (Suc rounds)
  obtain req st1 where req: "nextRequest st = (req, st1)" by (cases "nextRequest st")
  obtain resp kvs sn env1 where ex: "exchangeComplete ex req (expStatSN st1) env = (Inr (resp, kvs), sn, env1)"
    using Suc.prems(1) req by (auto split: prod.splits sum.splits)
  obtain h st2 out draws' where h: "handleResponse resp kvs (fst env1) draws (st1\<lparr>expStatSN := sn\<rparr>) = (h, st2, out, draws')"
    by (rule prod_cases4)
  have p: "params_ok (stParams (st1\<lparr>expStatSN := sn\<rparr>))" using Suc.prems(2) nextRequest_res [OF req] by simp
  consider "h = Inr True" | "h = Inr False" | e where "h = Inl e" by (cases h) auto
  then show ?case
  proof cases
    case 1
    then show ?thesis using Suc.prems(1) req ex h handleResponse_final [OF _ p] by auto
  next
    case 2
    then show ?thesis using Suc.prems(1) req ex h Suc.IH handleResponse_params [OF _ p] by auto
  next
    case 3
    then show ?thesis using Suc.prems(1) req ex h by auto
  qed
qed

lemma loginSession_Inr:
  "loginSession ex draws inp portal env = (Inr r, env') \<Longrightarrow>
     \<exists>st' env1. loginRounds ex maxLoginRounds (newLoginState inp portal) draws env = (Inr r, st', env1)"
  by (auto simp: loginSession_def split: prod.splits)

lemma finalizeNegotiated_ok:
  assumes "params_ok n"
  shows "params_ok (finalizeNegotiated n) \<and> FirstBurstLength (finalizeNegotiated n) \<le> MaxBurstLength (finalizeNegotiated n) \<and>
    MaxOutstandingR2T (finalizeNegotiated n) = 1"
proof -
  have "x = 1" if "x \<noteq> 0" "x \<le> 1" for x :: u32
  proof -
    have "unat x \<le> 1" "unat x \<noteq> 0" using that by (simp_all add: word_le_nat_alt unat_eq_0)
    then have "unat x = 1" by linarith
    then show ?thesis by (metis unsigned_1 unsigned_word_eqI)
  qed
  then show ?thesis using assms by (auto simp: finalizeNegotiated_def params_ok_def Let_def)
qed

section \<open>The property\<close>

text \<open>
  C20: Whatever a target answers, a login that succeeds hands the kernel parameters the initiator
  supports: no digests and no markers, data in order, error recovery level 0, one outstanding R2T,
  the declared receive length 262144, a transmit length between 512 and 16777215, a first burst that
  is at most 262144 and at most the burst length, which is at most 16776192, and a session handle
  that is not zero.
\<close>

theorem login_parameters_supported:
  assumes "loginSession ex draws inp portal env = (Inr r, env')"
  shows "params_ok (resParams r) \<and> FirstBurstLength (resParams r) \<le> MaxBurstLength (resParams r) \<and>
    MaxOutstandingR2T (resParams r) = 1 \<and> resTSIH r \<noteq> 0"
proof -
  obtain st' env1 where "loginRounds ex maxLoginRounds (newLoginState inp portal) draws env = (Inr r, st', env1)"
    using loginSession_Inr [OF assms] by blast
  from loginRounds_params [OF this] show ?thesis
    using finalizeNegotiated_ok rfcDefaults_ok by (auto simp: newLoginState_def)
qed

end
