(* ===== verification/Iscsi_Authentication.thy ===== *)
theory Iscsi_Authentication
  imports Iscsi_Negotiation
begin

text \<open>
  CHAP credentials are never negotiated away. The conversation with the target is recorded by
  wrapping the exchanger, which stays arbitrary: the target may answer anything.
\<close>

section \<open>The conversation\<close>

type_synonym conversation = "(loginRequest \<times> loginResponse) list"

definition recorded :: "'w loginExchanger \<Rightarrow> ('w \<times> conversation) loginExchanger" where
  "recorded ex = (\<lambda>(out, w, l) req.
     case ex (out, w) req of
       (Inl e, out', w') \<Rightarrow> (Inl e, out', w', l)
     | (Inr resp, out', w') \<Rightarrow> (Inr resp, out', w', l @ [(req, resp)]))"

text \<open>The text of one complete response: its parts, and the request that they answer.\<close>

definition answerText :: "conversation \<Rightarrow> textKV list option" where
  "answerText seg = decodeText (concat (map (\<lambda>x. rspData (snd x)) seg))"

lemma exchangeFrom_recorded:
  assumes "exchangeFrom (recorded ex) rounds buf req sn (out, w, l) = (Inr (resp, kvs), sn', out', w', l')"
  shows "\<exists>seg. l' = l @ seg \<and> seg \<noteq> [] \<and> fst (hd seg) = req \<and>
    decodeText (buf @ concat (map (\<lambda>x. rspData (snd x)) seg)) = Some kvs"
  using assms
proof (induction rounds arbitrary: buf req sn out w l)
  case 0
  then show ?case by simp
next
  case (Suc rounds)
  obtain r out1 w1 where r: "ex (out, w) req = (r, out1, w1)" by (rule prod_cases3)
  then obtain rsp where rsp: "r = Inr rsp" using Suc.prems by (cases r) (auto simp: recorded_def)
  have step: "recorded ex (out, w, l) req = (Inr rsp, out1, w1, l @ [(req, rsp)])"
    using r rsp by (simp add: recorded_def)
  have isid: "\<not> (rspStatusClass rsp = 0 \<and> reqISID req \<noteq> rspISID rsp)"
    using Suc.prems step by (auto split: if_splits)
  show ?case
  proof (cases "rspStatusClass rsp \<noteq> 0 \<or> \<not> rspContinue rsp")
    case True
    then have "decodeText (buf @ rspData rsp) = Some kvs" "l' = l @ [(req, rsp)]"
      using Suc.prems step isid by (auto simp: Let_def split: option.splits)
    then show ?thesis by (intro exI [of _ "[(req, rsp)]"]) simp
  next
    case False
    then obtain seg where "l' = (l @ [(req, rsp)]) @ seg"
      "decodeText ((buf @ rspData rsp) @ concat (map (\<lambda>x. rspData (snd x)) seg)) = Some kvs"
      using Suc.prems step isid Suc.IH by (fastforce simp: Let_def)
    then show ?thesis by (intro exI [of _ "(req, rsp) # seg"]) simp
  qed
qed

lemma exchangeComplete_recorded:
  "exchangeComplete (recorded ex) req sn (out, w, l) = (Inr (resp, kvs), sn', out', w', l') \<Longrightarrow>
    \<exists>seg. l' = l @ seg \<and> seg \<noteq> [] \<and> fst (hd seg) = req \<and> answerText seg = Some kvs"
  using exchangeFrom_recorded [of ex maxLoginRounds "[]"] by (simp add: exchangeComplete_def answerText_def)

section \<open>What was said\<close>

text \<open>The target accepted CHAP as the method.\<close>

definition methodAgreed :: "conversation \<Rightarrow> bool" where
  "methodAgreed l \<longleftrightarrow>
     (\<exists>pre seg post kvs. l = pre @ seg @ post \<and> answerText seg = Some kvs \<and>
       (keyAuthMethod, authMethodCHAP) \<in> set kvs)"

text \<open>
  The target answered a request that carried our identifier and challenge with the mutual user name
  and with the response that only the mutual secret gives.
\<close>

definition targetProved :: "CHAPCredentials \<Rightarrow> draw set \<Rightarrow> conversation \<Rightarrow> bool" where
  "targetProved c D l \<longleftrightarrow>
     (\<exists>pre seg post asked kvs i ch resp. l = pre @ seg @ post \<and> seg \<noteq> [] \<and> (i, ch) \<in> D \<and>
       reqData (fst (hd seg)) = encodeText asked \<and>
       (keyCHAPI, formatUint (of_char i)) \<in> set asked \<and> (keyCHAPC, encodeCHAPBinary ch) \<in> set asked \<and>
       answerText seg = Some kvs \<and> (keyCHAPN, MutualUsername c) \<in> set kvs \<and>
       (keyCHAPR, resp) \<in> set kvs \<and> decodeCHAPBinary resp = Inr (chapResponse i (MutualSecret c) ch))"

lemma methodAgreed_append: "methodAgreed l \<Longrightarrow> methodAgreed (l @ l')"
  unfolding methodAgreed_def by (metis append.assoc)

lemma targetProved_append: "targetProved c D l \<Longrightarrow> targetProved c D (l @ l')"
  unfolding targetProved_def by (metis append.assoc)

section \<open>Steps of the login\<close>

text \<open>Reading a text changes the CHAP state only by storing keys of that text.\<close>

definition same_exchange :: "chapState \<Rightarrow> chapState \<Rightarrow> bool" where
  "same_exchange c c' \<longleftrightarrow> creds c' = creds c \<and> chapProgress c' = chapProgress c \<and> chapId c' = chapId c \<and> challenge c' = challenge c"

lemma same_exchange_refl [simp]: "same_exchange c c"
  by (simp add: same_exchange_def)

lemma same_exchange_trans: "same_exchange a b \<Longrightarrow> same_exchange b c \<Longrightarrow> same_exchange a c"
  by (simp add: same_exchange_def)

lemma applyAuthKey_chap:
  assumes "applyAuthKey kv st = Inr st'" "chap st = Some c"
  shows "csg st' = csg st \<and> pending st' = pending st \<and>
    (\<exists>c'. chap st' = Some c' \<and> same_exchange c c' \<and> set (recv c') \<subseteq> insert kv (set (recv c)))"
  using assms by (auto simp: applyAuthKey_def chapStore_def same_exchange_def split: if_splits option.splits)

lemma applyOperational_chap:
  assumes "applyOperational kv st = Inr st'"
  shows "csg st' = csg st \<and> chap st' = chap st"
  using assms
  by (auto simp: applyOperational_def Let_def dest!: storeParams_Inr split: if_splits option.splits)

lemma applyKey_chap:
  assumes "applyKey kv st = Inr st'" "chap st = Some c"
  shows "csg st' = csg st \<and>
    (\<exists>c'. chap st' = Some c' \<and> same_exchange c c' \<and> set (recv c') \<subseteq> insert kv (set (recv c)))"
proof (cases "fst kv \<in> {keyAuthMethod, keyCHAPA, keyCHAPI, keyCHAPC, keyCHAPN, keyCHAPR}")
  case True
  then show ?thesis using assms applyAuthKey_chap [of kv st st' c] by (simp add: applyKey_def)
next
  case False
  then have "csg st' = csg st \<and> chap st' = chap st"
    using assms(1) applyOperational_chap [of kv st st']
    by (auto simp: applyKey_def dest!: storeParams_Inr split: if_splits option.splits)
  then show ?thesis using assms(2) by auto
qed

lemma applyText_chap:
  assumes "applyText kvs st = Inr st'" "chap st = Some c"
  shows "csg st' = csg st \<and>
    (\<exists>c'. chap st' = Some c' \<and> same_exchange c c' \<and> set (recv c') \<subseteq> set kvs \<union> set (recv c))"
  using assms
proof (induction kvs arbitrary: st c)
  case Nil
  then show ?case by auto
next
  case (Cons kv kvs)
  obtain st1 where st1: "applyKey kv st = Inr st1" "applyText kvs st1 = Inr st'"
    using Cons.prems(1) by (auto split: sum.splits)
  obtain c1 where c1: "csg st1 = csg st" "chap st1 = Some c1" "same_exchange c c1"
      "set (recv c1) \<subseteq> insert kv (set (recv c))"
    using applyKey_chap [OF st1(1) Cons.prems(2)] by auto
  obtain c' where "csg st' = csg st1" "chap st' = Some c'" "same_exchange c1 c'"
      "set (recv c') \<subseteq> set kvs \<union> set (recv c1)"
    using Cons.IH [OF st1(2) c1(2)] by auto
  then show ?case using c1 same_exchange_trans by fastforce
qed

section \<open>The invariant of a login with mutual credentials\<close>

text \<open>
  At the start of every round: the response of the target has been read, our own challenge is in
  the next request while its answer is awaited, and the security stage has not been left before the
  target's proof.
\<close>

definition chap_ok :: "CHAPCredentials \<Rightarrow> draw set \<Rightarrow> conversation \<Rightarrow> textKV set \<Rightarrow> chapState \<Rightarrow> bool" where
  "chap_ok cr D l sent c \<longleftrightarrow>
     creds c = cr \<and> (chapProgress c \<noteq> chapAwaitMethod \<longrightarrow> methodAgreed l) \<and>
     (chapProgress c = chapAwaitMutual \<longrightarrow>
        (chapId c, challenge c) \<in> D \<and> (keyCHAPI, formatUint (of_char (chapId c))) \<in> sent \<and>
        (keyCHAPC, encodeCHAPBinary (challenge c)) \<in> sent) \<and>
     (Mutual cr \<longrightarrow> chapProgress c \<noteq> chapAwaitResult) \<and> (Mutual cr \<and> chapProgress c = chapDone \<longrightarrow> targetProved cr D l)"

definition chap_inv :: "CHAPCredentials \<Rightarrow> draw set \<Rightarrow> conversation \<Rightarrow> loginState \<Rightarrow> bool" where
  "chap_inv cr D l st \<longleftrightarrow>
     (\<exists>c. chap st = Some c \<and> recv c = [] \<and> chap_ok cr D l (set (pending st)) c \<and>
       (csg st \<noteq> stageSecurity \<longrightarrow> chapProgress c = chapDone))"

text \<open>The CHAP step on the keys of one text, in the security stage.\<close>

definition said :: "conversation \<Rightarrow> textKV list \<Rightarrow> textKV list \<Rightarrow> conversation \<Rightarrow> bool" where
  "said l asked kvs l' \<longleftrightarrow>
     (\<exists>seg. l' = l @ seg \<and> seg \<noteq> [] \<and> reqData (fst (hd seg)) = encodeText asked \<and> answerText seg = Some kvs)"

lemma said_methodAgreed:
  "said l asked kvs l' \<Longrightarrow> (keyAuthMethod, authMethodCHAP) \<in> set kvs \<Longrightarrow> methodAgreed l'"
  unfolding said_def methodAgreed_def by (metis append_Nil2)

lemma said_targetProved:
  assumes "said l asked kvs l'" "(i, ch) \<in> D" "(keyCHAPI, formatUint (of_char i)) \<in> set asked"
    "(keyCHAPC, encodeCHAPBinary ch) \<in> set asked" "(keyCHAPN, MutualUsername c) \<in> set kvs"
    "(keyCHAPR, resp) \<in> set kvs" "decodeCHAPBinary resp = Inr (chapResponse i (MutualSecret c) ch)"
  shows "targetProved c D l'"
proof -
  obtain seg where "l' = l @ seg @ []" "seg \<noteq> []" "reqData (fst (hd seg)) = encodeText asked" "answerText seg = Some kvs"
    using assms(1) by (auto simp: said_def)
  then show ?thesis unfolding targetProved_def using assms(2-) by blast
qed

lemma said_append: "said l asked kvs l' \<Longrightarrow> \<exists>seg. l' = l @ seg"
  by (auto simp: said_def)

lemma chap_ok_same: "same_exchange c c' \<Longrightarrow> chap_ok cr D l sent c \<Longrightarrow> chap_ok cr D l sent c'"
  by (simp add: chap_ok_def same_exchange_def)

lemma chap_ok_sent: "chap_ok cr D l sent c \<Longrightarrow> sent \<subseteq> sent' \<Longrightarrow> chap_ok cr D l sent' c"
  by (auto simp: chap_ok_def)

lemma chap_ok_done:
  "chap_ok cr D l sent c \<Longrightarrow> chapProgress c = chapDone \<Longrightarrow> said l asked kvs l' \<Longrightarrow> chap_ok cr D l' sent' c"
  using said_append [of l asked kvs l'] by (auto simp: chap_ok_def methodAgreed_append targetProved_append)

lemma onMethod_ok:
  assumes "onMethod c = (Inr (send, hold), c')" "chap_ok cr D l sent c" "set (recv c) \<subseteq> set kvs"
    "said l asked kvs l'"
  shows "chap_ok cr D l' (set send) c'"
proof -
  have "map_of (recv c) keyAuthMethod = Some authMethodCHAP" "c' = c\<lparr>chapProgress := chapAwaitChallenge\<rparr>"
    using assms(1) by (auto simp: onMethod_def split: if_splits option.splits)
  then show ?thesis
    using assms(2,3) said_methodAgreed [OF assms(4)] by (auto simp: chap_ok_def dest!: map_of_SomeD)
qed

lemma onChallenge_ok:
  assumes "onChallenge out draws c = (Inr (send, hold), c', out', draws')" "chap_ok cr D l sent c"
    "chapProgress c = chapAwaitChallenge" "set draws \<subseteq> D" "said l asked kvs l'"
  shows "chap_ok cr D l' (set send) c' \<and> set draws' \<subseteq> D"
proof -
  have agreed: "methodAgreed l'"
    using assms(2,3) methodAgreed_append said_append [OF assms(5)] by (auto simp: chap_ok_def)
  show ?thesis
  proof (cases "Mutual cr")
    case False
    then have "c' = c\<lparr>chapProgress := chapAwaitResult\<rparr>" "draws' = draws"
      using assms(1,2) by (auto simp: onChallenge_def chap_ok_def Let_def split: sum.splits prod.splits if_splits)
    then show ?thesis using False agreed assms(2,4) by (simp add: chap_ok_def)
  next
    case True
    then have mutual: "Mutual (creds c)" using assms(2) by (simp add: chap_ok_def)
    obtain ident t where t: "readChallenge out c = Inr (ident, t)"
      using assms(1) by (auto simp: onChallenge_def split: sum.splits)
    obtain r dr where new: "newMutualChallenge t draws = (r, dr)" by (cases "newMutualChallenge t draws")
    obtain i ch where r: "r = Inr (i, ch)" using assms(1) t new mutual
      by (cases r) (auto simp: onChallenge_def Let_def)
    have ch: "newMutualChallenge t draws = (Inr (i, ch), draws')"
      "c' = c\<lparr>chapId := i, challenge := ch, release := Some ch, chapProgress := chapAwaitMutual\<rparr>"
      "{(keyCHAPI, formatUint (of_char i)), (keyCHAPC, encodeCHAPBinary ch)} \<subseteq> set send"
      using assms(1) t new mutual by (auto simp: r onChallenge_def Let_def)
    then show ?thesis using newMutualChallenge_draws [OF ch(1)] agreed assms(2,4) by (auto simp: chap_ok_def)
  qed
qed

lemma onMutualResponse_ok:
  assumes "onMutualResponse out c = (None, c', out')" "chap_ok cr D l (set asked) c"
    "chapProgress c = chapAwaitMutual" "set (recv c) \<subseteq> set kvs" "said l asked kvs l'"
  shows "chap_ok cr D l' sent c'"
proof -
  note r = onMutualResponse_proof [OF assms(1)]
  have "creds c' = creds c"
    using assms(1) by (auto simp: onMutualResponse_def chapClose_def Let_def split: if_splits option.splits prod.splits)
  moreover have "methodAgreed l'"
    using assms(2,3) methodAgreed_append said_append [OF assms(5)] by (auto simp: chap_ok_def)
  moreover obtain resp where "map_of (recv c) keyCHAPR = Some resp"
    "decodeCHAPBinary resp = Inr (chapResponse (chapId c) (MutualSecret (creds c)) (challenge c))" using r(3) by blast
  then have "targetProved cr D l'"
    using said_targetProved [OF assms(5), of "chapId c" "challenge c" D cr resp] assms(2-4) r(2)
    by (auto simp: chap_ok_def dest!: map_of_SomeD)
  ultimately show ?thesis using r(1) assms(2) by (simp add: chap_ok_def)
qed

lemma chapAdvance_ok:
  assumes adv: "chapAdvance out draws c = (Inr (send, hold), c', out', draws')"
    and ok: "chap_ok cr D l (set asked) c" and rd: "set (recv c) \<subseteq> set kvs" and D: "set draws \<subseteq> D"
    and said: "said l asked kvs l'"
  shows "recv c' = [] \<and> chap_ok cr D l' (set send) c' \<and> set draws' \<subseteq> D"
proof -
  have drop: "chap_ok cr D l' s (x\<lparr>recv := []\<rparr>) = chap_ok cr D l' s x" for s x by (simp add: chap_ok_def)
  show ?thesis
  proof (cases "chapProgress c")
    case chapAwaitMethod
    then show ?thesis using adv onMethod_ok [OF _ ok rd said] D
      by (auto simp: chapAdvance_def drop split: prod.splits)
  next
    case chapAwaitChallenge
    then show ?thesis using adv onChallenge_ok [OF _ ok chapAwaitChallenge D said]
      by (auto simp: chapAdvance_def drop split: prod.splits)
  next
    case chapAwaitResult
    then show ?thesis using adv ok D methodAgreed_append said_append [OF said]
      by (auto simp: chapAdvance_def chap_ok_def split: if_splits)
  next
    case chapAwaitMutual
    then show ?thesis using adv onMutualResponse_ok [OF _ ok chapAwaitMutual rd said] D
      by (auto simp: chapAdvance_def drop split: prod.splits option.splits)
  next
    case chapDone
    then have "c' = c\<lparr>recv := []\<rparr>" "draws' = draws" using adv by (auto simp: chapAdvance_def split: if_splits)
    then show ?thesis using chap_ok_done [OF ok chapDone said] D by (simp add: drop)
  qed
qed

lemma advanceCHAP_inv:
  assumes adv: "advanceCHAP out draws st = (None, st', out', draws')" and c: "chap st = Some c"
    and ok: "chap_ok cr D l (set asked) c" and rd: "set (recv c) \<subseteq> set kvs"
    and left: "csg st \<noteq> stageSecurity \<longrightarrow> chapProgress c = chapDone" and D: "set draws \<subseteq> D" and said: "said l asked kvs l'"
  shows "chap_inv cr D l' st' \<and> set draws' \<subseteq> D"
proof (cases "csg st = stageSecurity")
  case True
  obtain r c' o' d' where r: "chapAdvance out draws c = (r, c', o', d')" by (rule prod_cases4)
  then obtain send hold where send: "r = Inr (send, hold)"
    using adv c True by (cases r) (auto simp: advanceCHAP_def split: sum.splits)
  have st': "st' = st\<lparr>chap := Some c', pending := pending st @ send, holdTransit := hold\<rparr>" "draws' = d'"
    using adv c True r send by (auto simp: advanceCHAP_def)
  from chapAdvance_ok [OF r [unfolded send] ok rd D said]
  have "recv c' = []" "chap_ok cr D l' (set send) c'" "set draws' \<subseteq> D" using st' by auto
  then show ?thesis using st' True chap_ok_sent [of cr D l' "set send" c' "set (pending st')"]
    by (auto simp: chap_inv_def)
next
  case False
  then have st': "st' = st\<lparr>chap := Some (c\<lparr>recv := []\<rparr>)\<rparr>" "draws' = draws"
    using adv c by (auto simp: advanceCHAP_def split: if_splits)
  have "chap_ok cr D l' (set (pending st')) c" using chap_ok_done [OF ok _ said] left False by simp
  then have "chap_ok cr D l' (set (pending st')) (c\<lparr>recv := []\<rparr>)" by (simp add: chap_ok_def)
  then show ?thesis using st' left False D by (auto simp: chap_inv_def)
qed

lemma transition_inv:
  assumes "transition resp st = Inr (d, st')" "chap_inv cr D l st"
  shows "chap_inv cr D l st' \<and> (d \<longrightarrow> csg st' = stageOperational)"
  using assms
  by (auto simp: transition_def finish_def chap_inv_def securityDone_def split: if_splits sum.splits)

lemma handleResponse_inv:
  assumes h: "handleResponse resp kvs out draws st = (Inr d, st', out', draws')" and c: "chap st = Some c" "recv c = []"
    and ok: "chap_ok cr D l (set asked) c" and left: "csg st \<noteq> stageSecurity \<longrightarrow> chapProgress c = chapDone"
    and D: "set draws \<subseteq> D" and said: "said l asked kvs l'"
  shows "chap_inv cr D l' st' \<and> set draws' \<subseteq> D \<and> (d \<longrightarrow> csg st' = stageOperational)"
proof -
  obtain st1 where st1: "applyText kvs st = Inr st1"
    using h by (auto simp: handleResponse_def split: option.splits sum.splits)
  obtain c1 where c1: "csg st1 = csg st" "chap st1 = Some c1" "same_exchange c c1" "set (recv c1) \<subseteq> set kvs"
    using applyText_chap [OF st1 c(1)] c(2) by auto
  obtain e st2 o2 d2 where a: "advanceCHAP out draws st1 = (e, st2, o2, d2)" by (rule prod_cases4)
  then have e: "e = None" using h st1 by (cases e) (auto simp: handleResponse_def split: option.splits)
  have left1: "csg st1 \<noteq> stageSecurity \<longrightarrow> chapProgress c1 = chapDone" using left c1 by (simp add: same_exchange_def)
  have inv: "chap_inv cr D l' st2" "set d2 \<subseteq> D"
    using advanceCHAP_inv [OF a [unfolded e] c1(2) chap_ok_same [OF c1(3) ok] c1(4) left1 D said] by auto
  show ?thesis
  proof (cases "rspTransit resp")
    case False
    then have "st' = st2" "draws' = d2" "d = False"
      using h st1 a e by (auto simp: handleResponse_def split: option.splits)
    then show ?thesis using inv by simp
  next
    case True
    then have "transition resp st2 = Inr (d, st')" "draws' = d2"
      using h st1 a e by (auto simp: handleResponse_def split: option.splits sum.splits)
    then show ?thesis using transition_inv inv by blast
  qed
qed

lemma nextRequest_asked:
  assumes "nextRequest st = (req, st')"
  shows "\<exists>asked. reqData req = encodeText asked \<and> set (pending st) \<subseteq> set asked"
proof -
  have "set (pending st) \<subseteq> set (pending (offerOperational st))" for st
    by (auto simp: offerOperational_def)
  from this [of "st\<lparr>holdTransit := False\<rparr>"] show ?thesis
    using assms by (auto simp: nextRequest_def Let_def split: if_splits)
qed

lemma loginRounds_inv:
  assumes "loginRounds (recorded ex) rounds st draws (out, w, l) = (Inr r, st', out', w', l')"
    "chap_inv cr D l st" "set draws \<subseteq> D"
  shows "methodAgreed l' \<and> (Mutual cr \<longrightarrow> targetProved cr D l')"
  using assms
proof (induction rounds arbitrary: st draws out w l)
  case 0
  then show ?case by simp
next
  case (Suc rounds)
  obtain req st1 where req: "nextRequest st = (req, st1)" by (cases "nextRequest st")
  obtain resp kvs sn out1 w1 l1
    where ex: "exchangeComplete (recorded ex) req (expStatSN st1) (out, w, l) = (Inr (resp, kvs), sn, out1, w1, l1)"
    using Suc.prems(1) req by (auto split: prod.splits sum.splits)
  obtain asked where asked: "reqData req = encodeText asked" "set (pending st) \<subseteq> set asked"
    using nextRequest_asked [OF req] by auto
  have said: "said l asked kvs l1"
    using exchangeComplete_recorded [OF ex] asked(1) by (auto simp: said_def)
  obtain c where c: "chap st = Some c" "recv c = []" "chap_ok cr D l (set asked) c"
      "csg st \<noteq> stageSecurity \<longrightarrow> chapProgress c = chapDone"
    using Suc.prems(2) chap_ok_sent [OF _ asked(2)] by (auto simp: chap_inv_def)
  obtain h st2 o2 d2 where h: "handleResponse resp kvs out1 draws (st1\<lparr>expStatSN := sn\<rparr>) = (h, st2, o2, d2)"
    by (rule prod_cases4)
  have inv: "chap_inv cr D l1 st2 \<and> set d2 \<subseteq> D \<and> (d \<longrightarrow> csg st2 = stageOperational)" if "h = Inr d" for d
    using handleResponse_inv [OF h [unfolded that] _ c(2,3) _ Suc.prems(3) said] nextRequest_res [OF req] c by simp
  consider "h = Inr True" | "h = Inr False" | e where "h = Inl e" by (cases h) auto
  then show ?case
  proof cases
    case 1
    then have "l' = l1" using Suc.prems(1) req ex h by auto
    then show ?thesis using inv [OF 1] by (auto simp: chap_inv_def chap_ok_def stage_defs)
  next
    case 2
    then show ?thesis using Suc.prems(1) req ex h Suc.IH inv [OF 2] by auto
  next
    case 3
    then show ?thesis using Suc.prems(1) req ex h by auto
  qed
qed

lemma newLoginState_inv: "inCHAP inp = Some cr \<Longrightarrow> chap_inv cr D l (newLoginState inp portal)"
  by (simp add: newLoginState_def chap_inv_def chap_ok_def)

section \<open>The property\<close>

text \<open>
  C8: Whatever the peer answers, a login with CHAP credentials that succeeds was run with CHAP: the
  target agreed to the method and never moved the login to no authentication. With mutual
  credentials the target has moreover proved that it knows the mutual secret: it answered a request
  that carried an identifier and a challenge drawn at random in this login with the mutual user name
  and with the digest of that identifier, the mutual secret and that challenge.
\<close>

theorem chap_login_authenticates:
  assumes "inCHAP inp = Some cr"
    and "loginSession (recorded ex) draws inp portal (out, w, []) = (Inr r, out', w', l)"
  shows "methodAgreed l \<and> (Mutual cr \<longrightarrow> targetProved cr (set draws) l)"
proof -
  obtain st' env1 where run: "loginRounds (recorded ex) maxLoginRounds (newLoginState inp portal) draws (out, w, [])
      = (Inr r, st', env1)" "closeLogin st' env1 = (out', w', l)"
    using assms(2) by (auto simp: loginSession_def split: prod.splits)
  from run(2) obtain o1 where "env1 = (o1, w', l)"
    by (cases env1) (auto simp: closeLogin_def split: option.splits)
  from loginRounds_inv [OF run(1) [unfolded this] newLoginState_inv [OF assms(1)] order_refl] show ?thesis .
qed

end
