(* ===== verification/Iscsi_Termination.thy ===== *)
theory Iscsi_Termination
  imports Iscsi_Authentication
begin

text \<open>
  A login ends after a bounded number of exchanges, whatever the target answers, and takes back the
  challenge it registered on every way out.
\<close>

section \<open>The number of exchanges\<close>

definition counted :: "'w loginExchanger \<Rightarrow> ('w \<times> nat) loginExchanger" where
  "counted ex = (\<lambda>(out, w, n) req. case ex (out, w) req of (r, out', w') \<Rightarrow> (r, out', w', Suc n))"

lemma exchangeFrom_counted:
  "exchangeFrom (counted ex) rounds buf req sn (out, w, n) = (r, sn', out', w', n') \<Longrightarrow> n' \<le> n + rounds"
proof (induction rounds arbitrary: buf req sn out w n)
  case 0
  then show ?case by simp
next
  case (Suc rounds)
  obtain r1 out1 w1 where r1: "ex (out, w) req = (r1, out1, w1)" by (rule prod_cases3)
  show ?case
  proof (cases r1)
    case (Inl e)
    then show ?thesis using Suc.prems r1 by (simp add: counted_def)
  next
    case (Inr resp)
    then show ?thesis using Suc.prems r1 Suc.IH
      by (fastforce simp: counted_def Let_def split: if_splits option.splits)
  qed
qed

lemma loginRounds_counted:
  "loginRounds (counted ex) rounds st draws (out, w, n) = (r, st', out', w', n') \<Longrightarrow> n' \<le> n + maxLoginRounds * rounds"
proof (induction rounds arbitrary: st draws out w n)
  case 0
  then show ?case by simp
next
  case (Suc rounds)
  obtain req st1 where req: "nextRequest st = (req, st1)" by (cases "nextRequest st")
  obtain x sn out1 w1 n1 where ex: "exchangeComplete (counted ex) req (expStatSN st1) (out, w, n) = (x, sn, out1, w1, n1)"
    by (rule prod_cases5)
  have n1: "n1 \<le> n + maxLoginRounds" using ex exchangeFrom_counted by (auto simp: exchangeComplete_def)
  show ?case
  proof (cases x)
    case (Inl e)
    then show ?thesis using Suc.prems req ex n1 by simp
  next
    case (Inr y)
    obtain resp kvs where y: "y = (resp, kvs)" by (cases y)
    obtain h st2 o2 d2 where h: "handleResponse resp kvs out1 draws (st1\<lparr>expStatSN := sn\<rparr>) = (h, st2, o2, d2)"
      by (rule prod_cases4)
    consider "h = Inr False" | "n' = n1" using Suc.prems req ex Inr y h by (cases h) (auto split: bool.splits)
    then show ?thesis
    proof cases
      case 1
      then have "n' \<le> n1 + maxLoginRounds * rounds" using Suc.prems req ex Inr y h Suc.IH by auto
      then show ?thesis using n1 by simp
    qed (use n1 in simp)
  qed
qed

section \<open>The registered challenge\<close>

definition leavesRegistry :: "'w loginExchanger \<Rightarrow> bool" where
  "leavesRegistry ex \<longleftrightarrow> (\<forall>out w req. fst (snd (ex (out, w) req)) = out)"

lemma quiet_counted: "leavesRegistry ex \<Longrightarrow> leavesRegistry (counted ex)"
  by (auto simp: leavesRegistry_def counted_def split: prod.splits) (metis fst_conv snd_conv)

lemma exchangeFrom_quiet:
  "leavesRegistry ex \<Longrightarrow> exchangeFrom ex rounds buf req sn (out, w) = (r, sn', out', w') \<Longrightarrow> out' = out"
proof (induction rounds arbitrary: buf req sn out w)
  case 0
  then show ?case by simp
next
  case (Suc rounds)
  obtain r1 w1 where r1: "ex (out, w) req = (r1, out, w1)"
    using Suc.prems(1) by (metis leavesRegistry_def prod.collapse)
  show ?case
  proof (cases r1)
    case (Inl e)
    then show ?thesis using Suc.prems r1 by simp
  next
    case (Inr resp)
    then show ?thesis using Suc.prems(2) r1 Suc.IH [OF Suc.prems(1)] by (auto simp: Let_def split: if_splits option.splits)
  qed
qed

text \<open>The registry while a login runs, over the registry without it.\<close>

definition held :: "chapState option \<Rightarrow> challenges \<Rightarrow> challenges" where
  "held c out = (case Option.bind c release of None \<Rightarrow> out | Some k \<Rightarrow> registerChallenge k out)"

definition early :: "chapState option \<Rightarrow> bool" where
  "early c \<longleftrightarrow> (\<forall>x. c = Some x \<and> chapProgress x \<in> {chapAwaitMethod, chapAwaitChallenge} \<longrightarrow> release x = None)"

lemma release_register [simp]: "releaseChallenge k (registerChallenge k out) = out"
  by (auto simp: releaseChallenge_def registerChallenge_def)

lemma applyKey_release:
  "applyKey kv st = Inr st' \<Longrightarrow> map_option (\<lambda>c. (chapProgress c, release c)) (chap st') = map_option (\<lambda>c. (chapProgress c, release c)) (chap st)"
proof (cases "fst kv \<in> {keyAuthMethod, keyCHAPA, keyCHAPI, keyCHAPC, keyCHAPN, keyCHAPR}")
  case True
  assume "applyKey kv st = Inr st'"
  then show ?thesis using True
    by (auto simp: applyKey_def applyAuthKey_def chapStore_def split: option.splits if_splits)
next
  case False
  assume "applyKey kv st = Inr st'"
  then show ?thesis using False applyOperational_chap [of kv st st']
    by (auto simp: applyKey_def dest!: storeParams_Inr split: if_splits option.splits)
qed

lemma applyText_release:
  "applyText kvs st = Inr st' \<Longrightarrow>
    map_option (\<lambda>c. (chapProgress c, release c)) (chap st') = map_option (\<lambda>c. (chapProgress c, release c)) (chap st)"
  by (induction kvs arbitrary: st) (auto split: sum.splits dest: applyKey_release)

lemma release_cong:
  assumes "map_option (\<lambda>c. (chapProgress c, release c)) a = map_option (\<lambda>c. (chapProgress c, release c)) b"
  shows "held a out = held b out" "early a = early b"
  using assms by (cases a; cases b; simp add: held_def early_def)+

lemma onChallenge_held:
  assumes "onChallenge out draws c = (r, c', out', draws')" "release c = None"
  shows "out' = held (Some c') out \<and> (chapProgress c' \<in> {chapAwaitMethod, chapAwaitChallenge} \<longrightarrow> release c' = None)"
  using assms by (auto simp: onChallenge_def held_def Let_def split: sum.splits prod.splits if_splits)

lemma onMutualResponse_held:
  assumes "onMutualResponse (held (Some c) out) c = (e, c', out')" "chapProgress c = chapAwaitMutual"
  shows "out' = held (Some c') out \<and> (chapProgress c' \<in> {chapAwaitMethod, chapAwaitChallenge} \<longrightarrow> release c' = None)"
  using assms
  by (auto simp: onMutualResponse_def held_def chapClose_def Let_def split: if_splits option.splits prod.splits)

lemma chapAdvance_held:
  assumes adv: "chapAdvance (held (Some c) out) draws c = (r, c', out', draws')" and early: "early (Some c)"
  shows "out' = held (Some c') out \<and> early (Some c')"
proof -
  have drop: "held (Some (x\<lparr>recv := []\<rparr>)) out = held (Some x) out" "early (Some (x\<lparr>recv := []\<rparr>)) = early (Some x)" for x
    by (simp_all add: held_def early_def)
  show ?thesis
  proof (cases "chapProgress c")
    case chapAwaitMethod
    then have "release c = None" using early by (simp add: early_def)
    then show ?thesis using adv chapAwaitMethod
      by (auto simp: chapAdvance_def onMethod_def held_def early_def split: if_splits option.splits)
  next
    case chapAwaitChallenge
    then have "release c = None" using early by (simp add: early_def)
    then show ?thesis using adv chapAwaitChallenge onChallenge_held [of out draws c]
      by (auto simp: chapAdvance_def held_def early_def split: prod.splits)
  next
    case chapAwaitMutual
    then show ?thesis using adv onMutualResponse_held [OF _ chapAwaitMutual, of out]
      by (auto simp: chapAdvance_def drop early_def split: prod.splits)
  qed (use adv early in \<open>auto simp: chapAdvance_def held_def early_def split: if_splits\<close>)
qed

lemma advanceCHAP_held:
  assumes a: "advanceCHAP (held (chap st) out) draws st = (e, st', out', draws')" and early: "early (chap st)"
  shows "out' = held (chap st') out \<and> early (chap st')"
proof (cases "chap st")
  case None
  then show ?thesis using a by (auto simp: advanceCHAP_def early_def)
next
  case (Some c)
  show ?thesis
  proof (cases "csg st = stageSecurity")
    case False
    then show ?thesis using a early Some by (auto simp: advanceCHAP_def held_def early_def)
  next
    case True
    obtain r c' o' d' where adv: "chapAdvance (held (Some c) out) draws c = (r, c', o', d')" by (rule prod_cases4)
    then have "chap st' = Some c' \<and> out' = o'"
      using a Some True by (cases r) (auto simp: advanceCHAP_def split: prod.splits)
    then show ?thesis using chapAdvance_held [OF adv] early Some by simp
  qed
qed

lemma handleResponse_held:
  assumes h: "handleResponse resp kvs (held (chap st) out) draws st = (r, st', out', draws')" and early: "early (chap st)"
  shows "out' = held (chap st') out \<and> early (chap st')"
proof (cases "checkResponse st resp kvs")
  case (Some e)
  then show ?thesis using h early by (auto simp: handleResponse_def)
next
  case None
  show ?thesis
  proof (cases "applyText kvs st")
    case (Inl e)
    then show ?thesis using h early None by (auto simp: handleResponse_def)
  next
    case (Inr st1)
    note cong = release_cong [OF applyText_release [OF Inr]]
    obtain e st2 o2 d2 where a: "advanceCHAP (held (chap st) out) draws st1 = (e, st2, o2, d2)" by (rule prod_cases4)
    have st2: "o2 = held (chap st2) out \<and> early (chap st2)"
      using advanceCHAP_held [of st1 out] a early cong by simp
    have "chap st' = chap st2 \<and> out' = o2"
      using h None Inr a
      by (auto simp: handleResponse_def transition_def finish_def split: option.splits if_splits sum.splits prod.splits)
    then show ?thesis using st2 by simp
  qed
qed

lemma loginRounds_held:
  assumes "loginRounds ex rounds st draws (held (chap st) out, w) = (r, st', out', w')" "early (chap st)" "leavesRegistry ex"
  shows "out' = held (chap st') out"
  using assms(1,2)
proof (induction rounds arbitrary: st draws w)
  case 0
  then show ?case by auto
next
  case (Suc rounds)
  obtain req st1 where req: "nextRequest st = (req, st1)" by (cases "nextRequest st")
  then have c: "chap st1 = chap st" using nextRequest_res by blast
  obtain x sn w1 where ex: "exchangeComplete ex req (expStatSN st1) (held (chap st) out, w) = (x, sn, held (chap st) out, w1)"
    using exchangeFrom_quiet [OF assms(3)] unfolding exchangeComplete_def by (metis prod.collapse)
  show ?case
  proof (cases x)
    case (Inl e)
    then show ?thesis using Suc.prems req ex c by auto
  next
    case (Inr y)
    obtain resp kvs where y: "y = (resp, kvs)" by (cases y)
    obtain h st2 o2 d2
      where h: "handleResponse resp kvs (held (chap st) out) draws (st1\<lparr>expStatSN := sn\<rparr>) = (h, st2, o2, d2)"
      by (rule prod_cases4)
    then have st2: "o2 = held (chap st2) out" "early (chap st2)"
      using handleResponse_held [of resp kvs "st1\<lparr>expStatSN := sn\<rparr>" out draws] Suc.prems(2) c by auto
    consider "h = Inr False" | "st' = st2" "out' = o2"
      using Suc.prems(1) req ex Inr y h by (cases h) (auto split: bool.splits)
    then show ?thesis
    proof cases
      case 1
      then have "loginRounds ex rounds st2 d2 (held (chap st2) out, w1) = (r, st', out', w')"
        using Suc.prems(1) req ex Inr y h st2(1) by simp
      then show ?thesis using Suc.IH st2(2) by blast
    qed (use st2 in simp)
  qed
qed

lemma closeLogin_held: "closeLogin st (held (chap st) out, w) = (out, w)"
  by (auto simp: closeLogin_def held_def chapClose_def split: option.splits)

section \<open>The property\<close>

text \<open>
  C21: A login ends whatever the target does: after at most 1024 exchanges it has succeeded or
  failed. If no other login changes the registry of outstanding challenges meanwhile, the registry
  is on return, successful or not, what it was before.
\<close>

theorem login_ends:
  assumes "loginSession (counted ex) draws inp portal (out, w, 0) = (r, out', w', n)"
  shows "n \<le> 1024 \<and> (leavesRegistry ex \<longrightarrow> out' = out)"
proof -
  obtain st' env where run: "loginRounds (counted ex) maxLoginRounds (newLoginState inp portal) draws (out, w, 0) = (r, st', env)"
    "closeLogin st' env = (out', w', n)"
    using assms by (auto simp: loginSession_def split: prod.splits)
  obtain o1 where env: "env = (o1, w', n)"
    using run(2) by (cases env) (auto simp: closeLogin_def split: option.splits)
  have "n \<le> 1024" using loginRounds_counted [OF run(1) [unfolded env]] by (simp add: maxLoginRounds_def)
  moreover have "out' = out" if q: "leavesRegistry ex"
  proof -
    have start: "held (chap (newLoginState inp portal)) out = out" "early (chap (newLoginState inp portal))"
      by (cases "inCHAP inp"; simp add: newLoginState_def held_def early_def)+
    have "o1 = held (chap st') out"
      using loginRounds_held [of "counted ex" maxLoginRounds "newLoginState inp portal" draws out "(w, 0)"]
        run(1) env start quiet_counted [OF q] by simp
    then show ?thesis using run(2) env closeLogin_held [of st' out "(w', n)"] by simp
  qed
  ultimately show ?thesis by blast
qed

end
