(* ===== verification/Iscsi_Example.thy ===== *)
theory Iscsi_Example
  imports Iscsi_Termination
begin

text \<open>
  A login that completes: a target that follows a script, with mutual CHAP. The peer is given by
  the text of each of its answers and by the stage it moves to; the answer to our challenge is the
  one the mutual secret gives.
\<close>

section \<open>A scripted target\<close>

record answer =
  ansNSG :: "byte option"
  ansTSIH :: "16 word"
  ansText :: "textKV list"

definition answerOf :: "answer \<Rightarrow> loginRequest \<Rightarrow> loginResponse" where
  "answerOf a req =
     \<lparr>rspTransit = (ansNSG a \<noteq> None), rspContinue = False, rspCSG = reqCSG req,
      rspNSG = (case ansNSG a of None \<Rightarrow> 0 | Some n \<Rightarrow> n), rspVersionMax = 0,
      rspVersionActive = 0, rspISID = reqISID req, rspTSIH = ansTSIH a, rspITT = 0,
      rspStatSN = reqExpStatSN req, rspExpCmdSN = 0, rspMaxCmdSN = 0, rspStatusClass = 0,
      rspStatusDetail = 0, rspData = encodeText (ansText a)\<rparr>"

fun scriptTarget :: "answer list loginExchanger" where
  "scriptTarget (out, []) req = (Inl ''closed'', out, [])"
| "scriptTarget (out, a # script) req = (Inr (answerOf a req), out, script)"

lemma script_exchange:
  assumes "list_all pair_ok (ansText a)"
  shows "exchangeComplete (recorded scriptTarget) req sn (out, a # script, l) =
    (Inr (answerOf a req, ansText a), reqExpStatSN req + 1, out, script, l @ [(req, answerOf a req)])"
proof -
  have "decodeText (encodeText (ansText a)) = Some (ansText a)"
    using decode_encodeText [OF assms, of 0] by simp
  then show ?thesis
    by (simp add: exchangeComplete_def maxLoginRounds_def numeral_eq_Suc recorded_def answerOf_def)
qed

section \<open>The run\<close>

definition exCreds :: CHAPCredentials where
  "exCreds = \<lparr>Username = ''node'', Secret = ''initiator-secret'', MutualUsername = ''target'',
     MutualSecret = ''target-secret''\<rparr>"

definition exDraw :: draw where
  "exDraw = (CHR 0x05, ''sixteen bytes ok'')"

definition exInput :: loginInput where
  "exInput = \<lparr>inInitiatorIQN = ''iqn.2026-01.io.example:node'', inTargetIQN = ''iqn.2026-01.io.example:vol'',
     inISID = replicate 6 NUL, inTSIH = 0, inCID = 0, inCHAP = Some exCreds\<rparr>"

definition exPortal :: Portal where
  "exPortal = \<lparr>Address = ''192.0.2.1'', Port = 3260\<rparr>"

definition exProof :: string where
  "exProof = encodeCHAPBinary (chapResponse (fst exDraw) (MutualSecret exCreds) (snd exDraw))"

definition exMethod :: answer where
  "exMethod = \<lparr>ansNSG = None, ansTSIH = 0, ansText = [(''AuthMethod'', ''CHAP'')]\<rparr>"

definition exChallenge :: answer where
  "exChallenge = \<lparr>ansNSG = None, ansTSIH = 0,
     ansText = [(''CHAP_A'', ''5''), (''CHAP_I'', ''7''), (''CHAP_C'', ''0x0102'')]\<rparr>"

definition exAnswer :: answer where
  "exAnswer = \<lparr>ansNSG = Some 1, ansTSIH = 0, ansText = [(''CHAP_N'', ''target''), (''CHAP_R'', exProof)]\<rparr>"

definition exFinal :: answer where
  "exFinal = \<lparr>ansNSG = Some 3, ansTSIH = 7,
     ansText = [(''MaxRecvDataSegmentLength'', ''65536''), (''MaxBurstLength'', ''131072''),
       (''ImmediateData'', ''No''), (''MaxOutstandingR2T'', ''0'')]\<rparr>"

definition exScript :: "answer list" where
  "exScript = [exMethod, exChallenge, exAnswer, exFinal]"

lemmas ex_answers = exMethod_def exChallenge_def exAnswer_def exFinal_def

lemma set_hexEncode: "set (hexEncode s) \<subseteq> set hexDigits"
proof (induction s)
  case (Cons c s)
  have "hexDigit n \<in> set hexDigits" if "n < 16" for n
    using that nth_mem [of n hexDigits] by (simp add: hexDigit_def hexDigits_def)
  then show ?case using Cons by simp
qed simp

lemma exProof_plain: "NUL \<notin> set exProof"
  using set_hexEncode by (fastforce simp: exProof_def encodeCHAPBinary_def NUL_def hexDigits_def)

lemma exScript_ok:
  "list_all pair_ok (ansText exMethod)" "list_all pair_ok (ansText exChallenge)"
  "list_all pair_ok (ansText exAnswer)" "list_all pair_ok (ansText exFinal)"
  using exProof_plain by (simp_all add: ex_answers pair_ok_def NUL_def)

lemma exProof_decodes:
  "decodeCHAPBinary exProof = Inr (chapResponse (CHR 0x05) ''target-secret'' ''sixteen bytes ok'')"
proof -
  have "length (chapResponse i s ch) = 16" for i s ch by (simp add: chapResponse_def)
  then have "chapResponse i s ch \<noteq> []" for i s ch by (metis length_0_conv zero_neq_numeral)
  then show ?thesis by (simp add: exProof_def exDraw_def exCreds_def decode_encodeCHAPBinary)
qed

lemma target_challenge: "decodeCHAPBinary ''0x0102'' = Inr [CHR 0x01, CHR 0x02]"
  by code_simp

lemma target_id: "parseCHAPID ''7'' = Inr (CHR 0x07)"
  by code_simp

lemma script_round:
  assumes "list_all pair_ok (ansText a)" "nextRequest st = (req, st1)"
    "handleResponse (answerOf a req) (ansText a) out draws (st1\<lparr>expStatSN := reqExpStatSN req + 1\<rparr>) = (Inr False, st2, out', draws')"
  shows "loginRounds (recorded scriptTarget) (Suc n) st draws (out, a # script, l) =
    loginRounds (recorded scriptTarget) n st2 draws' (out', script, l @ [(req, answerOf a req)])"
  using assms by (simp add: script_exchange)

definition exLoginState ::
    "byte \<Rightarrow> textKV list \<Rightarrow> bool \<Rightarrow> chapState \<Rightarrow> bool \<Rightarrow> u32 \<Rightarrow> loginState" where
  "exLoginState stage keys offered c hold sn =
     (newLoginState exInput exPortal)\<lparr>csg := stage, pending := keys, offeredOperational := offered,
       chap := Some c, holdTransit := hold, expStatSN := sn\<rparr>"

definition exChap :: "chapStep \<Rightarrow> textKV list \<Rightarrow> draw \<Rightarrow> string option \<Rightarrow> chapState" where
  "exChap s keys d r = \<lparr>creds = exCreds, chapProgress = s, recv = keys, chapId = fst d, challenge = snd d, release = r\<rparr>"

lemma exState_start:
  "newLoginState exInput exPortal = exLoginState 0 [(''InitiatorName'', ''iqn.2026-01.io.example:node''), (''TargetName'', ''iqn.2026-01.io.example:vol''),
        (''SessionType'', ''Normal''), (''AuthMethod'', ''CHAP'')] False (exChap chapAwaitMethod [] (NUL, []) None) False 0"
  by (simp add: exLoginState_def exChap_def newLoginState_def exInput_def stage_defs keyAuthMethod_def authMethodCHAP_def)

definition exRequest :: "textKV list \<Rightarrow> bool \<Rightarrow> byte \<Rightarrow> byte \<Rightarrow> u32 \<Rightarrow> loginRequest" where
  "exRequest keys tr stage nsg sn = \<lparr>reqTransit = tr, reqContinue = False, reqCSG = stage, reqNSG = nsg,
           reqISID = replicate 6 NUL, reqTSIH = 0, reqITT = 0,
           reqCID = 0, reqCmdSN = 0, reqExpStatSN = sn,
           reqData = encodeText keys\<rparr>"

lemma exRequest_security:
  "nextRequest (exLoginState 0 keys False c hold sn) =
    (exRequest keys (\<not> hold) 0 (if hold then 0 else 1) sn, exLoginState 0 [] False c False sn)"
  by (simp add: exLoginState_def exRequest_def nextRequest_def newLoginState_def exInput_def stage_defs)

lemma applyAuthKey_exState:
  assumes "k \<in> {keyAuthMethod, keyCHAPA, keyCHAPI, keyCHAPC, keyCHAPN, keyCHAPR}" "k \<notin> fst ` set keys"
  shows "applyKey (k, v) (exLoginState stage p b (exChap s keys d r) hold sn) =
    Inr (exLoginState stage p b (exChap s ((k, v) # keys) d r) hold sn)"
  using assms by (simp add: applyKey_def applyAuthKey_def exLoginState_def exChap_def chapStore_def map_of_eq_None_iff)

lemma handle_stays:
  assumes "checkResponse st resp kvs = None" "applyText kvs st = Inr st1"
    "advanceCHAP out draws st1 = (None, st2, out', draws')" "\<not> rspTransit resp"
  shows "handleResponse resp kvs out draws st = (Inr False, st2, out', draws')"
  using assms by (simp add: handleResponse_def)

lemma handle_moves:
  assumes "checkResponse st resp kvs = None" "applyText kvs st = Inr st1"
    "advanceCHAP out draws st1 = (None, st2, out', draws')" "rspTransit resp" "transition resp st2 = Inr (d, st3)"
  shows "handleResponse resp kvs out draws st = (Inr d, st3, out', draws')"
  using assms by (simp add: handleResponse_def)

lemma exCheck: "reqCSG req = stage \<Longrightarrow> checkResponse (exLoginState stage p b c h sn) (answerOf a req) kvs = None"
  by (simp add: checkResponse_def answerOf_def exLoginState_def)

lemma exAdvance:
  "chapAdvance out draws c = (Inr (send, hold), c', out', draws') \<Longrightarrow>
    advanceCHAP out draws (exLoginState 0 p b c h sn) = (None, exLoginState 0 (p @ send) b c' hold sn, out', draws')"
  by (simp add: advanceCHAP_def exLoginState_def stage_defs)

lemma exSecurity: "csg (exLoginState stage p b c h sn) = stage" "chap (exLoginState stage p b c h sn) = Some c"
  by (simp_all add: exLoginState_def)

lemma round_method:
  assumes "reqCSG req = 0"
  shows "handleResponse (answerOf exMethod req) (ansText exMethod) out draws
      (exLoginState 0 [] False (exChap chapAwaitMethod [] d None) False sn)
    = (Inr False, exLoginState 0 [(''CHAP_A'', ''5'')] False (exChap chapAwaitChallenge [] d None) True sn, out, draws)"
proof (rule handle_stays [OF exCheck [OF assms]])
  show "applyText (ansText exMethod) (exLoginState 0 [] False (exChap chapAwaitMethod [] d None) False sn) =
     Inr (exLoginState 0 [] False (exChap chapAwaitMethod [(''AuthMethod'', ''CHAP'')] d None) False sn)"
    by (simp add: ex_answers applyAuthKey_exState chap_keys)
  show "advanceCHAP out draws (exLoginState 0 [] False (exChap chapAwaitMethod [(''AuthMethod'', ''CHAP'')] d None) False sn)
    = (None, exLoginState 0 [(''CHAP_A'', ''5'')] False (exChap chapAwaitChallenge [] d None) True sn, out, draws)"
    by (subst exAdvance [where send = "[(''CHAP_A'', ''5'')]"])
      (simp_all add: chapAdvance_def onMethod_def exChap_def chapUnexpected_def chap_keys valueNone_def
        authMethodCHAP_def chapAlgorithmMD5_def)
qed (simp add: answerOf_def ex_answers)

definition exReply :: string where
  "exReply = encodeCHAPBinary (chapResponse (CHR 0x07) ''initiator-secret'' [CHR 0x01, CHR 0x02])"

definition exSent :: "textKV list" where
  "exSent = [(''CHAP_N'', ''node''), (''CHAP_R'', exReply), (''CHAP_I'', ''5''),
     (''CHAP_C'', encodeCHAPBinary ''sixteen bytes ok'')]"

lemma round_challenge:
  assumes "reqCSG req = 0"
  shows "handleResponse (answerOf exChallenge req) (ansText exChallenge) (\<lambda>_. 0) [exDraw]
      (exLoginState 0 [] False (exChap chapAwaitChallenge [] d None) False sn)
    = (Inr False, exLoginState 0 exSent False (exChap chapAwaitMutual [] exDraw (Some (snd exDraw))) False sn,
       registerChallenge (snd exDraw) (\<lambda>_. 0), [])"
proof (rule handle_stays [OF exCheck [OF assms]])
  let ?keys = "[(''CHAP_C'', ''0x0102''), (''CHAP_I'', ''7''), (''CHAP_A'', ''5'')]"
  show "applyText (ansText exChallenge) (exLoginState 0 [] False (exChap chapAwaitChallenge [] d None) False sn) =
     Inr (exLoginState 0 [] False (exChap chapAwaitChallenge ?keys d None) False sn)"
    by (simp add: ex_answers applyAuthKey_exState chap_keys)
  have "readChallenge (\<lambda>_. 0) (exChap chapAwaitChallenge ?keys d None) = Inr (CHR 0x07, [CHR 0x01, CHR 0x02])"
    by (simp add: readChallenge_def exChap_def chapUnexpected_def chap_keys chapAlgorithmMD5_def target_id
        target_challenge maxCHAPChallengeLength_def isOutstandingChallenge_def)
  moreover have "formatUint 5 = ''5''" by code_simp
  ultimately have "onChallenge (\<lambda>_. 0) [exDraw] (exChap chapAwaitChallenge ?keys d None) =
      (Inr (exSent, False), exChap chapAwaitMutual ?keys exDraw (Some (snd exDraw)), registerChallenge (snd exDraw) (\<lambda>_. 0), [])"
    by (simp add: onChallenge_def exChap_def exCreds_def Mutual_def exDraw_def exSent_def exReply_def chap_keys)
  then show "advanceCHAP (\<lambda>_. 0) [exDraw] (exLoginState 0 [] False (exChap chapAwaitChallenge ?keys d None) False sn)
    = (None, exLoginState 0 exSent False (exChap chapAwaitMutual [] exDraw (Some (snd exDraw))) False sn,
       registerChallenge (snd exDraw) (\<lambda>_. 0), [])"
    by (subst exAdvance [where send = exSent]) (simp_all add: chapAdvance_def exChap_def)
qed (simp add: answerOf_def ex_answers)

lemma round_mutual:
  assumes "reqCSG req = 0"
  shows "handleResponse (answerOf exAnswer req) (ansText exAnswer) out []
      (exLoginState 0 [] False (exChap chapAwaitMutual [] exDraw (Some (snd exDraw))) False sn)
    = (Inr False, exLoginState 1 [] False (exChap chapDone [] exDraw None) False sn, releaseChallenge (snd exDraw) out, [])"
proof (rule handle_moves [OF exCheck [OF assms]])
  let ?keys = "[(''CHAP_R'', exProof), (''CHAP_N'', ''target'')]"
  show "applyText (ansText exAnswer) (exLoginState 0 [] False (exChap chapAwaitMutual [] exDraw (Some (snd exDraw))) False sn) =
     Inr (exLoginState 0 [] False (exChap chapAwaitMutual ?keys exDraw (Some (snd exDraw))) False sn)"
    by (simp add: ex_answers applyAuthKey_exState chap_keys)
  have "onMutualResponse out (exChap chapAwaitMutual ?keys exDraw (Some (snd exDraw))) =
      (None, exChap chapDone ?keys exDraw None, releaseChallenge (snd exDraw) out)"
    by (simp add: onMutualResponse_def exChap_def exCreds_def exDraw_def exProof_decodes chapUnexpected_def chap_keys
        chapClose_def)
  then show "advanceCHAP out [] (exLoginState 0 [] False (exChap chapAwaitMutual ?keys exDraw (Some (snd exDraw))) False sn)
    = (None, exLoginState 0 [] False (exChap chapDone [] exDraw None) False sn, releaseChallenge (snd exDraw) out, [])"
    by (subst exAdvance [where send = "[]"]) (simp_all add: chapAdvance_def exChap_def)
  show "transition (answerOf exAnswer req) (exLoginState 0 [] False (exChap chapDone [] exDraw None) False sn) =
      Inr (False, exLoginState 1 [] False (exChap chapDone [] exDraw None) False sn)"
    by (simp add: transition_def answerOf_def ex_answers stage_defs securityDone_def exLoginState_def exChap_def)
qed (simp add: answerOf_def ex_answers)

lemmas number_defs = parseNumKey_def parseUint_def basePrefix_def digitOf_def

lemma exNumbers:
  "parseNumKey ''65536'' = Some 65536" "parseNumKey ''131072'' = Some 131072" "parseNumKey ''0'' = Some 0"
  by (simp_all add: number_defs)

lemma exOffers:
  "find (\<lambda>k. opName k = ''MaxBurstLength'') operationalOffers =
     Some \<lparr>opName = ''MaxBurstLength'', opRule = ruleMin, opOffer = formatUint offerMaxBurstLength\<rparr>"
  "find (\<lambda>k. opName k = ''ImmediateData'') operationalOffers =
     Some \<lparr>opName = ''ImmediateData'', opRule = ruleAnd, opOffer = valueYes\<rparr>"
  "find (\<lambda>k. opName k = ''MaxOutstandingR2T'') operationalOffers =
     Some \<lparr>opName = ''MaxOutstandingR2T'', opRule = ruleMin, opOffer = formatUint offerMaxOutstandingR2T\<rparr>"
  by (simp_all add: operationalOffers_def)

lemma exFinal_text:
  assumes "offeredOperational st"
  shows "applyText (ansText exFinal) st = Inr (st\<lparr>res := (res st)\<lparr>resParams := (stParams st)
    \<lparr>MaxXmitDLength := 65536, MaxBurstLength := 131072, ImmediateData := False, MaxOutstandingR2T := 0\<rparr>\<rparr>\<rparr>)"
proof -
  have nums: "parseNumKey (formatUint 131072) = Some 131072" "parseNumKey (formatUint 0) = Some 0"
    by (simp_all add: parseNumKey_format)
  show ?thesis using assms
    by (simp add: ex_answers applyKey_def applyOperational_def exOffers storeParams_def chap_keys isNonValue_def
        keyMaxRecvDataSegmentLength_def resolveKey_def resolveNumKey_def resolveBoolKey_def applyNegotiated_def boolField_def
        numField_def exNumbers parseNumKey_offers nums parseBoolKey_def valueYes_def valueNo_def word_less_nat_alt)
qed

lemma round_final:
  assumes "offeredOperational st" "csg st = 1" "pending st = []" "chap st = Some c" "recv c = []" "reqCSG req = 1"
  shows "\<exists>st'. handleResponse (answerOf exFinal req) (ansText exFinal) out [] st = (Inr True, st', out, [])"
proof -
  let ?st = "st\<lparr>res := (res st)\<lparr>resParams := (stParams st)
    \<lparr>MaxXmitDLength := 65536, MaxBurstLength := 131072, ImmediateData := False, MaxOutstandingR2T := 0\<rparr>\<rparr>\<rparr>"
  have "checkResponse st (answerOf exFinal req) (ansText exFinal) = None"
    using assms by (simp add: checkResponse_def answerOf_def)
  moreover have "advanceCHAP out [] ?st = (None, ?st\<lparr>chap := Some (c\<lparr>recv := []\<rparr>)\<rparr>, out, [])"
    using assms by (simp add: advanceCHAP_def stage_defs chapUnexpected_def)
  moreover have "\<exists>st'. transition (answerOf exFinal req) (?st\<lparr>chap := Some (c\<lparr>recv := []\<rparr>)\<rparr>) = Inr (True, st')"
    using assms by (simp add: transition_def finish_def answerOf_def ex_answers stage_defs)
  moreover have "rspTransit (answerOf exFinal req)" by (simp add: answerOf_def ex_answers)
  ultimately show ?thesis using handle_moves [OF _ exFinal_text [OF assms(1)]] by blast
qed

lemma round_last:
  assumes "list_all pair_ok (ansText a)" "nextRequest st = (req, st1)"
    "handleResponse (answerOf a req) (ansText a) out draws (st1\<lparr>expStatSN := reqExpStatSN req + 1\<rparr>)
      = (Inr True, st2, out', draws')"
  shows "loginRounds (recorded scriptTarget) (Suc n) st draws (out, a # script, l) =
    (Inr (res st2), st2, out', script, l @ [(req, answerOf a req)])"
  using assms by (simp add: script_exchange)

lemma exRequest_operational:
  "\<exists>req st'. nextRequest (exLoginState 1 [] False c False sn) = (req, st') \<and> reqCSG req = 1 \<and>
    offeredOperational st' \<and> csg st' = 1 \<and> pending st' = [] \<and> chap st' = Some c"
  by (simp add: exLoginState_def nextRequest_def newLoginState_def stage_defs offerOperational_def Let_def)

lemma exState_sn: "(exLoginState st p b c h sn)\<lparr>expStatSN := sn'\<rparr> = exLoginState st p b c h sn'"
  by (simp add: exLoginState_def)

lemma exRequest_fields [simp]:
  "reqCSG (exRequest keys tr stage nsg sn) = stage" "reqExpStatSN (exRequest keys tr stage nsg sn) = sn"
  by (simp_all add: exRequest_def)

lemma exLast:
  "\<exists>r st env. loginRounds (recorded scriptTarget) (Suc n) (exLoginState 1 [] False (exChap chapDone [] exDraw None) False sn) []
    (out, [exFinal], l) = (Inr r, st, env)"
proof -
  obtain req st1 where req: "nextRequest (exLoginState 1 [] False (exChap chapDone [] exDraw None) False sn) = (req, st1)"
      "reqCSG req = 1" "offeredOperational st1" "csg st1 = 1" "pending st1 = []" "chap st1 = Some (exChap chapDone [] exDraw None)"
    using exRequest_operational by blast
  let ?st = "st1\<lparr>expStatSN := reqExpStatSN req + 1\<rparr>"
  have "\<exists>st'. handleResponse (answerOf exFinal req) (ansText exFinal) out [] ?st = (Inr True, st', out, [])"
    by (rule round_final [where c = "exChap chapDone [] exDraw None"]) (simp_all add: req exChap_def)
  then obtain st' where "handleResponse (answerOf exFinal req) (ansText exFinal) out [] ?st = (Inr True, st', out, [])" ..
  from round_last [OF exScript_ok(4) req(1) this] show ?thesis by auto
qed

lemma exLogin_run:
  "\<exists>r out w l. loginSession (recorded scriptTarget) [exDraw] exInput exPortal (\<lambda>_. 0, exScript, []) = (Inr r, out, w, l)"
proof -
  let ?run = "loginRounds (recorded scriptTarget)"
  note agree = script_round [OF exScript_ok(1) exRequest_security, unfolded exState_sn, OF round_method]
  note challenge = script_round [OF exScript_ok(2) exRequest_security, unfolded exState_sn, OF round_challenge]
  note mutual = script_round [OF exScript_ok(3) exRequest_security, unfolded exState_sn, OF round_mutual]
  have "\<exists>r st env. ?run (Suc (Suc (Suc (Suc n)))) (newLoginState exInput exPortal) [exDraw] (\<lambda>_. 0, exScript, [])
      = (Inr r, st, env)" for n
    by (simp add: exState_start exScript_def agree challenge mutual exLast del: loginRounds.simps split_paired_Ex)
  from this [of 28] have "\<exists>r st env. ?run maxLoginRounds (newLoginState exInput exPortal) [exDraw] (\<lambda>_. 0, exScript, [])
      = (Inr r, st, env)"
    by (simp add: maxLoginRounds_def numeral_eq_Suc del: loginRounds.simps split_paired_Ex)
  then obtain r st env where run: "?run maxLoginRounds (newLoginState exInput exPortal) [exDraw] (\<lambda>_. 0, exScript, [])
      = (Inr r, st, env)" by (elim exE)
  obtain out w l where "closeLogin st env = (out, w, l)" by (rule prod_cases3)
  with run show ?thesis by (simp add: loginSession_def)
qed

section \<open>Witnesses\<close>

theorem chap_login_authenticates_witness:
  "\<exists>r out w l. loginSession (recorded scriptTarget) [exDraw] exInput exPortal (\<lambda>_. 0, exScript, []) = (Inr r, out, w, l) \<and>
     methodAgreed l \<and> targetProved exCreds {exDraw} l"
proof -
  obtain r out w l where run: "loginSession (recorded scriptTarget) [exDraw] exInput exPortal (\<lambda>_. 0, exScript, []) = (Inr r, out, w, l)"
    using exLogin_run by (elim exE)
  have c: "inCHAP exInput = Some exCreds" "Mutual exCreds" by (simp_all add: exInput_def exCreds_def Mutual_def)
  from chap_login_authenticates [OF c(1) run] c(2) run show ?thesis by auto
qed

theorem login_parameters_supported_witness:
  "\<exists>r env. loginSession (recorded scriptTarget) [exDraw] exInput exPortal (\<lambda>_. 0, exScript, []) = (Inr r, env) \<and>
     params_ok (resParams r) \<and> FirstBurstLength (resParams r) \<le> MaxBurstLength (resParams r) \<and>
     MaxOutstandingR2T (resParams r) = 1 \<and> resTSIH r \<noteq> 0"
proof -
  obtain r env where run: "loginSession (recorded scriptTarget) [exDraw] exInput exPortal (\<lambda>_. 0, exScript, []) = (Inr r, env)"
    using exLogin_run by (elim exE)
  from login_parameters_supported [OF run] run show ?thesis by blast
qed

lemma scriptTarget_quiet: "leavesRegistry scriptTarget"
proof -
  have "fst (snd (scriptTarget (out, w) req)) = out" for out w req by (cases w) simp_all
  then show ?thesis by (simp add: leavesRegistry_def)
qed

theorem login_ends_witness:
  "\<exists>r out w n. loginSession (counted scriptTarget) [exDraw] exInput exPortal (\<lambda>_. 0, exScript, 0) = (r, out, w, n) \<and>
     n \<le> 1024 \<and> out = (\<lambda>_. 0)"
proof -
  obtain r out w n where run: "loginSession (counted scriptTarget) [exDraw] exInput exPortal (\<lambda>_. 0, exScript, 0) = (r, out, w, n)"
    by (rule prod_cases4)
  from login_ends [OF run] scriptTarget_quiet run show ?thesis by blast
qed

end
