(* ===== verification/Spec2Isabelle.thy ===== *)
theory Spec2Isabelle
  imports Recovery_Properties Publication_Properties State_Machine Nfs_Example Iscsi_Example
begin

text \<open>
  A verification library for pillar-csi, a Kubernetes storage driver. The controller
  (\<open>internal/csi\<close>) records every volume in a \<open>PillarVolumeState\<close> object and gives each
  operation a fencing token: the UID of the object (one lifecycle of the volume) and a generation
  that grows with every committed change. The agent on a storage node (\<open>internal/agent\<close>) keeps
  one durable mark per volume and admits an operation only if its token is not older than the
  mark. Ownership of an adopted volume can be moved by a signed authorization
  (\<open>internal/recoveryauth\<close>). NFS exports are kept by a manager of the agent
  (\<open>internal/agent/nfs\<close>) that records the rows it owns before it grants them. A node logs in to
  iSCSI targets with its own initiator (\<open>internal/iscsi\<close>).

  \<^bold>\<open>Theories and sources.\<close>

  \<^item> \<open>Prelude\<close>: status codes, results, Go string and path functions. \<open>Sha256\<close>, \<open>Md5\<close>: the
    digests. \<open>Netip\<close>, \<open>Go_Path\<close>, \<open>Go_Text\<close>, \<open>Go_Strconv\<close>: what the code uses of \<open>net/netip\<close>,
    \<open>path/filepath\<close>, \<open>strings\<close>, \<open>bufio\<close>, \<open>strconv\<close>, \<open>base64\<close> and \<open>net\<close>.
  \<^item> \<open>Backend\<close>: \<open>agent/backend/backend.go\<close>, pool lookup of \<open>agent/server.go\<close>,
    \<open>agent/target_id.go\<close>. A backend is a record of functions on the storage node \<open>'w\<close>.
  \<^item> \<open>Fence_Mark\<close>, \<open>Fence_Admission\<close>, \<open>Fence\<close>: \<open>agent/fencing.go\<close>: the mark and its
    directory, admission of tokens, and the fenced operations that run a mutation of the node.
  \<^item> \<open>Filesystem_Identity\<close>: the identity of adopted filesystems (\<open>server_filesystem.go\<close>) and
    the guard of \<open>filesystem_legacy.go\<close> and \<open>filesystem_legacy_owner.go\<close>.
  \<^item> \<open>Protocol_Handler\<close>: \<open>protocol_handler.go\<close>, \<open>protocol_handler_iscsi.go\<close>,
    \<open>protocol_handler_nfs.go\<close>. \<open>Agent_Volume\<close>: the RPCs of \<open>server_volume.go\<close>,
    \<open>server_import.go\<close> and \<open>server_release.go\<close>.
  \<^item> \<open>Recovery_Auth\<close>: \<open>recoveryauth/recoveryauth.go\<close>. \<open>Ownership_Transfer\<close>:
    \<open>agent/server_recovery.go\<close>.
  \<^item> \<open>Publication\<close>: \<open>csi/volume_fencing.go\<close>. \<open>State_Machine\<close>: \<open>csi/statemachine.go\<close>.
  \<^item> \<open>Nfs_Export\<close>, \<open>Nfs_Manager\<close>: \<open>agent/nfs/manager.go\<close>: policies and their kernel form, and the
    manager with its ownership file. \<open>Nfs_Runtime\<close>: \<open>agent/nfs/runtime_linux.go\<close>.
    \<open>Nfs_Ownership\<close>, \<open>Nfs_Converge\<close>, \<open>Nfs_Steps\<close>, \<open>Nfs_Progress\<close>: the invariant of the manager and
    its progress. \<open>Nfs_Table\<close>, \<open>Nfs_Example\<close>: an admission table as text and a run on it.
    \<open>Nfs_Properties\<close>: the properties.
  \<^item> \<open>Iscsi_Pdu\<close>: \<open>iscsi/pdu.go\<close>. \<open>Iscsi_Chap\<close>: \<open>iscsi/chap.go\<close>. \<open>Iscsi_Login\<close>: \<open>iscsi/login.go\<close> and the
    session parameters of \<open>iscsi/iscsi.go\<close>. \<open>Iscsi_Negotiation\<close>, \<open>Iscsi_Authentication\<close>,
    \<open>Iscsi_Termination\<close>: the properties of a login. \<open>Iscsi_Example\<close>: a login that completes.
  \<^item> \<open>Agent_Properties\<close>, \<open>Recovery_Properties\<close>, \<open>Publication_Properties\<close>: the properties
    of these components, each with an instance.

  \<^bold>\<open>How state and operations correspond.\<close> A Go struct is a record with the same fields. A node
  is the directory of marks and the rest of the storage node. A call runs under the volume's
  lock, so it is a function from a node to a result and a node. A mutation is an arbitrary
  function of the rest of the node that may change it and still fail. The steps of reading and
  writing a mark that can fail are arguments (\<open>fence_io\<close>), so a theorem holds for every failure.
  The controller's status changes are functions of the object read; the API server is a record
  of functions on its own state, with the interference of other clients as an argument.
  The NFS manager runs on a record of functions of the operating system (\<open>nfs_os\<close>): export utility,
  file system, daemons and kernel controls, each of which may fail. The peer of an iSCSI login is an
  arbitrary function of the rest of the system (\<open>loginExchanger\<close>); random bytes are a list of draws.

  \<^bold>\<open>What the lemmas show.\<close> The locale \<open>mark_store\<close> states what the fencing rules rely on of the
  directory and is interpreted on its operations. \<open>fence_le\<close> orders marks; every operation of
  the agent is a \<open>fence_step\<close>: it leaves the marks of other volumes alone and its own mark only
  grows. Rejections are stable under that order, so a superseded or retired token stays rejected.
  On the controller side \<open>pub_wf\<close> is an invariant of all committed changes, and the
  compare-and-swap loop refines one atomic change. For NFS, \<open>sysOk\<close> is kept by every manager call,
  daemon failure, crash and foreign process: the rows granted are those the ledger on disk owns;
  \<open>etab_ok\<close> states what is documented of \<open>exportfs\<close> and holds of the table in \<open>Nfs_Table\<close>. For iSCSI,
  \<open>chap_inv\<close> relates the state of a login to the recorded conversation, \<open>params_ok\<close> bounds the
  negotiated parameters, and \<open>held\<close> tracks the registered challenge on every way out.

  \<^bold>\<open>Bounds.\<close> Generations are 64-bit words and grow by one per commit; the loop of
  \<open>ReleaseVolume\<close> is proved to end, and the conflict retry has the bound the code has. A login has at
  most \<open>maxLoginRounds = 32\<close> rounds of at most 32 exchanges, the bounds of the code. No other
  recursion needs fuel.

  \<^bold>\<open>Not modelled.\<close> Error messages, metrics and traces; the commands and kernel files behind
  backends, configfs and NFS (functions on the storage node); protobuf encoding and public-key
  signatures (arguments); the daemons, listeners and mounts of the NFS runtime (arguments that may
  fail); the netlink, sysfs and recovery parts of the iSCSI initiator, which are I/O in goroutines;
  iSCSI and NFS export and reconcile of the agent, the operations on adopted filesystems, the node
  service, and the controller's RPC handlers around the status changes.
\<close>

end
